(* ===== verification/Prelude.thy ===== *)
theory Prelude
  imports Main "HOL-Library.AList" "HOL-Library.Multiset"
begin

text \<open>
  What every component of the model shares: the outcome of a Go call (a value, a returned
  \<open>error\<close>, or a run-time panic), effectful operations as functions on an explicit world,
  Go maps as association lists with distinct keys, and the iteration order of \<open>range\<close>
  over a map, which Go leaves open and which is an argument here (a seed that selects the
  permutation in which the entries are visited).

  The collection \<open>go_ok\<close> holds the rules that say when a computation returns a value;
  \<open>go_map\<close> holds the rules about Go maps.
\<close>

named_theorems go_ok \<open>when a computation returns a value\<close>
named_theorems go_map \<open>lookups in Go maps after stores and copies\<close>

section \<open>Outcomes\<close>

text \<open>
  The errors the code compares by identity are constructors; every other error is its text.
  The run-time panics are the four the code can run into.
\<close>

datatype goerror =
    Errorf string
  | ErrInstanceAlreadyExists
  | ErrInstanceDoesNotExist

datatype gopanic =
    IndexOutOfRange
  | SliceOutOfRange
  | NilDereference
  | NilMapWrite

text \<open>The text of an error, what \<open>err.Error()\<close> gives.\<close>

primrec err_text :: "goerror \<Rightarrow> string" where
  "err_text (Errorf s) = s"
| "err_text ErrInstanceAlreadyExists = ''instance already exists''"
| "err_text ErrInstanceDoesNotExist = ''instance does not exist''"

datatype 'a result =
    Ok 'a
  | Err goerror
  | Panic gopanic

lemma map_result_iff [simp]:
  "map_result g r = Ok y \<longleftrightarrow> (\<exists>x. r = Ok x \<and> g x = y)"
  "map_result g r = Err e \<longleftrightarrow> r = Err e" "map_result g r = Panic p \<longleftrightarrow> r = Panic p"
  by (cases r; auto)+

primrec rbind :: "'a result \<Rightarrow> ('a \<Rightarrow> 'b result) \<Rightarrow> 'b result" where
  "rbind (Ok x) f = f x"
| "rbind (Err e) f = Err e"
| "rbind (Panic p) f = Panic p"

text \<open>A pure Go function that returns \<open>(T, error)\<close>, its error a text.\<close>

primrec of_sum :: "string + 'a \<Rightarrow> 'a result" where
  "of_sum (Inl e) = Err (Errorf e)"
| "of_sum (Inr x) = Ok x"

lemma rbind_Ok_iff [go_ok]: "rbind r f = Ok y \<longleftrightarrow> (\<exists>x. r = Ok x \<and> f x = Ok y)"
  by (cases r) auto

lemma rbind_Panic_iff [go_ok]:
  "rbind r f = Panic p \<longleftrightarrow> r = Panic p \<or> (\<exists>x. r = Ok x \<and> f x = Panic p)"
  by (cases r) auto

lemma rbind_Err_iff [go_ok]:
  "rbind r f = Err e \<longleftrightarrow> r = Err e \<or> (\<exists>x. r = Ok x \<and> f x = Err e)"
  by (cases r) auto

lemma rbind_assoc: "rbind (rbind r f) g = rbind r (\<lambda>x. rbind (f x) g)"
  by (cases r) auto

lemma rbind_cong [fundef_cong]:
  "r = r' \<Longrightarrow> (\<And>x. r' = Ok x \<Longrightarrow> f x = g x) \<Longrightarrow> rbind r f = rbind r' g"
  by (cases r') auto

lemma of_sum_not_Panic [simp]: "of_sum s \<noteq> Panic p"
  by (cases s) auto

lemma of_sum_Ok_iff [go_ok]: "of_sum s = Ok x \<longleftrightarrow> s = Inr x"
  by (cases s) auto

text \<open>A loop over a list whose body may return early with an error or panic.\<close>

fun rfold :: "('a \<Rightarrow> 's \<Rightarrow> 's result) \<Rightarrow> 'a list \<Rightarrow> 's \<Rightarrow> 's result" where
  "rfold f [] s = Ok s"
| "rfold f (x # xs) s = rbind (f x s) (rfold f xs)"

lemma rfold_append: "rfold f (xs @ ys) s = rbind (rfold f xs s) (rfold f ys)"
proof (induction xs arbitrary: s)
  case (Cons x xs)
  then show ?case by (cases "f x s") simp_all
qed simp

text \<open>An invariant of the loop's state holds where the loop ends.\<close>

lemma rfold_invariant:
  assumes "rfold f xs s = Ok s'" and "I s"
    and "\<And>x t t'. x \<in> set xs \<Longrightarrow> I t \<Longrightarrow> f x t = Ok t' \<Longrightarrow> I t'"
  shows "I s'"
  using assms
proof (induction xs arbitrary: s)
  case Nil
  then show ?case by simp
next
  case (Cons x xs)
  from Cons.prems(1) obtain t where t: "f x s = Ok t" and rest: "rfold f xs t = Ok s'"
    by (auto simp: go_ok)
  have "I t" by (rule Cons.prems(3) [OF _ Cons.prems(2) t]) simp
  with rest Cons.prems(3) show ?case by (auto intro: Cons.IH)
qed

section \<open>Effectful operations\<close>

text \<open>
  An operation reads and replaces a world and ends in an outcome. A Go call whose error the
  code inspects itself is wrapped in \<open>attempt\<close>, which turns the returned error into a
  value; a panic still ends the caller.
\<close>

type_synonym ('w, 'a) act = "'w \<Rightarrow> 'a result \<times> 'w"

definition ret :: "'a \<Rightarrow> ('w, 'a) act" where
  "ret x = (\<lambda>w. (Ok x, w))"

definition fail :: "goerror \<Rightarrow> ('w, 'a) act" where
  "fail e = (\<lambda>w. (Err e, w))"

definition lift :: "'a result \<Rightarrow> ('w, 'a) act" where
  "lift r = (\<lambda>w. (r, w))"

definition get :: "('w \<Rightarrow> 'a) \<Rightarrow> ('w, 'a) act" where
  "get f = (\<lambda>w. (Ok (f w), w))"

definition andthen :: "('w, 'a) act \<Rightarrow> ('a \<Rightarrow> ('w, 'b) act) \<Rightarrow> ('w, 'b) act" where
  "andthen m f = (\<lambda>w. case m w of
      (Ok x, w') \<Rightarrow> f x w'
    | (Err e, w') \<Rightarrow> (Err e, w')
    | (Panic p, w') \<Rightarrow> (Panic p, w'))"

definition attempt :: "('w, 'a) act \<Rightarrow> ('w, goerror + 'a) act" where
  "attempt m = (\<lambda>w. case m w of
      (Ok x, w') \<Rightarrow> (Ok (Inr x), w')
    | (Err e, w') \<Rightarrow> (Ok (Inl e), w')
    | (Panic p, w') \<Rightarrow> (Panic p, w'))"

text \<open>An error that is wrapped: \<open>fmt.Errorf\<close> of a text around the text of the error.\<close>

definition wrap_err :: "string \<Rightarrow> ('w, 'a) act \<Rightarrow> ('w, 'a) act" where
  "wrap_err prefix m = (\<lambda>w. case m w of
      (Ok x, w') \<Rightarrow> (Ok x, w')
    | (Err e, w') \<Rightarrow> (Err (Errorf (prefix @ err_text e)), w')
    | (Panic p, w') \<Rightarrow> (Panic p, w'))"

text \<open>A loop with a state and an effectful body that may return early.\<close>

primrec fold_act :: "('a \<Rightarrow> 's \<Rightarrow> ('w, 's) act) \<Rightarrow> 'a list \<Rightarrow> 's \<Rightarrow> ('w, 's) act" where
  "fold_act f [] s = ret s"
| "fold_act f (x # xs) s = andthen (f x s) (fold_act f xs)"

text \<open>A loop over a list with an effectful body that may return early.\<close>

primrec each :: "('a \<Rightarrow> ('w, unit) act) \<Rightarrow> 'a list \<Rightarrow> ('w, unit) act" where
  "each f [] = ret ()"
| "each f (x # xs) = andthen (f x) (\<lambda>_. each f xs)"

lemma run_ret [simp]: "ret x w = (Ok x, w)"
  by (simp add: ret_def)

lemma run_fail [simp]: "fail e w = (Err e, w)"
  by (simp add: fail_def)

lemma run_lift [simp]: "lift r w = (r, w)"
  by (simp add: lift_def)

lemma run_get [simp]: "get f w = (Ok (f w), w)"
  by (simp add: get_def)

lemma run_andthen [simp]:
  "m w = (Ok x, w') \<Longrightarrow> andthen m f w = f x w'"
  "m w = (Err e, w') \<Longrightarrow> andthen m f w = (Err e, w')"
  "m w = (Panic p, w') \<Longrightarrow> andthen m f w = (Panic p, w')"
  by (simp_all add: andthen_def)

lemma ret_andthen: "andthen (ret x) f = f x"
  by (simp add: andthen_def fun_eq_iff)

lemma andthen_assoc: "andthen (andthen m f) g = andthen m (\<lambda>x. andthen (f x) g)"
  by (auto simp: andthen_def fun_eq_iff split: prod.splits result.splits)

lemma run_attempt [simp]:
  "m w = (Ok x, w') \<Longrightarrow> attempt m w = (Ok (Inr x), w')"
  "m w = (Err e, w') \<Longrightarrow> attempt m w = (Ok (Inl e), w')"
  "m w = (Panic p, w') \<Longrightarrow> attempt m w = (Panic p, w')"
  by (simp_all add: attempt_def)

lemma run_wrap_err [simp]:
  "m w = (Ok x, w') \<Longrightarrow> wrap_err s m w = (Ok x, w')"
  "m w = (Err e, w') \<Longrightarrow> wrap_err s m w = (Err (Errorf (s @ err_text e)), w')"
  "m w = (Panic p, w') \<Longrightarrow> wrap_err s m w = (Panic p, w')"
  by (simp_all add: wrap_err_def)

lemma wrap_err_Ok_iff [go_ok]: "wrap_err s m w = (Ok x, w') \<longleftrightarrow> m w = (Ok x, w')"
  by (auto simp: wrap_err_def split: prod.splits result.splits)

lemma wrap_err_Panic_iff [go_ok]: "wrap_err s m w = (Panic p, w') \<longleftrightarrow> m w = (Panic p, w')"
  by (auto simp: wrap_err_def split: prod.splits result.splits)

lemma wrap_err_Err_iff [go_ok]:
  "wrap_err s m w = (Err e, w') \<longleftrightarrow> (\<exists>e'. m w = (Err e', w') \<and> e = Errorf (s @ err_text e'))"
  by (auto simp: wrap_err_def split: prod.splits result.splits)

lemma andthen_Ok_iff [go_ok]:
  "andthen m f w = (Ok y, w'') \<longleftrightarrow> (\<exists>x w'. m w = (Ok x, w') \<and> f x w' = (Ok y, w''))"
  by (auto simp: andthen_def split: prod.splits result.splits)

lemma andthen_Err_iff [go_ok]:
  "andthen m f w = (Err e, w'') \<longleftrightarrow>
     m w = (Err e, w'') \<or> (\<exists>x w'. m w = (Ok x, w') \<and> f x w' = (Err e, w''))"
  by (auto simp: andthen_def split: prod.splits result.splits)

lemma andthen_Panic_iff [go_ok]:
  "andthen m f w = (Panic p, w'') \<longleftrightarrow>
     m w = (Panic p, w'') \<or> (\<exists>x w'. m w = (Ok x, w') \<and> f x w' = (Panic p, w''))"
  by (auto simp: andthen_def split: prod.splits result.splits)

lemma attempt_not_Err [simp]: "attempt m w \<noteq> (Err e, w')"
  by (auto simp: attempt_def split: prod.splits result.splits)

lemma attempt_Ok_iff [go_ok]:
  "attempt m w = (Ok v, w') \<longleftrightarrow>
     (case v of Inl e \<Rightarrow> m w = (Err e, w') | Inr x \<Rightarrow> m w = (Ok x, w'))"
  by (auto simp: attempt_def split: prod.splits result.splits sum.splits)

lemma attempt_Panic_iff [go_ok]: "attempt m w = (Panic p, w') \<longleftrightarrow> m w = (Panic p, w')"
  by (auto simp: attempt_def split: prod.splits result.splits)

text \<open>Both ways a call whose error is looked at can go.\<close>

lemma attempt_case_Ok:
  "andthen (attempt m) (\<lambda>r. case r of Inl e \<Rightarrow> f e | Inr x \<Rightarrow> g x) w = (Ok y, w'') \<longleftrightarrow>
     (\<exists>e w'. m w = (Err e, w') \<and> f e w' = (Ok y, w'')) \<or>
     (\<exists>x w'. m w = (Ok x, w') \<and> g x w' = (Ok y, w''))"
  by (auto simp: andthen_def attempt_def split: prod.splits result.splits)

section \<open>Relations every operation keeps\<close>

text \<open>
  A frame is a reflexive and transitive relation between worlds. An operation keeps it when
  every run ends in a world related to the one it started in; then so does every operation
  composed of such operations. Components use it to say which calls an operation makes.
\<close>

locale frame =
  fixes rel :: "'w \<Rightarrow> 'w \<Rightarrow> bool"
  assumes rel_refl: "rel w w"
    and rel_trans: "rel u v \<Longrightarrow> rel v w \<Longrightarrow> rel u w"
begin

definition keeps :: "('w, 'a) act \<Rightarrow> bool" where
  "keeps m \<longleftrightarrow> (\<forall>w. rel w (snd (m w)))"

lemma keepsD: "keeps m \<Longrightarrow> m w = (r, w') \<Longrightarrow> rel w w'"
  unfolding keeps_def by (metis snd_conv)

lemma keepsI: "(\<And>w r w'. m w = (r, w') \<Longrightarrow> rel w w') \<Longrightarrow> keeps m"
  unfolding keeps_def by (metis prod.collapse)

lemma keeps_ret: "keeps (ret x)"
  by (simp add: keeps_def rel_refl)

lemma keeps_fail: "keeps (fail e)"
  by (simp add: keeps_def rel_refl)

lemma keeps_lift: "keeps (lift r)"
  by (simp add: keeps_def rel_refl)

lemma keeps_get: "keeps (get f)"
  by (simp add: keeps_def rel_refl)

lemma keeps_read: "keeps (\<lambda>w. (f w, w))"
  by (simp add: keeps_def rel_refl)

lemma keeps_andthen: "keeps m \<Longrightarrow> (\<And>x. keeps (f x)) \<Longrightarrow> keeps (andthen m f)"
proof (rule keepsI)
  fix w r w''
  assume m: "keeps m" and f: "\<And>x. keeps (f x)" and run: "andthen m f w = (r, w'')"
  obtain q w' where q: "m w = (q, w')" by (cases "m w")
  with m have "rel w w'" by (auto dest: keepsD)
  moreover have "rel w' w''"
    using q run f by (cases q) (auto intro: rel_refl dest: keepsD)
  ultimately show "rel w w''" by (rule rel_trans)
qed

lemma keeps_attempt: "keeps m \<Longrightarrow> keeps (attempt m)"
  unfolding keeps_def attempt_def by (auto split: prod.splits result.splits) (metis snd_conv)+

lemma keeps_wrap_err: "keeps m \<Longrightarrow> keeps (wrap_err s m)"
  unfolding keeps_def wrap_err_def by (auto split: prod.splits result.splits) (metis snd_conv)+

lemma keeps_fold_act: "(\<And>x s. keeps (f x s)) \<Longrightarrow> keeps (fold_act f xs s)"
  by (induction xs arbitrary: s) (auto intro: keeps_ret keeps_andthen)

lemma keeps_each: "(\<And>x. keeps (f x)) \<Longrightarrow> keeps (each f xs)"
  by (induction xs) (auto intro: keeps_ret keeps_andthen)

lemma keeps_if: "keeps m \<Longrightarrow> keeps n \<Longrightarrow> keeps (if b then m else n)"
  by simp

lemma keeps_sum:
  "(\<And>e. keeps (f e)) \<Longrightarrow> (\<And>x. keeps (g x)) \<Longrightarrow> keeps (case s of Inl e \<Rightarrow> f e | Inr x \<Rightarrow> g x)"
  by (cases s) auto

lemma keeps_option:
  "keeps n \<Longrightarrow> (\<And>x. keeps (g x)) \<Longrightarrow> keeps (case s of None \<Rightarrow> n | Some x \<Rightarrow> g x)"
  by (cases s) auto

lemma keeps_prod:
  "(\<And>x y. keeps (g x y)) \<Longrightarrow> keeps (case s of (x, y) \<Rightarrow> g x y)"
  by (cases s) auto

lemma keeps_prod2:
  "(\<And>x y. keeps (g x y t)) \<Longrightarrow> keeps ((case s of (x, y) \<Rightarrow> g x y) t)"
  by (cases s) auto

lemma keeps_Let: "(\<And>x. keeps (g x)) \<Longrightarrow> keeps (Let s g)"
  by simp

lemmas keeps_intros =
  keeps_ret keeps_fail keeps_lift keeps_get keeps_andthen keeps_attempt keeps_wrap_err keeps_fold_act keeps_each
  keeps_if keeps_sum keeps_option keeps_prod keeps_prod2 keeps_Let

end

section \<open>The order in which range visits a map\<close>

text \<open>
  Go visits the entries of a map in an order it does not fix. A loop over a map takes a seed,
  a list of numbers: the first selects the entry visited first, the second the next of the
  rest, and so on. Every seed gives a permutation and every permutation has a seed, so what
  is proved for all seeds is proved for every order, and nothing else.
\<close>

fun go_range :: "nat list \<Rightarrow> 'a list \<Rightarrow> 'a list" where
  "go_range [] xs = xs"
| "go_range (n # ns) [] = []"
| "go_range (n # ns) (x # xs) =
     (let i = n mod Suc (length xs)
      in (x # xs) ! i # go_range ns (take i (x # xs) @ drop (Suc i) (x # xs)))"

lemma mset_remove_nth:
  "i < length xs \<Longrightarrow> add_mset (xs ! i) (mset (take i xs @ drop (Suc i) xs)) = mset xs"
  by (metis id_take_nth_drop mset.simps(2) mset_append union_mset_add_mset_right)

lemma mset_go_range [simp]: "mset (go_range ns xs) = mset xs"
proof (induction ns xs rule: go_range.induct)
  case (3 n ns x xs)
  let ?i = "n mod Suc (length xs)"
  have "?i < length (x # xs)" by simp
  from mset_remove_nth [OF this] "3.IH" show ?case
    by (simp add: Let_def del: take_Suc_Cons)
qed auto

lemma set_go_range [simp]: "set (go_range ns xs) = set xs"
  by (metis mset_go_range set_mset_mset)

lemma length_go_range [simp]: "length (go_range ns xs) = length xs"
  by (metis mset_go_range size_mset)

lemma go_range_Nil [simp]: "go_range ns [] = []"
  by (cases ns) auto

lemma go_range_single [simp]: "go_range ns [x] = [x]"
  by (cases ns) (auto simp: Let_def)

text \<open>No order is left out.\<close>

lemma go_range_any_order: "mset ys = mset xs \<Longrightarrow> \<exists>ns. go_range ns xs = ys"
proof (induction ys arbitrary: xs)
  case Nil
  then show ?case by auto
next
  case (Cons y ys)
  then have "y \<in> set xs" by (metis list.set_intros(1) set_mset_mset)
  then obtain i where i: "i < length xs" "xs ! i = y" by (auto simp: in_set_conv_nth)
  let ?rest = "take i xs @ drop (Suc i) xs"
  have "mset ys = mset ?rest"
    using Cons.prems mset_remove_nth [OF i(1)] i(2) by (metis add_mset_add_mset_same_iff mset.simps(2))
  then obtain ns where ns: "go_range ns ?rest = ys" using Cons.IH by blast
  obtain x zs where xs: "xs = x # zs" using i(1) by (cases xs) auto
  have "go_range (i # ns) xs = y # ys"
    using i ns by (simp add: xs Let_def)
  then show ?case by blast
qed

section \<open>Go maps\<close>

type_synonym ('k, 'v) gomap = "('k \<times> 'v) list"

definition gm_wf :: "('k, 'v) gomap \<Rightarrow> bool" where
  "gm_wf m \<longleftrightarrow> distinct (map fst m)"

definition gm_set :: "('k, 'v) gomap \<Rightarrow> 'k \<Rightarrow> 'v \<Rightarrow> ('k, 'v) gomap" where
  "gm_set m k v = AList.update k v m"

lemma gm_wf_Nil [simp]: "gm_wf []"
  by (simp add: gm_wf_def)

lemma gm_wf_set [simp]: "gm_wf m \<Longrightarrow> gm_wf (gm_set m k v)"
  by (simp add: gm_wf_def gm_set_def distinct_update)

lemma map_of_gm_set [simp, go_map]: "map_of (gm_set m k v) = (map_of m)(k \<mapsto> v)"
  by (simp add: gm_set_def update_conv')

lemma gm_wf_go_range [simp]: "gm_wf (go_range ns m) \<longleftrightarrow> gm_wf m"
  unfolding gm_wf_def by (rule mset_eq_imp_distinct_iff) simp

lemma gm_lookup: "gm_wf m \<Longrightarrow> (k, v) \<in> set m \<Longrightarrow> map_of m k = Some v"
  by (simp add: gm_wf_def)

lemma gm_set_all: "list_all P m \<Longrightarrow> P (k, v) \<Longrightarrow> list_all P (gm_set m k v)"
  unfolding gm_set_def by (induction m) auto

lemma foldl_gm_set_all:
  "list_all P m \<Longrightarrow> (\<And>k v. P (k, f k v)) \<Longrightarrow> list_all P (foldl (\<lambda>m (k, v). gm_set m k (f k v)) m es)"
proof (induction es arbitrary: m)
  case (Cons e es)
  obtain k v where e: "e = (k, v)" by (cases e)
  have "list_all P (gm_set m k (f k v))" by (rule gm_set_all [OF Cons.prems])
  from Cons.IH [OF this Cons.prems(2)] show ?case by (simp add: e)
qed simp

text \<open>A lookup does not depend on the order in which the entries are listed.\<close>

lemma map_of_go_range [simp, go_map]: "gm_wf m \<Longrightarrow> map_of (go_range ns m) = map_of m"
proof -
  assume wf: "gm_wf m"
  then have d: "distinct (map fst (go_range ns m))" by (simp add: gm_wf_def [symmetric])
  from wf have "distinct (map fst m)" by (simp add: gm_wf_def)
  then show ?thesis using d by (intro map_of_inject_set [THEN iffD2]) auto
qed

text \<open>The loop \<open>for k, v := range src { dst[k] = v }\<close>, and what it leaves in \<open>dst\<close>.\<close>

definition gm_copy :: "nat list \<Rightarrow> ('k, 'v) gomap \<Rightarrow> ('k, 'v) gomap \<Rightarrow> ('k, 'v) gomap" where
  "gm_copy ns src dst = foldl (\<lambda>m (k, v). gm_set m k v) dst (go_range ns src)"

lemma map_of_foldl_set:
  "map_of (foldl (\<lambda>m (k, v). gm_set m k v) dst es) = map_of dst ++ map_of (rev es)"
  by (induction es arbitrary: dst) (auto simp: map_add_def fun_eq_iff split: option.splits)

lemma map_of_rev_wf: "gm_wf m \<Longrightarrow> map_of (rev m) = map_of m"
  by (intro map_of_inject_set [THEN iffD2]) (auto simp: gm_wf_def simp flip: rev_map)

lemma map_of_gm_copy [simp, go_map]:
  "gm_wf src \<Longrightarrow> map_of (gm_copy ns src dst) = map_of dst ++ map_of src"
  by (simp add: gm_copy_def map_of_foldl_set map_of_rev_wf)

lemma gm_wf_foldl_set: "gm_wf dst \<Longrightarrow> gm_wf (foldl (\<lambda>m (k, v). gm_set m k v) dst es)"
  by (induction es arbitrary: dst) auto

lemma gm_wf_copy [simp]: "gm_wf dst \<Longrightarrow> gm_wf (gm_copy ns src dst)"
  by (simp add: gm_copy_def gm_wf_foldl_set)

section \<open>Search loops\<close>

text \<open>
  The loop \<open>for ... range xs { if ... { return r } }\<close>: the first entry the body returns for.
\<close>

fun first_hit :: "('e \<Rightarrow> 'r option) \<Rightarrow> 'e list \<Rightarrow> 'r option" where
  "first_hit h [] = None"
| "first_hit h (x # xs) = (case h x of Some r \<Rightarrow> Some r | None \<Rightarrow> first_hit h xs)"

lemma first_hit_None_iff: "first_hit h xs = None \<longleftrightarrow> (\<forall>x \<in> set xs. h x = None)"
  by (induction xs) (auto split: option.splits)

lemma first_hit_SomeD: "first_hit h xs = Some r \<Longrightarrow> \<exists>x \<in> set xs. h x = Some r"
  by (induction xs) (auto split: option.splits)

lemma first_hit_agree:
  assumes "\<And>x y a b. x \<in> set xs \<Longrightarrow> y \<in> set xs \<Longrightarrow> h x = Some a \<Longrightarrow> h y = Some b \<Longrightarrow> a = b"
    and "set ys = set xs"
  shows "first_hit h ys = first_hit h xs"
proof (cases "first_hit h xs")
  case None
  then show ?thesis using assms(2) by (metis first_hit_None_iff)
next
  case (Some a)
  then obtain x where x: "x \<in> set xs" "h x = Some a" by (blast dest: first_hit_SomeD)
  then have "first_hit h ys \<noteq> None" using assms(2) by (metis first_hit_None_iff option.distinct(1))
  then obtain b where b: "first_hit h ys = Some b" by blast
  then obtain y where "y \<in> set xs" "h y = Some b" using assms(2) by (blast dest: first_hit_SomeD)
  with x have "b = a" using assms(1) by blast
  with b Some show ?thesis by simp
qed

text \<open>
  A search over a map: the provider says that its loop returns the first hit in the order of
  the seed; the client gets that a result comes from an entry, that no result means no entry,
  and that the order does not matter where all hits agree.
\<close>

locale map_search =
  fixes hit :: "'q \<Rightarrow> 'e \<Rightarrow> 'r option"
    and search :: "nat list \<Rightarrow> 'q \<Rightarrow> 'e list \<Rightarrow> 'r option"
  assumes search_first: "search ns q m = first_hit (hit q) (go_range ns m)"
begin

lemma search_sound: "search ns q m = Some r \<Longrightarrow> \<exists>e \<in> set m. hit q e = Some r"
  unfolding search_first by (drule first_hit_SomeD) simp

lemma search_complete: "search ns q m = None \<longleftrightarrow> (\<forall>e \<in> set m. hit q e = None)"
  by (simp add: search_first first_hit_None_iff)

lemma search_order_free:
  assumes "\<And>x y a b. x \<in> set m \<Longrightarrow> y \<in> set m \<Longrightarrow> hit q x = Some a \<Longrightarrow> hit q y = Some b \<Longrightarrow> a = b"
    and "set m' = set m"
  shows "search ns q m' = search ns' q m"
  unfolding search_first
  using first_hit_agree [of m "hit q" "go_range ns m'"] first_hit_agree [of m "hit q" "go_range ns' m"]
    assms by simp

lemma search_any_hit: "e \<in> set m \<Longrightarrow> hit q e = Some r \<Longrightarrow> \<exists>ns. search ns q m = Some r"
proof -
  assume e: "e \<in> set m" and h: "hit q e = Some r"
  then obtain as bs where m: "m = as @ e # bs" by (auto dest: split_list)
  then have "mset (e # as @ bs) = mset m" by simp
  then obtain ns where "go_range ns m = e # as @ bs" using go_range_any_order by blast
  with h have "search ns q m = Some r" by (simp add: search_first)
  then show ?thesis by blast
qed

end

section \<open>Validation\<close>

text \<open>
  A validator returns the error of the first part that is wrong. Validating a list of parts in
  any order succeeds exactly when every part is right.
\<close>

locale validator =
  fixes check :: "'a \<Rightarrow> goerror option"
    and good :: "'a \<Rightarrow> bool"
  assumes check_none: "check x = None \<longleftrightarrow> good x"
begin

lemma check_all: "first_hit check xs = None \<longleftrightarrow> (\<forall>x \<in> set xs. good x)"
  by (simp add: first_hit_None_iff check_none)

lemma check_all_culprit: "first_hit check xs = Some e \<Longrightarrow> \<exists>x \<in> set xs. \<not> good x \<and> check x = Some e"
  by (auto dest!: first_hit_SomeD) (metis check_none option.distinct(1))

end

end
