(* ===== verification/Go_Strings.thy ===== *)
theory Go_Strings
  imports Prelude "HOL-Library.Sublist" "HOL-Library.Char_ord"
begin

text \<open>
  The parts of Go's standard library that the program uses on strings: package \<open>strings\<close>,
  \<open>strconv.Atoi\<close> and \<open>strconv.Itoa\<close>, slicing with its bounds checks, the line scanner
  of \<open>bufio\<close>, and 64-bit \<open>int\<close> addition. A Go string is its bytes, so a string here is a list
  of 8-bit characters and every index counts bytes. Case folding and white space are those of
  ASCII: exact on ASCII text (identifiers, chart names, the tables Kubernetes prints); bytes
  from 128 on are left alone.
\<close>

section \<open>Machine integers\<close>

text \<open>A Go \<open>int\<close> has 64 bits here; a value is the integer it denotes, and addition wraps.\<close>

definition int_min :: int where "int_min = - (2 ^ 63)"

definition int_max :: int where "int_max = 2 ^ 63 - 1"

definition fits_int :: "int \<Rightarrow> bool" where
  "fits_int i \<longleftrightarrow> int_min \<le> i \<and> i \<le> int_max"

definition wrap_int :: "int \<Rightarrow> int" where
  "wrap_int i = (i + 2 ^ 63) mod 2 ^ 64 - 2 ^ 63"

definition int_add :: "int \<Rightarrow> int \<Rightarrow> int" where
  "int_add a b = wrap_int (a + b)"

lemma wrap_int_fits [simp]: "fits_int (wrap_int i)"
proof -
  have "0 \<le> (i + 2 ^ 63) mod 2 ^ 64" "(i + 2 ^ 63) mod 2 ^ 64 < (2 ^ 64 :: int)" by simp_all
  then show ?thesis by (simp add: fits_int_def wrap_int_def int_min_def int_max_def)
qed

lemma wrap_int_id [simp]: "fits_int i \<Longrightarrow> wrap_int i = i"
  by (simp add: fits_int_def wrap_int_def int_min_def int_max_def)

lemma int_add_fits [simp]: "fits_int (int_add a b)"
  by (simp add: int_add_def)

lemma int_add_exact [simp]: "fits_int (a + b) \<Longrightarrow> int_add a b = a + b"
  by (simp add: int_add_def)

lemma fits_int_0 [simp]: "fits_int 0"
  by (simp add: fits_int_def int_min_def int_max_def)

section \<open>Slices and indexing\<close>

definition slice_from :: "'a list \<Rightarrow> int \<Rightarrow> 'a list result" where
  "slice_from s i = (if 0 \<le> i \<and> i \<le> int (length s) then Ok (drop (nat i) s)
     else Panic SliceOutOfRange)"

definition slice :: "'a list \<Rightarrow> int \<Rightarrow> int \<Rightarrow> 'a list result" where
  "slice s i j = (if 0 \<le> i \<and> i \<le> j \<and> j \<le> int (length s)
     then Ok (drop (nat i) (take (nat j) s)) else Panic SliceOutOfRange)"

definition index_at :: "'a list \<Rightarrow> nat \<Rightarrow> 'a result" where
  "index_at xs i = (if i < length xs then Ok (xs ! i) else Panic IndexOutOfRange)"

lemma slice_from_Ok_iff [go_ok]:
  "slice_from s i = Ok t \<longleftrightarrow> 0 \<le> i \<and> i \<le> int (length s) \<and> t = drop (nat i) s"
  by (auto simp: slice_from_def)

lemma slice_Ok_iff [go_ok]:
  "slice s i j = Ok t \<longleftrightarrow>
     0 \<le> i \<and> i \<le> j \<and> j \<le> int (length s) \<and> t = drop (nat i) (take (nat j) s)"
  by (auto simp: slice_def)

lemma index_at_Ok_iff [go_ok]: "index_at xs i = Ok x \<longleftrightarrow> i < length xs \<and> x = xs ! i"
  by (auto simp: index_at_def)

section \<open>Package strings\<close>

definition strings_HasPrefix :: "string \<Rightarrow> string \<Rightarrow> bool" where
  "strings_HasPrefix s p \<longleftrightarrow> take (length p) s = p"

definition strings_TrimPrefix :: "string \<Rightarrow> string \<Rightarrow> string" where
  "strings_TrimPrefix s p = (if strings_HasPrefix s p then drop (length p) s else s)"

text \<open>The position of the first occurrence of \<open>sub\<close>.\<close>

fun find_sub :: "string \<Rightarrow> string \<Rightarrow> nat option" where
  "find_sub [] sub = (if sub = [] then Some 0 else None)"
| "find_sub (c # cs) sub =
     (if strings_HasPrefix (c # cs) sub then Some 0 else map_option Suc (find_sub cs sub))"

definition strings_Index :: "string \<Rightarrow> string \<Rightarrow> int" where
  "strings_Index s sub = (case find_sub s sub of None \<Rightarrow> -1 | Some i \<Rightarrow> int i)"

definition strings_Contains :: "string \<Rightarrow> string \<Rightarrow> bool" where
  "strings_Contains s sub \<longleftrightarrow> strings_Index s sub \<ge> 0"

lemma find_sub_length: "find_sub s sub = Some i \<Longrightarrow> i + length sub \<le> length s"
  by (induction s sub arbitrary: i rule: find_sub.induct)
     (auto simp: strings_HasPrefix_def split: if_splits dest: arg_cong [where f = length])

lemma find_sub_at: "find_sub s sub = Some i \<Longrightarrow> take (length sub) (drop i s) = sub"
  by (induction s sub arbitrary: i rule: find_sub.induct)
     (auto simp: strings_HasPrefix_def split: if_splits)

lemma find_sub_eq:
  "find_sub s sub = Some i \<Longrightarrow> s = take i s @ sub @ drop (i + length sub) s"
  by (metis add.commute append_take_drop_id drop_drop find_sub_at)

lemma find_sub_None_iff: "find_sub s sub = None \<longleftrightarrow> \<not> sublist sub s"
proof (induction s sub rule: find_sub.induct)
  case (2 c cs sub)
  have "prefix sub (c # cs) \<longleftrightarrow> strings_HasPrefix (c # cs) sub"
    by (auto simp: strings_HasPrefix_def prefix_def) (metis append_take_drop_id)
  with 2 show ?case by (auto simp: sublist_Cons_right)
qed auto

lemma strings_Contains_iff: "strings_Contains s sub \<longleftrightarrow> sublist sub s"
  using find_sub_None_iff [of s sub]
  by (auto simp: strings_Contains_def strings_Index_def split: option.splits)

lemma strings_Index_bounds:
  "strings_Index s sub \<ge> 0 \<Longrightarrow> nat (strings_Index s sub) + length sub \<le> length s"
  by (auto simp: strings_Index_def dest: find_sub_length split: option.splits)

text \<open>\<open>strings.Split\<close> (and \<open>bytes.Split\<close>); an empty separator splits into characters.\<close>

function strings_Split :: "string \<Rightarrow> string \<Rightarrow> string list" where
  "strings_Split s sep =
     (if sep = [] then map (\<lambda>c. [c]) s
      else case find_sub s sep of
        None \<Rightarrow> [s]
      | Some i \<Rightarrow> take i s # strings_Split (drop (i + length sep) s) sep)"
  by pat_completeness auto
termination
  by (relation "measure (\<lambda>(s, sep). length s)")
     (auto dest!: find_sub_length simp flip: length_greater_0_conv)

declare strings_Split.simps [simp del]

fun strings_Join :: "string list \<Rightarrow> string \<Rightarrow> string" where
  "strings_Join [] sep = []"
| "strings_Join [s] sep = s"
| "strings_Join (s # t # ts) sep = s @ sep @ strings_Join (t # ts) sep"

text \<open>\<open>strings.Replace\<close> with no limit, for a non-empty old text.\<close>

definition strings_ReplaceAll :: "string \<Rightarrow> string \<Rightarrow> string \<Rightarrow> string" where
  "strings_ReplaceAll s old new = strings_Join (strings_Split s old) new"

lemma strings_Split_nonempty: "sep \<noteq> [] \<Longrightarrow> strings_Split s sep \<noteq> []"
  by (subst strings_Split.simps) (auto split: option.splits)

lemma strings_Split_none: "sep \<noteq> [] \<Longrightarrow> \<not> sublist sep s \<Longrightarrow> strings_Split s sep = [s]"
  by (subst strings_Split.simps) (simp add: find_sub_None_iff [THEN iffD2])

lemma strings_Join_Cons: "ts \<noteq> [] \<Longrightarrow> strings_Join (s # ts) sep = s @ sep @ strings_Join ts sep"
  by (cases ts) auto

lemma Join_Split: "sep \<noteq> [] \<Longrightarrow> strings_Join (strings_Split s sep) sep = s"
proof (induction s sep rule: strings_Split.induct)
  case (1 s sep)
  show ?case
  proof (cases "find_sub s sep")
    case None
    with 1 show ?thesis by (subst strings_Split.simps) simp
  next
    case (Some i)
    let ?rest = "drop (i + length sep) s"
    have "strings_Split s sep = take i s # strings_Split ?rest sep"
      using 1 Some by (subst strings_Split.simps) simp
    then show ?thesis
      using 1 Some find_sub_eq [OF Some]
      by (simp add: strings_Join_Cons strings_Split_nonempty)
  qed
qed

text \<open>Splitting at a single byte, as a recursion over the text.\<close>

fun split_char :: "char \<Rightarrow> string \<Rightarrow> string list" where
  "split_char c [] = [[]]"
| "split_char c (x # xs) =
     (if x = c then [] # split_char c xs
      else case split_char c xs of [] \<Rightarrow> [[x]] | y # ys \<Rightarrow> (x # y) # ys)"

lemma split_char_nonempty [simp]: "split_char c s \<noteq> []"
  by (cases s) (auto split: list.splits)

lemma strings_HasPrefix_char: "strings_HasPrefix (x # xs) [c] \<longleftrightarrow> x = c"
  by (auto simp: strings_HasPrefix_def)

lemma strings_Split_char: "strings_Split s [c] = split_char c s"
proof (induction s)
  case Nil
  show ?case by (subst strings_Split.simps) simp
next
  case (Cons x xs)
  show ?case
  proof (cases "x = c")
    case True
    then show ?thesis
      using Cons by (subst strings_Split.simps) (simp add: strings_HasPrefix_char)
  next
    case False
    from Cons have "split_char c xs = (case find_sub xs [c] of None \<Rightarrow> [xs]
        | Some i \<Rightarrow> take i xs # strings_Split (drop (Suc i) xs) [c])"
      by (subst (asm) strings_Split.simps) (simp split: option.splits)
    with False show ?thesis
      by (subst strings_Split.simps) (auto simp: strings_HasPrefix_char split: option.splits)
  qed
qed

lemma split_char_filter: "concat (split_char c s) = filter (\<lambda>x. x \<noteq> c) s"
  by (induction s) (auto split: list.splits)

lemma split_char_parts: "p \<in> set (split_char c s) \<Longrightarrow> c \<notin> set p"
  by (induction s arbitrary: p) (auto split: list.splits if_splits)

lemma strings_Join_empty: "strings_Join ss [] = concat ss"
  by (induction ss "[] :: string" rule: strings_Join.induct) auto

text \<open>Removing a byte with \<open>strings.Replace\<close> filters it out.\<close>

lemma ReplaceAll_remove: "strings_ReplaceAll s [c] [] = filter (\<lambda>x. x \<noteq> c) s"
  by (simp add: strings_ReplaceAll_def strings_Split_char strings_Join_empty split_char_filter)

text \<open>\<open>strings.FieldsFunc\<close> and \<open>strings.Fields\<close>: the maximal runs of other characters.\<close>

function strings_FieldsFunc :: "(char \<Rightarrow> bool) \<Rightarrow> string \<Rightarrow> string list" where
  "strings_FieldsFunc p s =
     (case dropWhile p s of
        [] \<Rightarrow> []
      | c # cs \<Rightarrow> takeWhile (\<lambda>x. \<not> p x) (c # cs)
          # strings_FieldsFunc p (dropWhile (\<lambda>x. \<not> p x) (c # cs)))"
  by pat_completeness auto
termination
proof (relation "measure (\<lambda>(p, s). length s)", goal_cases)
  case (2 p s c cs)
  then have "\<not> p c" by (metis dropWhile_eq_Cons_conv)
  moreover have "length (c # cs) \<le> length s" by (metis 2 length_dropWhile_le)
  ultimately show ?case using length_dropWhile_le [of "\<lambda>x. \<not> p x" cs] by simp
qed simp

declare strings_FieldsFunc.simps [simp del]

definition is_space :: "char \<Rightarrow> bool" where
  "is_space c \<longleftrightarrow> (of_char c :: nat) = 32 \<or> 9 \<le> (of_char c :: nat) \<and> (of_char c :: nat) \<le> 13"

definition strings_Fields :: "string \<Rightarrow> string list" where
  "strings_Fields s = strings_FieldsFunc is_space s"

lemma FieldsFunc_none: "dropWhile p s = [] \<Longrightarrow> strings_FieldsFunc p s = []"
  by (subst strings_FieldsFunc.simps) (simp only: list.case)

lemma FieldsFunc_some:
  "dropWhile p s = c # cs \<Longrightarrow> strings_FieldsFunc p s =
     takeWhile (\<lambda>x. \<not> p x) (c # cs) # strings_FieldsFunc p (dropWhile (\<lambda>x. \<not> p x) (c # cs))"
  by (subst strings_FieldsFunc.simps) simp

lemma FieldsFunc_parts:
  "f \<in> set (strings_FieldsFunc p s) \<Longrightarrow> f \<noteq> [] \<and> (\<forall>x \<in> set f. \<not> p x)"
proof (induction p s rule: strings_FieldsFunc.induct)
  case (1 p s)
  show ?case
  proof (cases "dropWhile p s")
    case Nil
    with "1.prems" show ?thesis by (simp add: FieldsFunc_none)
  next
    case (Cons c cs)
    let ?tw = "takeWhile (\<lambda>x. \<not> p x) (c # cs)"
    from Cons have "\<not> p c" by (metis dropWhile_eq_Cons_conv)
    then have "?tw \<noteq> []" by simp
    moreover have "\<forall>x \<in> set ?tw. \<not> p x" by (blast dest: set_takeWhileD)
    moreover have "f = ?tw \<or> f \<in> set (strings_FieldsFunc p (dropWhile (\<lambda>x. \<not> p x) (c # cs)))"
      using "1.prems" unfolding FieldsFunc_some [OF Cons] by (simp only: list.set insert_iff)
    ultimately show ?thesis
      using "1.IH" [OF Cons] by metis
  qed
qed

lemma FieldsFunc_empty_iff: "strings_FieldsFunc p s = [] \<longleftrightarrow> (\<forall>x \<in> set s. p x)"
proof (cases "dropWhile p s")
  case Nil
  then show ?thesis by (simp add: FieldsFunc_none dropWhile_eq_Nil_conv)
next
  case (Cons c cs)
  then have "\<not> (\<forall>x \<in> set s. p x)" by (metis dropWhile_eq_Nil_conv list.distinct(1))
  then show ?thesis by (simp add: FieldsFunc_some [OF Cons])
qed

lemma Fields_empty_iff: "strings_Fields s = [] \<longleftrightarrow> (\<forall>x \<in> set s. is_space x)"
  by (simp add: strings_Fields_def FieldsFunc_empty_iff)

section \<open>Case\<close>

definition ascii_lower :: "char \<Rightarrow> char" where
  "ascii_lower c = (if 65 \<le> (of_char c :: nat) \<and> (of_char c :: nat) \<le> 90
     then char_of ((of_char c :: nat) + 32) else c)"

definition ascii_upper :: "char \<Rightarrow> char" where
  "ascii_upper c = (if 97 \<le> (of_char c :: nat) \<and> (of_char c :: nat) \<le> 122
     then char_of ((of_char c :: nat) - 32) else c)"

definition strings_ToLower :: "string \<Rightarrow> string" where
  "strings_ToLower s = map ascii_lower s"

definition strings_ToUpper :: "string \<Rightarrow> string" where
  "strings_ToUpper s = map ascii_upper s"

definition strings_EqualFold :: "string \<Rightarrow> string \<Rightarrow> bool" where
  "strings_EqualFold s t \<longleftrightarrow> strings_ToLower s = strings_ToLower t"

lemmas ascii_eval = ascii_lower_def ascii_upper_def char_of_def bit_iff_odd

lemma ascii_lower_idem [simp]: "ascii_lower (ascii_lower c) = ascii_lower c"
  by (simp add: ascii_lower_def)

lemma ToLower_idem [simp]: "strings_ToLower (strings_ToLower s) = strings_ToLower s"
  by (simp add: strings_ToLower_def)

lemma length_ToLower [simp]: "length (strings_ToLower s) = length s"
  by (simp add: strings_ToLower_def)

lemma EqualFold_refl [simp]: "strings_EqualFold s s"
  by (simp add: strings_EqualFold_def)

lemma EqualFold_sym: "strings_EqualFold s t \<Longrightarrow> strings_EqualFold t s"
  by (simp add: strings_EqualFold_def)

lemma EqualFold_trans: "strings_EqualFold s t \<Longrightarrow> strings_EqualFold t u \<Longrightarrow> strings_EqualFold s u"
  by (simp add: strings_EqualFold_def)

section \<open>Numbers\<close>

definition digit_char :: "nat \<Rightarrow> char" where
  "digit_char n = ''0123456789'' ! n"

definition digit_val :: "char \<Rightarrow> nat option" where
  "digit_val c = (let n = of_char c in if 48 \<le> n \<and> n \<le> 57 then Some (n - 48) else None)"

fun nat_digits :: "nat \<Rightarrow> string" where
  "nat_digits n = (if n < 10 then [digit_char n] else nat_digits (n div 10) @ [digit_char (n mod 10)])"

declare nat_digits.simps [simp del]

definition strconv_Itoa :: "int \<Rightarrow> string" where
  "strconv_Itoa i = (if i < 0 then CHR ''-'' # nat_digits (nat (- i)) else nat_digits (nat i))"

text \<open>The value of a text of decimal digits, continuing from \<open>acc\<close>; None at another byte.\<close>

fun digits_val :: "nat \<Rightarrow> string \<Rightarrow> nat option" where
  "digits_val acc [] = Some acc"
| "digits_val acc (c # cs) =
     (case digit_val c of None \<Rightarrow> None | Some d \<Rightarrow> digits_val (10 * acc + d) cs)"

text \<open>
  \<open>strconv.Atoi\<close>: an optional sign, at least one digit, and a value in the range of \<open>int\<close>;
  None is the error, whose text and accompanying value the program never reads.
\<close>

definition strconv_Atoi :: "string \<Rightarrow> int option" where
  "strconv_Atoi s =
     (let neg = (s \<noteq> [] \<and> hd s = CHR ''-'');
          ds = (if s \<noteq> [] \<and> (hd s = CHR ''-'' \<or> hd s = CHR ''+'') then tl s else s)
      in if ds = [] then None
         else case digits_val 0 ds of
           None \<Rightarrow> None
         | Some n \<Rightarrow> (let i = (if neg then - int n else int n)
                      in if fits_int i then Some i else None))"

lemma digit_val_char [simp]: "n < 10 \<Longrightarrow> digit_val (digit_char n) = Some n"
  by (simp add: digit_char_def digit_val_def) (auto simp: less_Suc_eq numeral_eq_Suc)

lemma digits_val_append:
  "digits_val acc (xs @ ys) =
     (case digits_val acc xs of None \<Rightarrow> None | Some n \<Rightarrow> digits_val n ys)"
  by (induction xs arbitrary: acc) (auto split: option.splits)

lemma digits_val_nat_digits: "digits_val 0 (nat_digits n) = Some n"
proof (induction n rule: nat_digits.induct)
  case (1 n)
  show ?case
  proof (cases "n < 10")
    case True
    then show ?thesis by (subst nat_digits.simps) simp
  next
    case False
    with 1 show ?thesis by (subst nat_digits.simps) (simp add: digits_val_append)
  qed
qed

lemma nat_digits_nonempty [simp]: "nat_digits n \<noteq> []"
  by (subst nat_digits.simps) simp

lemma digits_val_digits: "digits_val acc s = Some n \<Longrightarrow> c \<in> set s \<Longrightarrow> digit_val c \<noteq> None"
  by (induction s arbitrary: acc) (auto split: option.splits)

lemma nat_digits_digits: "c \<in> set (nat_digits n) \<Longrightarrow> digit_val c \<noteq> None"
  using digits_val_digits digits_val_nat_digits by blast

lemma digit_not_sign: "digit_val c \<noteq> None \<Longrightarrow> c \<noteq> CHR ''-'' \<and> c \<noteq> CHR ''+''"
  by (auto simp: digit_val_def)

lemma Atoi_Itoa [simp]: "fits_int i \<Longrightarrow> strconv_Atoi (strconv_Itoa i) = Some i"
proof -
  assume "fits_int i"
  moreover have "hd (nat_digits n) \<noteq> CHR ''-'' \<and> hd (nat_digits n) \<noteq> CHR ''+''" for n
    using digit_not_sign nat_digits_digits hd_in_set nat_digits_nonempty by blast
  ultimately show ?thesis
    by (simp add: strconv_Atoi_def strconv_Itoa_def digits_val_nat_digits Let_def)
qed

lemma Atoi_fits: "strconv_Atoi s = Some i \<Longrightarrow> fits_int i"
  by (auto simp: strconv_Atoi_def Let_def split: if_splits option.splits)

lemma Itoa_nonempty [simp]: "strconv_Itoa i \<noteq> []"
  by (simp add: strconv_Itoa_def)

lemma Itoa_inject: "fits_int i \<Longrightarrow> fits_int j \<Longrightarrow> strconv_Itoa i = strconv_Itoa j \<Longrightarrow> i = j"
  by (metis Atoi_Itoa option.inject)

section \<open>The line scanner\<close>

text \<open>
  \<open>bufio.Scanner\<close> with \<open>ScanLines\<close>: the text is cut at line feeds, a last empty piece
  is no line, one carriage return at the end of a line is dropped, and the scanner stops, without
  telling the caller who only calls \<open>Scan\<close>, at the first line that does not fit its buffer
  of 65536 bytes with its line feed.
\<close>

definition max_scan_token :: nat where "max_scan_token = 65536"

definition drop_cr :: "string \<Rightarrow> string" where
  "drop_cr s = (if s \<noteq> [] \<and> last s = CHR 0x0D then butlast s else s)"

definition raw_lines :: "string \<Rightarrow> string list" where
  "raw_lines s = (let ls = split_char (CHR 0x0A) s in if last ls = [] then butlast ls else ls)"

definition scan_lines :: "string \<Rightarrow> string list" where
  "scan_lines s = map drop_cr (takeWhile (\<lambda>l. length l < max_scan_token) (raw_lines s))"

lemma split_char_no: "c \<notin> set s \<Longrightarrow> split_char c s = [s]"
  by (induction s) auto

lemma split_char_append:
  "c \<notin> set a \<Longrightarrow> split_char c (a @ c # s) = a # split_char c s"
  by (induction a) (auto split: list.splits)

text \<open>Lines written with a line feed after each are the lines read.\<close>

definition unlines :: "string list \<Rightarrow> string" where
  "unlines ls = concat (map (\<lambda>l. l @ [CHR 0x0A]) ls)"

definition plain_line :: "string \<Rightarrow> bool" where
  "plain_line l \<longleftrightarrow> CHR 0x0A \<notin> set l \<and> CHR 0x0D \<notin> set l \<and> length l < max_scan_token"

lemma split_char_unlines:
  "\<forall>l \<in> set ls. CHR 0x0A \<notin> set l \<Longrightarrow> split_char (CHR 0x0A) (unlines ls) = ls @ [[]]"
  by (induction ls) (auto simp: unlines_def split_char_append)

lemma scan_unlines: "\<forall>l \<in> set ls. plain_line l \<Longrightarrow> scan_lines (unlines ls) = ls"
proof -
  assume plain: "\<forall>l \<in> set ls. plain_line l"
  then have "raw_lines (unlines ls) = ls"
    by (simp add: raw_lines_def split_char_unlines plain_line_def)
  moreover have "takeWhile (\<lambda>l. length l < max_scan_token) ls = ls"
    using plain unfolding takeWhile_eq_all_conv by (simp add: plain_line_def)
  moreover have "map drop_cr ls = ls"
    using plain by (intro map_idI) (metis drop_cr_def last_in_set plain_line_def)
  ultimately show ?thesis by (simp only: scan_lines_def)
qed

end
