(* ===== verification/Catalog.thy ===== *)
theory Catalog
  imports Go_Strings "HOL-Library.Word"
begin

text \<open>
  Package \<open>catalog\<close>, the part of \<open>catalog.go\<close> that holds the service definitions: the data,
  validation, the reader of a catalog directory, the lookups of a service and of a plan, and
  the values a plan passes to its chart. What is not the program's code is an argument: the
  YAML decoder, the template engine (package \<open>text/template\<close> with the sprig functions) and
  the rendering of a struct by \<open>fmt\<close> in an error text.
\<close>

section \<open>Data\<close>

text \<open>
  A value of type \<open>interface{}\<close> as the YAML and JSON decoders produce it. A float is the
  64 bits it has; nothing computes with it.
\<close>

type_synonym float64 = "64 word"

datatype gval =
    GNil
  | GBool bool
  | GInt int
  | GFloat float64
  | GString string
  | GList "gval list"
  | GMap "(gval \<times> gval) list"

text \<open>A parsed template: its name and its text, the function map being fixed.\<close>

datatype template = Template (tmpl_name: string) (tmpl_text: string)

record Cost =
  cost_Amount :: "(string, float64) gomap"
  cost_Unit :: string

record PlanMetadata =
  pm_Costs :: "Cost list"
  pm_Bullets :: "string list"

record Plan =
  plan_Id :: string
  plan_Name :: string
  plan_Description :: string
  plan_Free :: "bool option"
  plan_Bindable :: "bool option"
  plan_Metadata :: PlanMetadata
  plan_Chart :: string
  plan_ChartVersion :: string
  plan_ChartValues :: "(string, string) gomap"
  plan_UserCredentials :: "(string, gval) gomap"

record ServiceMetadata =
  sm_DisplayName :: string
  sm_ImageUrl :: string
  sm_LongDescription :: string
  sm_ProviderDisplayName :: string
  sm_DocumentationUrl :: string
  sm_SupportUrl :: string

record Service =
  service_Id :: string
  service_Name :: string
  service_Description :: string
  service_Tags :: "string list"
  service_Requires :: "string list"
  service_Bindable :: bool
  service_Metadata :: ServiceMetadata
  service_DashboardClient :: "(string, string) gomap"
  service_PlanUpdateable :: bool
  service_Chart :: string
  service_ChartVersion :: string
  service_ChartOffline :: string
  service_InternalDiscoveryName :: string
  service_Plans :: "Plan list"
  service_valuesTemplate :: "template option"
  service_credentialsTemplate :: "template option"

record Catalog =
  catalog_Services :: "(string, Service) gomap"

text \<open>The zero values \<open>*new(Service)\<close> and \<open>*new(Plan)\<close>.\<close>

definition zero_Plan :: Plan where
  "zero_Plan = \<lparr>plan_Id = [], plan_Name = [], plan_Description = [], plan_Free = None,
     plan_Bindable = None, plan_Metadata = \<lparr>pm_Costs = [], pm_Bullets = []\<rparr>, plan_Chart = [],
     plan_ChartVersion = [], plan_ChartValues = [], plan_UserCredentials = []\<rparr>"

definition zero_Service :: Service where
  "zero_Service = \<lparr>service_Id = [], service_Name = [], service_Description = [],
     service_Tags = [], service_Requires = [], service_Bindable = False,
     service_Metadata = \<lparr>sm_DisplayName = [], sm_ImageUrl = [], sm_LongDescription = [],
       sm_ProviderDisplayName = [], sm_DocumentationUrl = [], sm_SupportUrl = []\<rparr>,
     service_DashboardClient = [], service_PlanUpdateable = False, service_Chart = [],
     service_ChartVersion = [], service_ChartOffline = [], service_InternalDiscoveryName = [],
     service_Plans = [], service_valuesTemplate = None, service_credentialsTemplate = None\<rparr>"

section \<open>Validation\<close>

definition Plan_Validate :: "(Plan \<Rightarrow> string) \<Rightarrow> Plan \<Rightarrow> goerror option" where
  "Plan_Validate show_plan sp =
     (if plan_Id sp = [] then Some (Errorf (''Must provide a non-empty ID ('' @ show_plan sp @ '')''))
      else if plan_Name sp = []
      then Some (Errorf (''Must provide a non-empty Name ('' @ show_plan sp @ '')''))
      else if plan_Description sp = []
      then Some (Errorf (''Must provide a non-empty Description ('' @ show_plan sp @ '')''))
      else None)"

definition Service_Validate ::
  "(Service \<Rightarrow> string) \<Rightarrow> (Plan \<Rightarrow> string) \<Rightarrow> Service \<Rightarrow> goerror option" where
  "Service_Validate show_service show_plan s =
     (if service_Id s = []
      then Some (Errorf (''Must provide a non-empty Id ('' @ show_service s @ '')''))
      else if service_Name s = []
      then Some (Errorf (''Must provide a non-empty Name ('' @ show_service s @ '')''))
      else if service_Description s = []
      then Some (Errorf (''Must provide a non-empty Description ('' @ show_service s @ '')''))
      else map_option (\<lambda>e. Errorf (''Validating Plans configuration: '' @ err_text e))
             (first_hit (Plan_Validate show_plan) (service_Plans s)))"

definition Catalog_Validate ::
  "(Service \<Rightarrow> string) \<Rightarrow> (Plan \<Rightarrow> string) \<Rightarrow> nat list \<Rightarrow> Catalog \<Rightarrow> goerror option" where
  "Catalog_Validate show_service show_plan ns c =
     map_option (\<lambda>e. Errorf (''Validating Services configuration: '' @ err_text e))
       (first_hit (\<lambda>(k, s). Service_Validate show_service show_plan s)
          (go_range ns (catalog_Services c)))"

text \<open>What validation is for.\<close>

definition good_plan :: "Plan \<Rightarrow> bool" where
  "good_plan p \<longleftrightarrow> plan_Id p \<noteq> [] \<and> plan_Name p \<noteq> [] \<and> plan_Description p \<noteq> []"

definition good_service :: "Service \<Rightarrow> bool" where
  "good_service s \<longleftrightarrow> service_Id s \<noteq> [] \<and> service_Name s \<noteq> [] \<and> service_Description s \<noteq> []
     \<and> (\<forall>p \<in> set (service_Plans s). good_plan p)"

interpretation plan_check: validator "Plan_Validate show_plan" good_plan for show_plan
  by unfold_locales (auto simp: Plan_Validate_def good_plan_def)

interpretation service_check: validator "Service_Validate show_service show_plan" good_service
  for show_service show_plan
  by unfold_locales (auto simp: Service_Validate_def good_service_def plan_check.check_all)

interpretation entry_check: validator
  "\<lambda>(k, s). Service_Validate show_service show_plan s" "\<lambda>(k, s). good_service s"
  for show_service show_plan
  by unfold_locales (auto simp: service_check.check_none)

section \<open>Reading the catalog directory\<close>

text \<open>
  What \<open>filepath.Walk\<close> visits, in its order: an entry it could not read, a directory, or a
  file with its content or the error of reading it.
\<close>

datatype walk_entry =
    WalkError string string
  | WalkDir string
  | WalkFile string "string + string"

text \<open>\<open>filepath.Ext\<close>: from the last dot of the last path element on.\<close>

definition filepath_Ext :: "string \<Rightarrow> string" where
  "filepath_Ext path =
     (let base = takeWhile (\<lambda>c. c \<noteq> CHR ''/'') (rev path)
      in if CHR ''.'' \<in> set base
         then CHR ''.'' # rev (takeWhile (\<lambda>c. c \<noteq> CHR ''.'') base) else [])"

definition document_separator :: string where
  "document_separator = CHR 0x0A # ''---''"

definition parseServiceDefinition ::
  "(string \<Rightarrow> string + Service) \<Rightarrow> (string \<Rightarrow> string \<Rightarrow> string + template) \<Rightarrow> Catalog
     \<Rightarrow> string \<Rightarrow> string \<Rightarrow> Catalog result" where
  "parseServiceDefinition yaml_service tmpl_parse c input file =
     (let documents = strings_Split input document_separator; n = length documents
      in if n \<noteq> 3
         then Err (Errorf (''service file '' @ file
                @ '': must contain 3 yaml document parts, found '' @ strconv_Itoa (int n)))
         else case yaml_service (documents ! 0) of
           Inl err \<Rightarrow> Err (Errorf (''failed to parse service definition: '' @ file @ '': '' @ err))
         | Inr s \<Rightarrow> (case tmpl_parse ''values'' (documents ! 1) of
             Inl err \<Rightarrow> Err (Errorf (''failed to parse values template: '' @ file @ '': '' @ err))
           | Inr valuesTemplate \<Rightarrow> (case tmpl_parse ''credentials'' (documents ! 2) of
               Inl err \<Rightarrow> Err (Errorf (''failed to parse credentials template: '' @ file @ '': '' @ err))
             | Inr credentialsTemplate \<Rightarrow>
                 Ok (c\<lparr>catalog_Services := gm_set (catalog_Services c) (service_Id s)
                       (s\<lparr>service_valuesTemplate := Some valuesTemplate,
                          service_credentialsTemplate := Some credentialsTemplate\<rparr>)\<rparr>))))"

definition parse_entry ::
  "(string \<Rightarrow> string + Service) \<Rightarrow> (string \<Rightarrow> string \<Rightarrow> string + template) \<Rightarrow> walk_entry
     \<Rightarrow> Catalog \<Rightarrow> Catalog result" where
  "parse_entry yaml_service tmpl_parse entry c =
     (case entry of
        WalkError path err \<Rightarrow> Ok c
      | WalkDir path \<Rightarrow> Ok c
      | WalkFile path content \<Rightarrow>
          let ext = filepath_Ext path
          in if ext \<noteq> ''.yaml'' \<and> ext \<noteq> ''.yml'' then Ok c
             else case content of
               Inl ioErr \<Rightarrow> Err (Errorf ioErr)
             | Inr input \<Rightarrow> parseServiceDefinition yaml_service tmpl_parse c input path)"

definition ParseDir ::
  "(string \<Rightarrow> string + Service) \<Rightarrow> (string \<Rightarrow> string \<Rightarrow> string + template) \<Rightarrow> string
     \<Rightarrow> walk_entry list \<Rightarrow> Catalog result" where
  "ParseDir yaml_service tmpl_parse dir entries =
     rbind (rfold (parse_entry yaml_service tmpl_parse) entries \<lparr>catalog_Services = []\<rparr>)
       (\<lambda>catalog. if length (catalog_Services catalog) = 0
          then Err (Errorf (''no services found in catalog directory: '' @ dir))
          else Ok catalog)"

text \<open>
  A catalog that was read: its keys are distinct and are the ids of its services, and every
  service has both of its templates.
\<close>

definition entry_ok :: "string \<times> Service \<Rightarrow> bool" where
  "entry_ok = (\<lambda>(k, s). service_Id s = k
     \<and> service_valuesTemplate s \<noteq> None \<and> service_credentialsTemplate s \<noteq> None)"

definition catalog_ok :: "Catalog \<Rightarrow> bool" where
  "catalog_ok c \<longleftrightarrow> gm_wf (catalog_Services c) \<and> list_all entry_ok (catalog_Services c)"

lemma parseServiceDefinition_ok:
  "parseServiceDefinition ys tp c input file = Ok c' \<Longrightarrow> catalog_ok c \<Longrightarrow> catalog_ok c'"
  unfolding parseServiceDefinition_def Let_def catalog_ok_def
  by (auto simp: entry_ok_def intro!: gm_set_all split: if_splits sum.splits)

lemma parse_entry_ok: "parse_entry ys tp e c = Ok c' \<Longrightarrow> catalog_ok c \<Longrightarrow> catalog_ok c'"
  by (auto simp: parse_entry_def Let_def intro: parseServiceDefinition_ok
      split: walk_entry.splits if_splits sum.splits)

lemma ParseDir_ok:
  "ParseDir ys tp dir es = Ok c \<Longrightarrow> catalog_ok c \<and> catalog_Services c \<noteq> []"
  by (auto simp: ParseDir_def rbind_Ok_iff split: if_splits
      elim!: rfold_invariant [where I = catalog_ok] intro: parse_entry_ok)
     (simp_all add: catalog_ok_def)

text \<open>
  The method \<open>Parse\<close> decodes a text into the catalog; when the decoder fails, \<open>log.Fatalf\<close> ends
  the process with its text. The decoder leaves the parts of the catalog alone that the text
  does not name.
\<close>

definition Catalog_Parse ::
  "(string \<Rightarrow> Catalog \<Rightarrow> string + Catalog) \<Rightarrow> string \<Rightarrow> Catalog \<Rightarrow> string + Catalog" where
  "Catalog_Parse yaml_Unmarshal rawData c =
     (case yaml_Unmarshal rawData c of
        Inl err \<Rightarrow> Inl (''Catalog.Unmarshal: '' @ err)
      | Inr c \<Rightarrow> Inr c)"

text \<open>
  The functions of a template: those of the sprig package, and two for names and passwords,
  which are a random UUID without its dashes.
\<close>

datatype 'f template_function = SprigFunction 'f | RandomUuid

definition templateFuncMap ::
  "(string, 'f template_function) gomap \<Rightarrow> (string, 'f template_function) gomap" where
  "templateFuncMap sprig =
     gm_set (gm_set sprig ''generateUsername'' RandomUuid) ''generatePassword'' RandomUuid"

definition randomUuid :: "string \<Rightarrow> string" where
  "randomUuid uuid = strings_ReplaceAll uuid ''-'' []"

lemma templateFuncMap_lookup:
  "map_of (templateFuncMap sprig) = (map_of sprig)
     (''generateUsername'' \<mapsto> RandomUuid, ''generatePassword'' \<mapsto> RandomUuid)"
  by (simp add: templateFuncMap_def go_map)

text \<open>A generated name has 32 characters: the hexadecimal digits of the UUID, and no dash.\<close>

lemma randomUuid_shape:
  assumes "uuid = a @ ''-'' @ b @ ''-'' @ c @ ''-'' @ d @ ''-'' @ e"
    and "length a = 8" "length b = 4" "length c = 4" "length d = 4" "length e = 12"
    and "CHR ''-'' \<notin> set (a @ b @ c @ d @ e)"
  shows "randomUuid uuid = a @ b @ c @ d @ e \<and> length (randomUuid uuid) = 32"
proof -
  have "filter (\<lambda>x. x \<noteq> CHR ''-'') p = p" if "CHR ''-'' \<notin> set p" for p
    using that by (simp add: filter_id_conv) metis
  then show ?thesis using assms by (simp add: randomUuid_def ReplaceAll_remove)
qed

section \<open>Lookups\<close>

definition service_hit :: "string \<Rightarrow> string \<times> Service \<Rightarrow> Service option" where
  "service_hit service = (\<lambda>(k, s).
     if strings_EqualFold (service_Id s) service then Some s else None)"

definition find_service :: "nat list \<Rightarrow> string \<Rightarrow> (string, Service) gomap \<Rightarrow> Service option" where
  "find_service ns service services = first_hit (service_hit service) (go_range ns services)"

text \<open>The code returns a nil error in every case, and the zero service when there is none.\<close>

definition GetService :: "nat list \<Rightarrow> Catalog \<Rightarrow> string \<Rightarrow> Service" where
  "GetService ns c service =
     (case find_service ns service (catalog_Services c) of Some s \<Rightarrow> s | None \<Rightarrow> zero_Service)"

definition plan_hit :: "string \<Rightarrow> Plan \<Rightarrow> Plan option" where
  "plan_hit plan p = (if strings_EqualFold (plan_Id p) plan then Some p else None)"

definition service_plan_hit :: "string \<times> string \<Rightarrow> string \<times> Service \<Rightarrow> Plan option" where
  "service_plan_hit = (\<lambda>(service, plan) (k, s).
     if strings_EqualFold (service_Id s) service
     then first_hit (plan_hit plan) (service_Plans s) else None)"

definition find_plan ::
  "nat list \<Rightarrow> string \<times> string \<Rightarrow> (string, Service) gomap \<Rightarrow> Plan option" where
  "find_plan ns q services = first_hit (service_plan_hit q) (go_range ns services)"

definition GetServicePlan :: "nat list \<Rightarrow> Catalog \<Rightarrow> string \<Rightarrow> string \<Rightarrow> Plan" where
  "GetServicePlan ns c service plan =
     (case find_plan ns (service, plan) (catalog_Services c) of Some p \<Rightarrow> p | None \<Rightarrow> zero_Plan)"

interpretation service_search: map_search service_hit find_service
  by unfold_locales (simp add: find_service_def)

interpretation plan_search: map_search service_plan_hit find_plan
  by unfold_locales (simp add: find_plan_def)

text \<open>No two services have ids that differ only in case.\<close>

definition ids_distinct :: "Catalog \<Rightarrow> bool" where
  "ids_distinct c \<longleftrightarrow> (\<forall>k s k' s'. (k, s) \<in> set (catalog_Services c) \<longrightarrow>
     (k', s') \<in> set (catalog_Services c) \<longrightarrow>
     strings_EqualFold (service_Id s) (service_Id s') \<longrightarrow> s = s')"

lemma service_hit_Some [simp]:
  "service_hit q (k, s) = Some r \<longleftrightarrow> strings_EqualFold (service_Id s) q \<and> r = s"
  by (auto simp: service_hit_def)

lemma ids_distinctD:
  "ids_distinct c \<Longrightarrow> (k, s) \<in> set (catalog_Services c) \<Longrightarrow>
     (k', s') \<in> set (catalog_Services c) \<Longrightarrow>
     strings_EqualFold (service_Id s) q \<Longrightarrow> strings_EqualFold (service_Id s') q \<Longrightarrow> s = s'"
  unfolding ids_distinct_def strings_EqualFold_def by metis

lemma service_hit_SomeE:
  assumes "service_hit q x = Some r"
  obtains k where "x = (k, r)" "strings_EqualFold (service_Id r) q"
  using assms by (cases x) (auto simp: service_hit_def split: if_splits)

lemma service_plan_hit_SomeE:
  assumes "service_plan_hit (q, p) x = Some r"
  obtains k s where "x = (k, s)" "strings_EqualFold (service_Id s) q"
    "first_hit (plan_hit p) (service_Plans s) = Some r"
  using assms by (cases x) (auto simp: service_plan_hit_def split: if_splits)

lemma find_service_order_free:
  assumes "ids_distinct c"
  shows "find_service ns q (catalog_Services c) = find_service ns' q (catalog_Services c)"
  by (rule service_search.search_order_free) (metis service_hit_SomeE ids_distinctD [OF assms], simp)

lemma find_plan_order_free:
  assumes "ids_distinct c"
  shows "find_plan ns (q, p) (catalog_Services c) = find_plan ns' (q, p) (catalog_Services c)"
proof (rule plan_search.search_order_free)
  fix x y a b
  assume x: "x \<in> set (catalog_Services c)" and y: "y \<in> set (catalog_Services c)"
    and a: "service_plan_hit (q, p) x = Some a" and b: "service_plan_hit (q, p) y = Some b"
  from a obtain k s where s: "x = (k, s)" "strings_EqualFold (service_Id s) q"
    "first_hit (plan_hit p) (service_Plans s) = Some a" by (rule service_plan_hit_SomeE)
  from b obtain k' s' where s': "y = (k', s')" "strings_EqualFold (service_Id s') q"
    "first_hit (plan_hit p) (service_Plans s') = Some b" by (rule service_plan_hit_SomeE)
  from s s' x y have "s = s'" by (metis ids_distinctD [OF assms])
  with s s' show "a = b" by simp
qed simp

lemma GetServicePlan_first:
  assumes "ids_distinct c" and "(k, s) \<in> set (catalog_Services c)"
    and "strings_EqualFold (service_Id s) q"
  shows "GetServicePlan ns c q p =
    (case filter (\<lambda>pl. strings_EqualFold (plan_Id pl) p) (service_Plans s) of
       [] \<Rightarrow> zero_Plan | pl # _ \<Rightarrow> pl)"
proof -
  have hits: "first_hit (plan_hit p) ps = (case filter (\<lambda>pl. strings_EqualFold (plan_Id pl) p) ps of
      [] \<Rightarrow> None | pl # _ \<Rightarrow> Some pl)" for ps
    by (induction ps) (auto simp: plan_hit_def)
  have own: "service_plan_hit (q, p) (k, s) = first_hit (plan_hit p) (service_Plans s)"
    using assms(3) by (simp add: service_plan_hit_def)
  have "find_plan ns (q, p) (catalog_Services c) = first_hit (plan_hit p) (service_Plans s)"
  proof (cases "first_hit (plan_hit p) (service_Plans s)")
    case (Some pl)
    with own obtain ns' where "find_plan ns' (q, p) (catalog_Services c) = Some pl"
      using plan_search.search_any_hit [OF assms(2)] by metis
    with Some find_plan_order_free [OF assms(1)] show ?thesis by metis
  next
    case None
    have "service_plan_hit (q, p) e = None" if e: "e \<in> set (catalog_Services c)" for e
    proof (cases "service_plan_hit (q, p) e")
      case (Some pl)
      then obtain k' s' where "e = (k', s')" "strings_EqualFold (service_Id s') q"
        "first_hit (plan_hit p) (service_Plans s') = Some pl" by (rule service_plan_hit_SomeE)
      with e None assms have False by (metis ids_distinctD option.distinct(1))
      then show ?thesis ..
    qed
    with None show ?thesis by (simp add: plan_search.search_complete)
  qed
  then show ?thesis by (simp add: GetServicePlan_def hits split: list.splits)
qed

section \<open>The values of a chart\<close>

text \<open>
  The values template is run on the service and the plan, its output is decoded, and the
  values of the plan are stored over it. A service that was never read has no template: the
  call on the nil pointer panics.
\<close>

definition or_made :: "('k, 'v) gomap option \<Rightarrow> ('k, 'v) gomap" where
  "or_made v = (case v of None \<Rightarrow> [] | Some m \<Rightarrow> m)"

definition ChartValues ::
  "(template \<Rightarrow> Service \<Rightarrow> Plan \<Rightarrow> string + string)
     \<Rightarrow> (string \<Rightarrow> string + (string, string) gomap option) \<Rightarrow> nat list \<Rightarrow> Service \<Rightarrow> Plan
     \<Rightarrow> (string, string) gomap result" where
  "ChartValues execute yaml_values ns s p =
     (case service_valuesTemplate s of
        None \<Rightarrow> Panic NilDereference
      | Some t \<Rightarrow> rbind (of_sum (execute t s p)) (\<lambda>b.
          rbind (of_sum (yaml_values b)) (\<lambda>v.
          Ok (gm_copy ns (plan_ChartValues p) (or_made v)))))"

lemma ChartValues_Ok:
  assumes "ChartValues ex yv ns s p = Ok m" and "gm_wf (plan_ChartValues p)"
  obtains t b v where "service_valuesTemplate s = Some t" "ex t s p = Inr b" "yv b = Inr v"
    "map_of m = map_of (or_made v) ++ map_of (plan_ChartValues p)"
  using assms by (auto simp: ChartValues_def go_ok split: option.splits)

lemma ChartValues_Panic_iff:
  "ChartValues ex yv ns s p = Panic q \<longleftrightarrow> service_valuesTemplate s = None \<and> q = NilDereference"
  by (auto simp: ChartValues_def go_ok split: option.splits)

section \<open>Properties\<close>

text \<open>
  C32: Validation accepts a catalog exactly when every service and every plan in it has an id,
  a name and a description, in whatever order the services are visited; and the error of a
  rejected catalog is that of a service which is at fault.
\<close>

theorem catalog_valid_iff:
  "(Catalog_Validate show_service show_plan ns c = None \<longleftrightarrow>
     (\<forall>(k, s) \<in> set (catalog_Services c). good_service s)) \<and>
   (\<forall>e. Catalog_Validate show_service show_plan ns c = Some e \<longrightarrow>
     (\<exists>(k, s) \<in> set (catalog_Services c). \<not> good_service s \<and> (\<exists>e'.
        Service_Validate show_service show_plan s = Some e' \<and>
        e = Errorf (''Validating Services configuration: '' @ err_text e'))))"
proof (intro conjI allI impI)
  show "Catalog_Validate show_service show_plan ns c = None \<longleftrightarrow>
     (\<forall>(k, s) \<in> set (catalog_Services c). good_service s)"
    by (simp add: Catalog_Validate_def entry_check.check_all)
next
  fix e
  assume "Catalog_Validate show_service show_plan ns c = Some e"
  then obtain e' where "first_hit (\<lambda>(k, s). Service_Validate show_service show_plan s)
      (go_range ns (catalog_Services c)) = Some e'"
    "e = Errorf (''Validating Services configuration: '' @ err_text e')"
    by (auto simp: Catalog_Validate_def)
  with entry_check.check_all_culprit [OF this(1)]
  show "\<exists>(k, s) \<in> set (catalog_Services c). \<not> good_service s \<and> (\<exists>e'.
        Service_Validate show_service show_plan s = Some e' \<and>
        e = Errorf (''Validating Services configuration: '' @ err_text e'))"
    by fastforce
qed

definition example_plan :: Plan where
  "example_plan = zero_Plan\<lparr>plan_Id := ''p1'', plan_Name := ''small'', plan_Description := ''a plan'',
     plan_ChartValues := [(''size'', ''1'')]\<rparr>"

definition example_catalog_service :: Service where
  "example_catalog_service = zero_Service\<lparr>service_Id := ''s1'', service_Name := ''db'',
     service_Description := ''a service'', service_Chart := ''stable/db'', service_Plans := [example_plan],
     service_valuesTemplate := Some (Template ''values'' []),
     service_credentialsTemplate := Some (Template ''credentials'' [])\<rparr>"

definition example_catalog :: Catalog where
  "example_catalog = \<lparr>catalog_Services = [(''s1'', example_catalog_service)]\<rparr>"

theorem catalog_valid_iff_witness:
  "Catalog_Validate (\<lambda>_. []) (\<lambda>_. []) [] example_catalog = None \<and>
   Catalog_Validate (\<lambda>_. []) (\<lambda>_. []) [] \<lparr>catalog_Services = [(''s'', zero_Service)]\<rparr> \<noteq> None"
  using catalog_valid_iff [of "\<lambda>_. []" "\<lambda>_. []" "[]" example_catalog]
    catalog_valid_iff [of "\<lambda>_. []" "\<lambda>_. []" "[]" "\<lparr>catalog_Services = [(''s'', zero_Service)]\<rparr>"]
  by (simp add: example_catalog_def example_catalog_service_def example_plan_def good_service_def
      good_plan_def zero_Service_def zero_Plan_def)

text \<open>
  C33: A catalog that was read from a directory holds at least one service; its keys are
  distinct and each is the id of its service; and every service has the templates parsed from
  the second and the third document of its file, so that no template in it is nil.
\<close>

theorem catalog_read_ok:
  assumes "ParseDir yaml_service tmpl_parse dir entries = Ok c"
  shows "catalog_Services c \<noteq> [] \<and> distinct (map fst (catalog_Services c)) \<and>
    (\<forall>(k, s) \<in> set (catalog_Services c). service_Id s = k
       \<and> service_valuesTemplate s \<noteq> None \<and> service_credentialsTemplate s \<noteq> None)"
  using ParseDir_ok [OF assms]
  by (auto simp: catalog_ok_def gm_wf_def list_all_iff entry_ok_def)

definition example_file :: string where
  "example_file = ''a'' @ document_separator @ ''b'' @ document_separator @ ''c''"

lemma example_read:
  "ParseDir (\<lambda>_. Inr example_catalog_service) (\<lambda>n t. Inr (Template n t)) ''d''
     [WalkDir ''d'', WalkFile ''d/notes.txt'' (Inl ''x''), WalkFile ''d/s.yaml'' (Inr example_file)]
   = Ok \<lparr>catalog_Services = [(''s1'', example_catalog_service\<lparr>
       service_valuesTemplate := Some (Template ''values'' ''b''),
       service_credentialsTemplate := Some (Template ''credentials'' ''c'')\<rparr>)]\<rparr>"
  by (simp add: ParseDir_def parse_entry_def filepath_Ext_def Let_def parseServiceDefinition_def
      example_file_def document_separator_def strings_Split.simps strings_HasPrefix_def gm_set_def
      example_catalog_service_def zero_Service_def)

theorem catalog_read_ok_witness:
  "\<exists>c. ParseDir (\<lambda>_. Inr example_catalog_service) (\<lambda>n t. Inr (Template n t)) ''d''
       [WalkDir ''d'', WalkFile ''d/notes.txt'' (Inl ''x''), WalkFile ''d/s.yaml'' (Inr example_file)] = Ok c
     \<and> catalog_Services c \<noteq> [] \<and> distinct (map fst (catalog_Services c))"
  using example_read catalog_read_ok [OF example_read] by blast

text \<open>
  Looking up a service by id, ignoring case: a service that is found is one of the catalog
  with that id; the zero service is returned exactly when there is none; and where no two ids
  differ only in case the order of the catalog does not matter.
\<close>

theorem service_lookup:
  "(\<exists>(k, s) \<in> set (catalog_Services c). strings_EqualFold (service_Id s) q \<and> GetService ns c q = s) \<or>
   (\<forall>(k, s) \<in> set (catalog_Services c). \<not> strings_EqualFold (service_Id s) q)
     \<and> GetService ns c q = zero_Service"
proof (cases "find_service ns q (catalog_Services c)")
  case None
  then have "\<forall>e \<in> set (catalog_Services c). service_hit q e = None"
    by (simp add: service_search.search_complete)
  with None show ?thesis by (auto simp: GetService_def service_hit_def split: if_splits)
next
  case (Some s)
  then obtain e where "e \<in> set (catalog_Services c)" "service_hit q e = Some s"
    using service_search.search_sound by blast
  with Some show ?thesis by (auto simp: GetService_def elim!: service_hit_SomeE)
qed

theorem service_lookup_witness:
  "GetService [2] example_catalog ''S1'' = example_catalog_service \<and>
   GetService [2] example_catalog ''s2'' = zero_Service"
  using service_lookup [of example_catalog "''S1''" "[2]"] service_lookup [of example_catalog "''s2''" "[2]"]
  by (simp add: example_catalog_def example_catalog_service_def strings_EqualFold_def
      strings_ToLower_def ascii_eval)

text \<open>
  C34: Looking up a plan of a service: in a catalog in which no two service ids differ only in
  case, the result does not depend on the order of the catalog and is the first plan with that
  id of the service with that id; there is no error when the plan or the service is unknown, but
  the zero plan.
\<close>

theorem plan_lookup:
  assumes "ids_distinct c" and "(k, s) \<in> set (catalog_Services c)"
    and "strings_EqualFold (service_Id s) q"
  shows "GetServicePlan ns c q p =
    (case filter (\<lambda>pl. strings_EqualFold (plan_Id pl) p) (service_Plans s) of
       [] \<Rightarrow> zero_Plan | pl # _ \<Rightarrow> pl)"
  using assms by (rule GetServicePlan_first)

theorem plan_lookup_witness:
  "GetServicePlan [3] example_catalog ''S1'' ''P1'' = example_plan \<and>
   GetServicePlan [3] example_catalog ''s1'' ''p2'' = zero_Plan"
proof -
  have distinct: "ids_distinct example_catalog"
    by (simp add: ids_distinct_def example_catalog_def)
  have s: "(''s1'', example_catalog_service) \<in> set (catalog_Services example_catalog)"
    by (simp add: example_catalog_def)
  have ids: "strings_EqualFold (service_Id example_catalog_service) ''S1''"
    "strings_EqualFold (service_Id example_catalog_service) ''s1''"
    "strings_EqualFold ''p1'' ''P1''" "\<not> strings_EqualFold ''p1'' ''p2''"
    by (simp_all add: example_catalog_service_def strings_EqualFold_def strings_ToLower_def ascii_eval)
  have plans: "service_Plans example_catalog_service = [example_plan]" "plan_Id example_plan = ''p1''"
    by (simp_all add: example_catalog_service_def example_plan_def)
  show ?thesis
    using plan_lookup [OF distinct s ids(1), of "[3]" "''P1''"] plan_lookup [OF distinct s ids(2), of "[3]" "''p2''"]
    by (simp add: plans ids)
qed

end
