(* ===== verification/Go_Time.thy ===== *)
theory Go_Time
  imports Go_Strings
begin

text \<open>
  \<open>time.ParseDuration\<close>, which the status parser applies to the environment variable TIMEOUT.
  Durations and instants are nanoseconds. The fraction of a unit is computed by Go in
  \<open>float64\<close>; that product is the argument \<open>frac\<close> (digits after the point, their number,
  the unit), so nothing is assumed of its rounding.
\<close>

definition is_digit :: "char \<Rightarrow> bool" where
  "is_digit c \<longleftrightarrow> digit_val c \<noteq> None"

definition unitMap :: "(string, nat) gomap" where
  "unitMap = [(''ns'', 1), (''us'', 1000),
     ([CHR 0xC2, CHR 0xB5, CHR ''s''], 1000), ([CHR 0xCE, CHR 0xBC, CHR ''s''], 1000),
     (''ms'', 1000000), (''s'', 1000000000), (''m'', 60000000000), (''h'', 3600000000000)]"

definition int64_max :: nat where "int64_max = 2 ^ 63 - 1"

definition leadingInt :: "string \<Rightarrow> nat option \<times> string" where
  "leadingInt s =
     (let v = the (digits_val 0 (takeWhile is_digit s))
      in (if v \<le> int64_max then Some v else None, dropWhile is_digit s))"

text \<open>The digits after the point: digits that no longer fit are read and ignored.\<close>

fun fraction :: "nat \<Rightarrow> nat \<Rightarrow> string \<Rightarrow> nat \<times> nat" where
  "fraction x k [] = (x, k)"
| "fraction x k (c # cs) =
     (case digit_val c of
        None \<Rightarrow> (x, k)
      | Some d \<Rightarrow> if 10 * x + d \<le> int64_max then fraction (10 * x + d) (Suc k) cs else (x, k))"

text \<open>One element of the sum: number, unit, and the rest of the text.\<close>

definition duration_term ::
  "(nat \<Rightarrow> nat \<Rightarrow> nat \<Rightarrow> nat) \<Rightarrow> string \<Rightarrow> (nat \<times> string) option" where
  "duration_term frac s =
     (let (v, r) = leadingInt s;
          pre = (r \<noteq> s);
          point = (r \<noteq> [] \<and> hd r = CHR ''.'');
          fs = (if point then tl r else r);
          (f, k) = (if point then fraction 0 0 fs else (0, 0));
          r' = (if point then dropWhile is_digit fs else r);
          post = (point \<and> r' \<noteq> fs);
          u = takeWhile (\<lambda>c. c \<noteq> CHR ''.'' \<and> \<not> is_digit c) r';
          r'' = dropWhile (\<lambda>c. c \<noteq> CHR ''.'' \<and> \<not> is_digit c) r'
      in case v of
           None \<Rightarrow> None
         | Some v \<Rightarrow>
             if \<not> pre \<and> \<not> post \<or> u = [] then None
             else case map_of unitMap u of
               None \<Rightarrow> None
             | Some unit \<Rightarrow>
                 if v > int64_max div unit then None
                 else let t = v * unit + (if f > 0 then frac f k unit else 0)
                      in if t > int64_max then None else Some (t, r''))"

lemma leadingInt_length: "length (snd (leadingInt s)) \<le> length s"
  by (simp add: leadingInt_def Let_def length_dropWhile_le)

abbreviation unit_char :: "char \<Rightarrow> bool" where
  "unit_char c \<equiv> c \<noteq> CHR ''.'' \<and> \<not> is_digit c"

lemma duration_term_shorter:
  assumes "duration_term frac s = Some (t, r)"
  shows "length r < length s"
proof -
  define q where "q = snd (leadingInt s)"
  define q' where "q' = (if q \<noteq> [] \<and> hd q = CHR ''.'' then dropWhile is_digit (tl q) else q)"
  have "length q \<le> length s" by (simp add: q_def leadingInt_length)
  then have le: "length q' \<le> length s"
    using length_dropWhile_le [of is_digit "tl q"] by (auto simp: q'_def)
  from assms have u: "takeWhile unit_char q' \<noteq> []" and r: "r = dropWhile unit_char q'"
    by (auto simp: duration_term_def Let_def q_def q'_def split: prod.splits option.splits if_splits)
  have "length (takeWhile unit_char q') + length r = length q'"
    unfolding r by (metis length_append takeWhile_dropWhile_id)
  with u have "length r < length q'" by (metis add_gr_0 length_greater_0_conv less_add_same_cancel2)
  with le show ?thesis by simp
qed

function duration_sum ::
  "(nat \<Rightarrow> nat \<Rightarrow> nat \<Rightarrow> nat) \<Rightarrow> nat \<Rightarrow> string \<Rightarrow> nat option" where
  "duration_sum frac d s =
     (if s = [] then Some d
      else if \<not> (hd s = CHR ''.'' \<or> is_digit (hd s)) then None
      else case duration_term frac s of
        None \<Rightarrow> None
      | Some (t, r) \<Rightarrow> if d + t > int64_max then None else duration_sum frac (d + t) r)"
  by pat_completeness auto
termination
  by (relation "measure (\<lambda>(frac, d, s). length s)") (auto dest: duration_term_shorter)

declare duration_sum.simps [simp del]

definition ParseDuration ::
  "(nat \<Rightarrow> nat \<Rightarrow> nat \<Rightarrow> nat) \<Rightarrow> string \<Rightarrow> int option" where
  "ParseDuration frac s =
     (let neg = (s \<noteq> [] \<and> hd s = CHR ''-'');
          r = (if s \<noteq> [] \<and> (hd s = CHR ''-'' \<or> hd s = CHR ''+'') then tl s else s)
      in if r = ''0'' then Some 0
         else if r = [] then None
         else map_option (\<lambda>d. if neg then - int d else int d) (duration_sum frac 0 r))"

lemma duration_sum_bound: "duration_sum frac d s = Some e \<Longrightarrow> d \<le> int64_max \<Longrightarrow> e \<le> int64_max"
proof (induction frac d s rule: duration_sum.induct)
  case (1 frac d s)
  from "1.prems"(1) have "s = [] \<and> d = e \<or> s \<noteq> [] \<and> (hd s = CHR ''.'' \<or> is_digit (hd s)) \<and>
      (\<exists>t r. duration_term frac s = Some (t, r) \<and> d + t \<le> int64_max
        \<and> duration_sum frac (d + t) r = Some e)"
    by (subst (asm) duration_sum.simps) (auto split: if_splits option.splits)
  with "1.prems"(2) "1.IH" show ?case by auto
qed

lemma ParseDuration_fits: "ParseDuration frac s = Some i \<Longrightarrow> fits_int i"
  by (auto simp: ParseDuration_def Let_def fits_int_def int_min_def int_max_def int64_max_def
      split: if_splits dest!: duration_sum_bound)

text \<open>What evaluates a duration written as a literal.\<close>

lemmas duration_eval = is_digit_def digit_val_def Let_def int64_max_def unitMap_def
  leadingInt_def duration_term_def duration_sum.simps ParseDuration_def

lemma ParseDuration_30m: "ParseDuration frac ''30m'' = Some 1800000000000"
  by (simp add: duration_eval)

end
