(* ===== verification/Helm_Status.thy ===== *)
theory Helm_Status
  imports Go_Time
begin

text \<open>
  Package \<open>helm\<close>, file \<open>status.go\<close>: the parser that turns the resource tables of a
  Helm release into counts of nodes, services and ingresses, and the flags of a release. The
  loop over the lines is \<open>rfold parse_line\<close>; its state is the record \<open>scan_state\<close>, with
  the twelve column variables of the code, and the three parts of its body are \<open>step_nodes\<close>,
  \<open>step_ingresses\<close> and \<open>step_services\<close>. A slice or an index out of range is the panic the
  code would run into.
\<close>

section \<open>Data\<close>

record StatusService =
  svc_Name :: string
  svc_ServiceType :: string
  svc_NodePorts :: "(int, int) gomap"
  svc_ClusterPorts :: "(int, int) gomap"
  svc_ExternalIP :: string

record StatusIngress =
  ing_Name :: string
  ing_IngressHosts :: "string list"
  ing_IngressPort :: int

record Status =
  st_Name :: string
  st_Namespace :: string
  st_IsFailed :: bool
  st_IsDeployed :: bool
  st_IsDeleted :: bool
  st_IsDeleting :: bool
  st_DesiredNodes :: int
  st_AvailableNodes :: int
  st_Services :: "StatusService list"
  st_Ingresses :: "StatusIngress list"

text \<open>The zero values of Go.\<close>

definition zero_service :: StatusService where
  "zero_service = \<lparr>svc_Name = [], svc_ServiceType = [], svc_NodePorts = [],
     svc_ClusterPorts = [], svc_ExternalIP = []\<rparr>"

definition zero_status :: Status where
  "zero_status = \<lparr>st_Name = [], st_Namespace = [], st_IsFailed = False, st_IsDeployed = False,
     st_IsDeleted = False, st_IsDeleting = False, st_DesiredNodes = 0, st_AvailableNodes = 0,
     st_Services = [], st_Ingresses = []\<rparr>"

text \<open>The labels that mark the columns.\<close>

definition ResourcePrefix :: string where "ResourcePrefix = ''==> ''"
definition DesiredLabel :: string where "DesiredLabel = ''DESIRED''"
definition CurrentLabel :: string where "CurrentLabel = ''CURRENT''"
definition AvailableLabel :: string where "AvailableLabel = ''AVAILABLE''"
definition PortsLabel :: string where "PortsLabel = ''PORT(S)''"
definition TypeLabel :: string where "TypeLabel = ''TYPE''"
definition ExternalIPLabel :: string where "ExternalIPLabel = ''EXTERNAL-IP''"
definition IngressHostsLabel :: string where "IngressHostsLabel = ''HOSTS''"
definition IngressPortsLabel :: string where "IngressPortsLabel = ''PORTS''"
definition NameLabel :: string where "NameLabel = ''NAME''"
definition ClusterIPLabel :: string where "ClusterIPLabel = ''CLUSTER-IP''"
definition AgeLabel :: string where "AgeLabel = ''AGE''"
definition AddressLable :: string where "AddressLable = ''ADDRESS''"

lemmas label_defs = ResourcePrefix_def DesiredLabel_def CurrentLabel_def AvailableLabel_def
  PortsLabel_def TypeLabel_def ExternalIPLabel_def IngressHostsLabel_def IngressPortsLabel_def
  NameLabel_def ClusterIPLabel_def AgeLabel_def AddressLable_def

record scan_state =
  columnDesired :: int
  columnCurrent :: int
  columnAvailable :: int
  columnPort :: int
  columnType :: int
  columnIngressHosts :: int
  columnIngressPorts :: int
  columnExternalIP :: int
  columnName :: int
  columnClusterIP :: int
  columnAge :: int
  columnAddress :: int
  lastResource :: string
  status :: Status

definition init_scan :: scan_state where
  "init_scan = \<lparr>columnDesired = -1, columnCurrent = -1, columnAvailable = -1, columnPort = -1,
     columnType = -1, columnIngressHosts = -1, columnIngressPorts = -1, columnExternalIP = -1,
     columnName = -1, columnClusterIP = -1, columnAge = -1, columnAddress = -1,
     lastResource = [], status = zero_status\<rparr>"

section \<open>One line\<close>

text \<open>An empty line ends a table: every column is unknown again.\<close>

definition step_blank :: "string \<Rightarrow> scan_state \<Rightarrow> scan_state" where
  "step_blank line s =
     (if length line = 0
      then s\<lparr>lastResource := [], columnDesired := -1, columnCurrent := -1, columnAvailable := -1,
             columnPort := -1, columnType := -1, columnIngressHosts := -1,
             columnIngressPorts := -1, columnExternalIP := -1, columnName := -1,
             columnClusterIP := -1, columnAge := -1, columnAddress := -1\<rparr>
      else s)"

definition step_resource :: "string \<Rightarrow> scan_state \<Rightarrow> scan_state" where
  "step_resource line s =
     (if strings_HasPrefix line ResourcePrefix
      then s\<lparr>lastResource := strings_TrimPrefix line ResourcePrefix\<rparr> else s)"

text \<open>The expression \<open>strings.Fields(line[column:])[0]\<close>.\<close>

definition field_at :: "string \<Rightarrow> int \<Rightarrow> string result" where
  "field_at line column = rbind (slice_from line column) (\<lambda>t. index_at (strings_Fields t) 0)"

definition int_or :: "int \<Rightarrow> string \<Rightarrow> int" where
  "int_or d s = (case strconv_Atoi s of Some n \<Rightarrow> n | None \<Rightarrow> d)"

definition add_nodes :: "int \<Rightarrow> int \<Rightarrow> Status \<Rightarrow> Status" where
  "add_nodes d a st = st\<lparr>st_DesiredNodes := int_add (st_DesiredNodes st) d,
     st_AvailableNodes := int_add (st_AvailableNodes st) a\<rparr>"

definition step_nodes :: "string \<Rightarrow> scan_state \<Rightarrow> scan_state result" where
  "step_nodes line s =
     (let indexDesired = strings_Index line DesiredLabel;
          indexCurrent = strings_Index line CurrentLabel;
          indexAvailable = strings_Index line AvailableLabel
      in if indexDesired \<ge> 0 \<and> indexCurrent \<ge> 0
         then Ok (s\<lparr>columnDesired := indexDesired, columnCurrent := indexCurrent,
                    columnAvailable := (if indexAvailable \<ge> 0 then indexAvailable
                                        else columnAvailable s)\<rparr>)
         else if columnDesired s \<ge> 0 \<and> columnCurrent s \<ge> 0
         then rbind (field_at line (columnDesired s)) (\<lambda>desired.
              rbind (field_at line (columnCurrent s)) (\<lambda>current.
              rbind (if columnAvailable s \<ge> 0
                     then rbind (field_at line (columnAvailable s))
                            (\<lambda>available. Ok (int_or (int_or 0 current) available))
                     else Ok (int_or 0 current)) (\<lambda>nodesAvailable.
              Ok (s\<lparr>status := add_nodes (int_or 0 desired) nodesAvailable (status s)\<rparr>))))
         else Ok s)"

definition step_ingresses :: "string \<Rightarrow> scan_state \<Rightarrow> scan_state result" where
  "step_ingresses line s =
     (let indexIngressHosts = strings_Index line IngressHostsLabel;
          indexIngressPorts = strings_Index line IngressPortsLabel;
          indexName = strings_Index line NameLabel;
          indexAddress = strings_Index line AddressLable;
          indexAge = strings_Index line AgeLabel
      in if indexIngressHosts \<ge> 0 \<and> indexIngressPorts \<ge> 0 \<and> indexName \<ge> 0
            \<and> indexAddress \<ge> 0 \<and> indexAge \<ge> 0
         then Ok (s\<lparr>columnIngressHosts := indexIngressHosts,
                    columnIngressPorts := indexIngressPorts, columnName := indexName,
                    columnAddress := indexAddress, columnAge := indexAge\<rparr>)
         else if columnIngressHosts s \<ge> 0 \<and> columnIngressPorts s \<ge> 0 \<and> columnName s \<ge> 0
            \<and> columnAddress s \<ge> 0 \<and> columnAge s \<ge> 0
         then rbind (field_at line (columnIngressHosts s)) (\<lambda>ingressesHosts.
              rbind (field_at line (columnAddress s)) (\<lambda>ingressesPorts.
              rbind (field_at line (columnName s)) (\<lambda>ingressesName.
              rbind (index_at (strings_Split ingressesPorts '','') 0) (\<lambda>firstPort.
              Ok (s\<lparr>status := (status s)\<lparr>st_Ingresses := st_Ingresses (status s) @
                    [\<lparr>ing_Name = ingressesName,
                      ing_IngressHosts = strings_Split ingressesHosts '','',
                      ing_IngressPort = int_or 0 firstPort\<rparr>]\<rparr>\<rparr>)))))
         else Ok s)"

text \<open>
  A port of a service is \<open>cluster/protocol\<close> or \<open>cluster:node/protocol\<close>; the ports
  read so far are the pair of the cluster ports and the node ports.
\<close>

definition is_port_separator :: "char \<Rightarrow> bool" where
  "is_port_separator c \<longleftrightarrow> c = CHR '':'' \<or> c = CHR ''/''"

definition add_port_pair ::
  "(int, int) gomap \<times> (int, int) gomap \<Rightarrow> string \<Rightarrow> (int, int) gomap \<times> (int, int) gomap" where
  "add_port_pair ports portPair =
     (let (clusterPorts, nodePorts) = ports;
          portFields = strings_FieldsFunc is_port_separator portPair
      in if length portFields = 2
         then (case strconv_Atoi (portFields ! 0) of
                 Some clusterPort \<Rightarrow> (gm_set clusterPorts clusterPort clusterPort, nodePorts)
               | None \<Rightarrow> (clusterPorts, nodePorts))
         else if length portFields = 3
         then (case (strconv_Atoi (portFields ! 1), strconv_Atoi (portFields ! 0)) of
                 (Some nodePort, Some clusterPort) \<Rightarrow>
                   (gm_set clusterPorts clusterPort clusterPort,
                    gm_set nodePorts clusterPort nodePort)
               | _ \<Rightarrow> (clusterPorts, nodePorts))
         else (clusterPorts, nodePorts))"

definition parse_ports :: "string \<Rightarrow> (int, int) gomap \<times> (int, int) gomap" where
  "parse_ports s = foldl add_port_pair ([], []) (strings_Split s '','')"

definition add_service ::
  "string list \<Rightarrow> string list \<Rightarrow> string list \<Rightarrow> string list \<Rightarrow> nat \<Rightarrow> scan_state
     \<Rightarrow> scan_state result" where
  "add_service servicesName servicesType servicesExternalIP servicesPort i s =
     rbind (index_at servicesPort i) (\<lambda>port.
     rbind (index_at servicesName i) (\<lambda>name.
     rbind (index_at servicesType i) (\<lambda>typ.
     rbind (index_at servicesExternalIP i) (\<lambda>externalIP.
     Ok (s\<lparr>status := (status s)\<lparr>st_Services := st_Services (status s) @
           [\<lparr>svc_Name = name, svc_ServiceType = typ, svc_NodePorts = snd (parse_ports port),
             svc_ClusterPorts = fst (parse_ports port), svc_ExternalIP = externalIP\<rparr>]\<rparr>\<rparr>)))))"

definition step_services :: "string \<Rightarrow> scan_state \<Rightarrow> scan_state result" where
  "step_services line s =
     (let indexPort = strings_Index line PortsLabel;
          indexType = strings_Index line TypeLabel;
          indexExternalIP = strings_Index line ExternalIPLabel;
          indexName = strings_Index line NameLabel;
          indexClusterIP = strings_Index line ClusterIPLabel;
          indexAge = strings_Index line AgeLabel
      in if indexPort \<ge> 0 \<and> indexType \<ge> 0 \<and> indexExternalIP \<ge> 0 \<and> indexName \<ge> 0
            \<and> indexClusterIP \<ge> 0 \<and> indexAge \<ge> 0
         then Ok (s\<lparr>columnPort := indexPort, columnType := indexType,
                    columnExternalIP := indexExternalIP, columnName := indexName,
                    columnClusterIP := indexClusterIP, columnAge := indexAge\<rparr>)
         else if columnPort s \<ge> 0 \<and> columnType s \<ge> 0 \<and> columnExternalIP s \<ge> 0
            \<and> columnName s \<ge> 0 \<and> columnClusterIP s \<ge> 0 \<and> columnAge s \<ge> 0
         then rbind (slice line (columnName s) (columnType s)) (\<lambda>names.
              rbind (slice line (columnType s) (columnClusterIP s)) (\<lambda>types.
              rbind (slice line (columnExternalIP s) (columnPort s)) (\<lambda>ips.
              rbind (slice line (columnPort s) (columnAge s)) (\<lambda>ports.
              rfold (add_service (strings_Fields names) (strings_Fields types)
                       (strings_Fields ips) (strings_Fields ports))
                    [0..<length (strings_Fields names)] s))))
         else Ok s)"

definition parse_line :: "string \<Rightarrow> scan_state \<Rightarrow> scan_state result" where
  "parse_line line s =
     rbind (step_nodes line (step_resource line (step_blank line s))) (\<lambda>s.
     rbind (step_ingresses line s) (\<lambda>s.
     step_services line s))"

definition parse_resources :: "string \<Rightarrow> Status result" where
  "parse_resources rawdata =
     rbind (rfold parse_line (scan_lines rawdata) init_scan) (\<lambda>s. Ok (status s))"

section \<open>The flags of a release\<close>

text \<open>
  A release whose nodes are not all there after the timeout has failed; then the status code
  sets the flags. The environment variable TIMEOUT is \<open>timeout\<close>, the clock is \<open>now\<close>; a
  duration that does not parse is 0, since the code drops the error.
\<close>

definition timeout_duration :: "(nat \<Rightarrow> nat \<Rightarrow> nat \<Rightarrow> nat) \<Rightarrow> string option \<Rightarrow> int" where
  "timeout_duration frac timeout =
     (case ParseDuration frac (case timeout of Some t \<Rightarrow> t | None \<Rightarrow> ''30m'') of
        Some d \<Rightarrow> d | None \<Rightarrow> 0)"

definition apply_timeout :: "int \<Rightarrow> int \<Rightarrow> int \<Rightarrow> Status \<Rightarrow> Status" where
  "apply_timeout now lastDeploymentTime duration st =
     (if now > lastDeploymentTime + duration \<and> st_AvailableNodes st < st_DesiredNodes st
      then st\<lparr>st_IsFailed := True\<rparr> else st)"

definition apply_code :: "string \<Rightarrow> Status \<Rightarrow> Status" where
  "apply_code status_code st =
     (if status_code = ''DEPLOYED'' then st\<lparr>st_IsDeployed := True\<rparr>
      else if status_code = ''FAILED'' then st\<lparr>st_IsFailed := True\<rparr>
      else if status_code = ''DELETED'' then st\<lparr>st_IsDeleted := True\<rparr>
      else if status_code = ''DELETING'' then st\<lparr>st_IsDeleting := True\<rparr>
      else st\<lparr>st_IsDeployed := False, st_IsFailed := True, st_IsDeleted := False,
              st_IsDeleting := False\<rparr>)"

definition convertByteToStatus ::
  "(nat \<Rightarrow> nat \<Rightarrow> nat \<Rightarrow> nat) \<Rightarrow> string option \<Rightarrow> int \<Rightarrow> string \<Rightarrow> string \<Rightarrow> int \<Rightarrow> string \<Rightarrow> string
     \<Rightarrow> Status result" where
  "convertByteToStatus frac timeout now release namespace lastDeploymentTime status_code rawdata =
     rbind (parse_resources rawdata) (\<lambda>st.
     let st = apply_timeout now lastDeploymentTime (timeout_duration frac timeout) st;
         st = st\<lparr>st_Name := release, st_Namespace := namespace\<rparr>
     in Ok (apply_code status_code st))"

section \<open>What every parsed status satisfies\<close>

text \<open>
  The ports of a service: both maps have distinct keys, a cluster port is mapped to itself, and
  a node port is recorded only for a cluster port. An ingress has a host. The counts are 64-bit.
\<close>

definition ports_ok :: "(int, int) gomap \<times> (int, int) gomap \<Rightarrow> bool" where
  "ports_ok ports \<longleftrightarrow> gm_wf (fst ports) \<and> gm_wf (snd ports) \<and>
     (\<forall>k v. map_of (fst ports) k = Some v \<longrightarrow> v = k \<and> fits_int k) \<and>
     (\<forall>k v. map_of (snd ports) k = Some v \<longrightarrow> fits_int v \<and> map_of (fst ports) k = Some k)"

definition service_ok :: "StatusService \<Rightarrow> bool" where
  "service_ok svc \<longleftrightarrow> ports_ok (svc_ClusterPorts svc, svc_NodePorts svc)"

definition ingress_ok :: "StatusIngress \<Rightarrow> bool" where
  "ingress_ok ing \<longleftrightarrow> ing_IngressHosts ing \<noteq> [] \<and> fits_int (ing_IngressPort ing)"

definition status_ok :: "Status \<Rightarrow> bool" where
  "status_ok st \<longleftrightarrow> fits_int (st_DesiredNodes st) \<and> fits_int (st_AvailableNodes st) \<and>
     list_all service_ok (st_Services st) \<and> list_all ingress_ok (st_Ingresses st)"

lemma int_or_fits [simp]: "fits_int d \<Longrightarrow> fits_int (int_or d s)"
  by (auto simp: int_or_def dest: Atoi_fits split: option.splits)

lemma ports_ok_set_cluster:
  "ports_ok (cs, ns) \<Longrightarrow> fits_int p \<Longrightarrow> ports_ok (gm_set cs p p, ns)"
  by (auto simp: ports_ok_def)

lemma ports_ok_set_both:
  "ports_ok (cs, ns) \<Longrightarrow> fits_int p \<Longrightarrow> fits_int n \<Longrightarrow> ports_ok (gm_set cs p p, gm_set ns p n)"
  by (auto simp: ports_ok_def)

lemma add_port_pair_ok: "ports_ok ports \<Longrightarrow> ports_ok (add_port_pair ports s)"
  by (cases ports)
     (auto simp: add_port_pair_def Let_def dest!: Atoi_fits split: option.splits
       intro: ports_ok_set_cluster ports_ok_set_both)

lemma foldl_port_pairs_ok: "ports_ok ports \<Longrightarrow> ports_ok (foldl add_port_pair ports ss)"
  by (induction ss arbitrary: ports) (simp_all add: add_port_pair_ok)

lemma parse_ports_ok: "ports_ok (parse_ports s)"
  unfolding parse_ports_def by (rule foldl_port_pairs_ok) (simp add: ports_ok_def)

text \<open>What each part of the loop body writes to the status.\<close>

lemma step_blank_status [simp]: "status (step_blank line s) = status s"
  by (simp add: step_blank_def)

lemma step_resource_status [simp]: "status (step_resource line s) = status s"
  by (simp add: step_resource_def)

lemma step_nodes_status:
  "step_nodes line s = Ok s' \<Longrightarrow>
     status s' = status s \<or> (\<exists>d a. status s' = add_nodes d a (status s))"
  by (cases "columnAvailable s \<ge> 0"; simp add: step_nodes_def Let_def rbind_Ok_iff split: if_splits)
     ((elim exE conjE)?, hypsubst, simp, blast?)+

lemma step_ingresses_status:
  "step_ingresses line s = Ok s' \<Longrightarrow>
     status s' = status s \<or> (\<exists>ing. ingress_ok ing \<and>
       status s' = (status s)\<lparr>st_Ingresses := st_Ingresses (status s) @ [ing]\<rparr>)"
  by (simp add: step_ingresses_def Let_def rbind_Ok_iff split: if_splits)
     ((elim exE conjE)?, hypsubst, force simp: ingress_ok_def strings_Split_nonempty)+

lemma add_service_status:
  "add_service ns ts es ps i s = Ok s' \<Longrightarrow>
     \<exists>svc. service_ok svc \<and>
       status s' = (status s)\<lparr>st_Services := st_Services (status s) @ [svc]\<rparr>"
  by (simp add: add_service_def rbind_Ok_iff)
     (elim exE conjE, hypsubst, force simp: service_ok_def parse_ports_ok)

text \<open>Hence a property kept by these three updates is kept by every line.\<close>

lemma parse_line_keeps:
  assumes run: "parse_line line s = Ok s'" and start: "I (status s)"
    and nodes: "\<And>st d a. I st \<Longrightarrow> I (add_nodes d a st)"
    and ingress: "\<And>st ing. I st \<Longrightarrow> ingress_ok ing \<Longrightarrow> I (st\<lparr>st_Ingresses := st_Ingresses st @ [ing]\<rparr>)"
    and service: "\<And>st svc. I st \<Longrightarrow> service_ok svc \<Longrightarrow> I (st\<lparr>st_Services := st_Services st @ [svc]\<rparr>)"
  shows "I (status s')"
proof -
  from run obtain s1 s2
    where n: "step_nodes line (step_resource line (step_blank line s)) = Ok s1"
      and i: "step_ingresses line s1 = Ok s2" and v: "step_services line s2 = Ok s'"
    by (auto simp: parse_line_def rbind_Ok_iff)
  from step_nodes_status [OF n] start nodes have "I (status s1)" by auto
  with step_ingresses_status [OF i] ingress have s2: "I (status s2)" by auto
  show ?thesis
  proof (cases "status s' = status s2")
    case True
    with s2 show ?thesis by simp
  next
    case False
    with v obtain ns ts es ps js where "rfold (add_service ns ts es ps) js s2 = Ok s'"
      by (simp add: step_services_def Let_def rbind_Ok_iff split: if_splits)
         ((elim exE conjE, blast) | (hypsubst, simp))+
    then show ?thesis
    proof (rule rfold_invariant [where I = "\<lambda>s. I (status s)"])
      fix x t t'
      assume "I (status t)" and "add_service ns ts es ps x t = Ok t'"
      then show "I (status t')" by (metis add_service_status service)
    qed (rule s2)
  qed
qed

lemma parse_lines_keeps:
  assumes run: "rfold parse_line ls s = Ok s'" and start: "I (status s)"
    and nodes: "\<And>st d a. I st \<Longrightarrow> I (add_nodes d a st)"
    and ingress: "\<And>st ing. I st \<Longrightarrow> ingress_ok ing \<Longrightarrow> I (st\<lparr>st_Ingresses := st_Ingresses st @ [ing]\<rparr>)"
    and service: "\<And>st svc. I st \<Longrightarrow> service_ok svc \<Longrightarrow> I (st\<lparr>st_Services := st_Services st @ [svc]\<rparr>)"
  shows "I (status s')"
  using run
  by (rule rfold_invariant [where I = "\<lambda>s. I (status s)"])
     (rule start, rule parse_line_keeps [where I = I], assumption+, erule nodes,
      erule (1) ingress, erule (1) service)

lemma zero_status_ok: "status_ok zero_status"
  by (simp add: status_ok_def zero_status_def)

lemma parse_lines_ok:
  "rfold parse_line ls init_scan = Ok s \<Longrightarrow> status_ok (status s)"
  by (erule parse_lines_keeps) (simp_all add: init_scan_def zero_status_ok, simp_all add: status_ok_def add_nodes_def)

lemma parse_resources_ok: "parse_resources raw = Ok st \<Longrightarrow> status_ok st"
  by (auto simp: parse_resources_def rbind_Ok_iff intro: parse_lines_ok)

text \<open>Setting the flags and the names touches nothing else.\<close>

lemma status_ok_apply [simp]:
  "status_ok (apply_timeout now l d st) = status_ok st"
  "status_ok (apply_code code st) = status_ok st"
  "status_ok (st\<lparr>st_Name := n, st_Namespace := ns\<rparr>) = status_ok st"
  by (simp_all add: apply_timeout_def apply_code_def status_ok_def)

section \<open>Tables are parsed one by one\<close>

text \<open>
  The status of two texts joined: counts add up (with the wrap-around of \<open>int\<close>), lists
  are appended.
\<close>

definition merge_status :: "Status \<Rightarrow> Status \<Rightarrow> Status" where
  "merge_status a b = b\<lparr>st_DesiredNodes := int_add (st_DesiredNodes a) (st_DesiredNodes b),
     st_AvailableNodes := int_add (st_AvailableNodes a) (st_AvailableNodes b),
     st_Services := st_Services a @ st_Services b,
     st_Ingresses := st_Ingresses a @ st_Ingresses b\<rparr>"

abbreviation after_status :: "Status \<Rightarrow> scan_state \<Rightarrow> scan_state" where
  "after_status a s \<equiv> s\<lparr>status := merge_status a (status s)\<rparr>"

lemma wrap_int_add_left [simp]: "wrap_int (wrap_int a + b) = wrap_int (a + b)"
  by (simp add: wrap_int_def) (simp add: mod_simps algebra_simps)

lemma int_add_assoc: "int_add (int_add a b) c = int_add a (int_add b c)"
proof -
  have "wrap_int (a + wrap_int (b + c)) = wrap_int (a + (b + c))"
    using wrap_int_add_left [of "b + c" a] by (simp add: add.commute)
  then show ?thesis by (simp add: int_add_def add.assoc)
qed

lemma map_result_rbind: "map_result g (rbind r f) = rbind r (\<lambda>x. map_result g (f x))"
  by (cases r) auto

lemma map_result_if: "map_result g (if b then r else q) = (if b then map_result g r else map_result g q)"
  by simp

lemma rbind_map_result: "rbind (map_result g r) f = rbind r (\<lambda>x. f (g x))"
  by (cases r) auto

lemma merge_add_nodes [simp]: "merge_status a (add_nodes d v b) = add_nodes d v (merge_status a b)"
  by (cases b) (simp add: merge_status_def add_nodes_def int_add_assoc)

lemma merge_add_services [simp]:
  "merge_status a (b\<lparr>st_Services := st_Services b @ x\<rparr>)
     = (merge_status a b)\<lparr>st_Services := st_Services (merge_status a b) @ x\<rparr>"
  by (cases b) (simp add: merge_status_def)

lemma merge_add_ingresses [simp]:
  "merge_status a (b\<lparr>st_Ingresses := st_Ingresses b @ x\<rparr>)
     = (merge_status a b)\<lparr>st_Ingresses := st_Ingresses (merge_status a b) @ x\<rparr>"
  by (cases b) (simp add: merge_status_def)

lemma step_blank_after: "step_blank line (after_status a s) = after_status a (step_blank line s)"
  by (simp add: step_blank_def)

lemma step_resource_after:
  "step_resource line (after_status a s) = after_status a (step_resource line s)"
  by (simp add: step_resource_def)

lemma step_nodes_after:
  "step_nodes line (after_status a s) = map_result (after_status a) (step_nodes line s)"
  by (simp add: step_nodes_def Let_def map_result_rbind map_result_if cong: if_cong)

lemma step_ingresses_after:
  "step_ingresses line (after_status a s) = map_result (after_status a) (step_ingresses line s)"
  by (simp add: step_ingresses_def Let_def map_result_rbind map_result_if cong: if_cong)

lemma rfold_after:
  assumes "\<And>x s. f x (after_status a s) = map_result (after_status a) (f x s)"
  shows "rfold f xs (after_status a s) = map_result (after_status a) (rfold f xs s)"
  by (induction xs arbitrary: s) (simp_all add: assms rbind_map_result map_result_rbind)

lemma add_service_after:
  "add_service ns ts es ps i (after_status a s)
     = map_result (after_status a) (add_service ns ts es ps i s)"
  by (simp add: add_service_def map_result_rbind)

lemma step_services_after:
  "step_services line (after_status a s) = map_result (after_status a) (step_services line s)"
  by (simp add: step_services_def Let_def map_result_rbind map_result_if
      rfold_after add_service_after cong: if_cong)

lemma parse_line_after:
  "parse_line line (after_status a s) = map_result (after_status a) (parse_line line s)"
  unfolding parse_line_def step_blank_after step_resource_after step_nodes_after
    rbind_map_result step_ingresses_after step_services_after map_result_rbind ..

lemma parse_lines_after:
  "rfold parse_line ls (after_status a s) = map_result (after_status a) (rfold parse_line ls s)"
  by (rule rfold_after) (rule parse_line_after)

text \<open>While the lines are read only the counts and the lists are written.\<close>

definition unflagged :: "Status \<Rightarrow> bool" where
  "unflagged st \<longleftrightarrow> st = zero_status\<lparr>st_DesiredNodes := st_DesiredNodes st,
     st_AvailableNodes := st_AvailableNodes st, st_Services := st_Services st,
     st_Ingresses := st_Ingresses st\<rparr>"

lemma unflagged_iff:
  "unflagged st \<longleftrightarrow> st_Name st = [] \<and> st_Namespace st = [] \<and> \<not> st_IsFailed st \<and> \<not> st_IsDeployed st
     \<and> \<not> st_IsDeleted st \<and> \<not> st_IsDeleting st"
  unfolding unflagged_def by (cases st) (auto simp: zero_status_def)

lemma unflagged_updates [simp]:
  "unflagged (add_nodes d a st) = unflagged st"
  "unflagged (st\<lparr>st_Services := x\<rparr>) = unflagged st"
  "unflagged (st\<lparr>st_Ingresses := y\<rparr>) = unflagged st"
  by (simp_all add: unflagged_iff add_nodes_def)

lemma parse_lines_unflagged:
  "rfold parse_line ls init_scan = Ok s \<Longrightarrow> unflagged (status s)"
  by (erule parse_lines_keeps) (simp_all add: init_scan_def, simp add: unflagged_iff zero_status_def)

lemma merge_zero: "status_ok a \<Longrightarrow> unflagged a \<Longrightarrow> merge_status a zero_status = a"
  by (cases a) (simp add: merge_status_def zero_status_def status_ok_def unflagged_iff)

lemma find_sub_label_empty [simp]: "L \<noteq> [] \<Longrightarrow> strings_Index [] L = -1"
  by (simp add: strings_Index_def)

lemma parse_blank_line:
  "parse_line [] s = Ok (init_scan\<lparr>status := status s\<rparr>)"
  by (simp add: parse_line_def step_blank_def step_resource_def step_nodes_def step_ingresses_def
      step_services_def label_defs strings_HasPrefix_def init_scan_def Let_def)

lemma parse_lines_joined:
  assumes "rfold parse_line ls init_scan = Ok s"
  shows "rfold parse_line (ls @ [] # ls') init_scan
    = map_result (after_status (status s)) (rfold parse_line ls' init_scan)"
proof -
  have "status_ok (status s)"
    by (rule parse_lines_ok [OF assms])
  then have "init_scan\<lparr>status := status s\<rparr> = after_status (status s) init_scan"
    using merge_zero [OF _ parse_lines_unflagged [OF assms]] by (simp add: init_scan_def)
  then show ?thesis
    using assms by (simp add: rfold_append parse_blank_line parse_lines_after)
qed

section \<open>Properties\<close>

text \<open>
  C16: The resources of a release are tables separated by blank lines. Reading a text of two
  such parts gives what reading the parts on their own gives, put together: node counts are
  added, services and ingresses are appended, and no column of the first part is used in the
  second. A part that makes the parser panic does so in the whole.
\<close>

theorem tables_joined:
  assumes "\<forall>l \<in> set (ls @ ls'). plain_line l"
  shows "parse_resources (unlines (ls @ [] # ls')) =
    rbind (parse_resources (unlines ls)) (\<lambda>a.
    rbind (parse_resources (unlines ls')) (\<lambda>b. Ok (merge_status a b)))"
proof -
  have plain: "\<forall>l \<in> set (ls @ [] # ls'). plain_line l"
    using assms by (auto simp: plain_line_def max_scan_token_def)
  have lines: "scan_lines (unlines (ls @ [] # ls')) = ls @ [] # ls'"
    "scan_lines (unlines ls) = ls" "scan_lines (unlines ls') = ls'"
    by (rule scan_unlines, use plain in auto)+
  show ?thesis
  proof (cases "rfold parse_line ls init_scan")
    case (Ok s)
    then show ?thesis
      by (cases "rfold parse_line ls' init_scan")
         (simp_all add: parse_resources_def lines parse_lines_joined)
  qed (simp_all add: parse_resources_def lines rfold_append)
qed

theorem tables_joined_witness:
  "parse_resources (unlines ([''==> v1/Pod''] @ [] # [''x''])) =
    rbind (parse_resources (unlines [''==> v1/Pod''])) (\<lambda>a.
    rbind (parse_resources (unlines [''x''])) (\<lambda>b. Ok (merge_status a b)))"
  by (rule tables_joined) (simp add: plain_line_def max_scan_token_def)

text \<open>
  C17: Every status the parser returns is well-formed, whatever the text: the counts fit into
  64 bits, the port maps have distinct keys, a cluster port is mapped to itself, a node port is
  recorded only for a cluster port of the service, and every ingress has a host.
\<close>

theorem parsed_status_ok:
  assumes "convertByteToStatus frac timeout now release namespace deployed code raw = Ok st"
  shows "status_ok st \<and> st_Name st = release \<and> st_Namespace st = namespace"
proof -
  from assms obtain st0 where st0: "parse_resources raw = Ok st0"
    and st: "st = apply_code code ((apply_timeout now deployed (timeout_duration frac timeout) st0)
      \<lparr>st_Name := release, st_Namespace := namespace\<rparr>)"
    by (auto simp: convertByteToStatus_def Let_def go_ok)
  from st0 have "status_ok st0" by (rule parse_resources_ok)
  with st show ?thesis by (simp only: status_ok_apply) (simp add: apply_code_def)
qed

lemma parse_empty: "parse_resources [] = Ok zero_status"
  by (simp add: parse_resources_def scan_lines_def raw_lines_def init_scan_def)

theorem parsed_status_ok_witness:
  "status_ok (zero_status\<lparr>st_Name := ''a'', st_Namespace := ''b'', st_IsDeployed := True\<rparr>)
     \<and> ''a'' = ''a'' \<and> ''b'' = ''b''"
  using parsed_status_ok [of "\<lambda>_ _ _. 0" None 0 "''a''" "''b''" 0 "''DEPLOYED''" "[]"
      "zero_status\<lparr>st_Name := ''a'', st_Namespace := ''b'', st_IsDeployed := True\<rparr>"]
  by (simp add: convertByteToStatus_def parse_empty apply_timeout_def apply_code_def zero_status_def)

text \<open>
  C18: The flags of a status are determined by its code, the clock and the node counts: exactly
  one of deployed, deleted and deleting is set for the code of that name and none otherwise; a
  release has failed when its code says so or is none of the four that are known (pending
  installations and upgrades included), or when its timeout has passed and nodes are missing.
\<close>

theorem release_flags:
  assumes "convertByteToStatus frac timeout now release namespace deployed code raw = Ok st"
  shows "(st_IsDeployed st \<longleftrightarrow> code = ''DEPLOYED'') \<and> (st_IsDeleted st \<longleftrightarrow> code = ''DELETED'')
    \<and> (st_IsDeleting st \<longleftrightarrow> code = ''DELETING'')
    \<and> (st_IsFailed st \<longleftrightarrow> code \<notin> {''DEPLOYED'', ''DELETED'', ''DELETING''} \<or>
         now > deployed + timeout_duration frac timeout \<and> st_AvailableNodes st < st_DesiredNodes st)"
proof -
  from assms obtain st0 where st0: "parse_resources raw = Ok st0"
    and st: "st = apply_code code ((apply_timeout now deployed (timeout_duration frac timeout) st0)
      \<lparr>st_Name := release, st_Namespace := namespace\<rparr>)"
    by (auto simp: convertByteToStatus_def Let_def go_ok)
  from st0 have "unflagged st0"
    by (auto simp: parse_resources_def rbind_Ok_iff intro: parse_lines_unflagged)
  then show ?thesis
    unfolding st by (auto simp: unflagged_iff apply_code_def apply_timeout_def)
qed

theorem release_flags_witness:
  "\<not> (0::int) > 0 + timeout_duration (\<lambda>_ _ _. 0) None \<and>
   (let st = zero_status\<lparr>st_Name := ''a'', st_IsFailed := True\<rparr>
    in st_IsFailed st \<longleftrightarrow> ''PENDING_INSTALL'' \<notin> {''DEPLOYED'', ''DELETED'', ''DELETING''} \<or>
         0 > (0::int) + timeout_duration (\<lambda>_ _ _. 0) None \<and> st_AvailableNodes st < st_DesiredNodes st)"
  using release_flags [of "\<lambda>_ _ _. 0" None 0 "''a''" "[]" 0 "''PENDING_INSTALL''" "[]"
      "zero_status\<lparr>st_Name := ''a'', st_IsFailed := True\<rparr>"]
  by (simp add: convertByteToStatus_def parse_empty apply_timeout_def apply_code_def
      zero_status_def timeout_duration_def ParseDuration_30m)

end
