(* ===== verification/Kubectl.thy ===== *)
theory Kubectl
  imports Go_Strings
begin

text \<open>
  Package \<open>kubectl\<close>: how the client of the cluster is chosen and how the nodes that the API
  server lists become the \<open>Node\<close> values the credentials are made from. The packages of
  client-go are arguments: building a configuration from a file or from inside the cluster,
  making a client of it, asking it for its version and for its nodes.
\<close>

text \<open>The environment of the process: what \<open>os.LookupEnv\<close> and \<open>os.Getenv\<close> read.\<close>

type_synonym environ = "string \<Rightarrow> string option"

definition os_Getenv :: "environ \<Rightarrow> string \<Rightarrow> string" where
  "os_Getenv env key = (case env key of Some v \<Rightarrow> v | None \<Rightarrow> [])"

record Node =
  node_Name :: string
  node_Hostname :: string
  node_InternalIP :: string
  node_ExternalIP :: string

text \<open>What the code reads of a node of the API server: its name and its addresses with their types.\<close>

record NodeItem =
  item_Name :: string
  item_Addresses :: "(string \<times> string) list"

definition getKubeConfig ::
  "environ \<Rightarrow> (string \<Rightarrow> string \<Rightarrow> string + 'cfg) \<Rightarrow> (string + 'cfg) \<Rightarrow> string + 'cfg" where
  "getKubeConfig env BuildConfigFromFlags InClusterConfig =
     (let kubeconfig = os_Getenv env ''KUBECONFIG''
      in if kubeconfig \<noteq> [] then BuildConfigFromFlags [] kubeconfig else InClusterConfig)"

definition GetKubeClient ::
  "environ \<Rightarrow> (string \<Rightarrow> string \<Rightarrow> string + 'cfg) \<Rightarrow> (string + 'cfg) \<Rightarrow> ('cfg \<Rightarrow> string + 'cl)
     \<Rightarrow> string + ('cl \<times> 'cfg)" where
  "GetKubeClient env BuildConfigFromFlags InClusterConfig NewForConfig =
     (case getKubeConfig env BuildConfigFromFlags InClusterConfig of
        Inl err \<Rightarrow> Inl err
      | Inr kubeconfig \<Rightarrow> (case NewForConfig kubeconfig of
          Inl err \<Rightarrow> Inl err
        | Inr kubeclient \<Rightarrow> Inr (kubeclient, kubeconfig)))"

definition CheckVersion ::
  "environ \<Rightarrow> (string \<Rightarrow> string \<Rightarrow> string + 'cfg) \<Rightarrow> (string + 'cfg) \<Rightarrow> ('cfg \<Rightarrow> string + 'cl)
     \<Rightarrow> ('cl \<Rightarrow> string + 'info) \<Rightarrow> string + 'info" where
  "CheckVersion env BuildConfigFromFlags InClusterConfig NewForConfig ServerVersion =
     (case GetKubeClient env BuildConfigFromFlags InClusterConfig NewForConfig of
        Inl err \<Rightarrow> Inl err
      | Inr (clientset, cfg) \<Rightarrow> ServerVersion clientset)"

text \<open>
  The program \<open>kubecmd\<close> logs what the version check gives; both branches end in
  \<open>log.Fatal\<close>, so that its exit status is 1 in any case and its calls of \<open>os.Exit\<close> are dead.
\<close>

definition kubecmd_main ::
  "('info \<Rightarrow> string) \<Rightarrow> environ \<Rightarrow> (string \<Rightarrow> string \<Rightarrow> string + 'cfg) \<Rightarrow> (string + 'cfg)
     \<Rightarrow> ('cfg \<Rightarrow> string + 'cl) \<Rightarrow> ('cl \<Rightarrow> string + 'info) \<Rightarrow> nat \<times> string" where
  "kubecmd_main show_info env BuildConfigFromFlags InClusterConfig NewForConfig ServerVersion =
     (case CheckVersion env BuildConfigFromFlags InClusterConfig NewForConfig ServerVersion of
        Inl err \<Rightarrow> (1, err)
      | Inr info \<Rightarrow> (1, ''Server Info: '' @ show_info info))"

lemma kubecmd_fails: "fst (kubecmd_main show_info env build incluster new server_version) = 1"
  by (simp add: kubecmd_main_def split: sum.split)

definition add_address :: "Node \<Rightarrow> string \<times> string \<Rightarrow> Node" where
  "add_address node addr =
     (let (typ, address) = addr;
          node = (if typ = ''Hostname'' then node\<lparr>node_Hostname := address\<rparr> else node);
          node = (if typ = ''InternalIP'' then node\<lparr>node_InternalIP := address\<rparr> else node)
      in if typ = ''ExternalIP'' then node\<lparr>node_ExternalIP := address\<rparr> else node)"

definition node_of_item :: "NodeItem \<Rightarrow> Node" where
  "node_of_item item = foldl add_address
     \<lparr>node_Name = item_Name item, node_Hostname = [], node_InternalIP = [], node_ExternalIP = []\<rparr>
     (item_Addresses item)"

definition GetNodes ::
  "environ \<Rightarrow> (string \<Rightarrow> string \<Rightarrow> string + 'cfg) \<Rightarrow> (string + 'cfg) \<Rightarrow> ('cfg \<Rightarrow> string + 'cl)
     \<Rightarrow> ('cl \<Rightarrow> string + NodeItem list) \<Rightarrow> string + Node list" where
  "GetNodes env BuildConfigFromFlags InClusterConfig NewForConfig ListNodes =
     (case GetKubeClient env BuildConfigFromFlags InClusterConfig NewForConfig of
        Inl err \<Rightarrow> Inl err
      | Inr (clientset, cfg) \<Rightarrow> (case ListNodes clientset of
          Inl err \<Rightarrow> Inl err
        | Inr items \<Rightarrow> Inr (foldl (\<lambda>nodes item. nodes @ [node_of_item item]) [] items)))"

section \<open>The addresses of a node\<close>

text \<open>The last address of a type, or the empty string.\<close>

definition last_address :: "(string \<times> string) list \<Rightarrow> string \<Rightarrow> string" where
  "last_address addrs typ = os_Getenv (map_of (rev addrs)) typ"

lemma last_address_Nil [simp]: "last_address [] typ = []"
  by (simp add: last_address_def os_Getenv_def)

lemma last_address_snoc [simp]:
  "last_address (addrs @ [a]) typ = (if fst a = typ then snd a else last_address addrs typ)"
  by (cases a) (simp add: last_address_def os_Getenv_def)

lemma add_addresses:
  "foldl add_address \<lparr>node_Name = n, node_Hostname = [], node_InternalIP = [], node_ExternalIP = []\<rparr> addrs
     = \<lparr>node_Name = n, node_Hostname = last_address addrs ''Hostname'',
        node_InternalIP = last_address addrs ''InternalIP'',
        node_ExternalIP = last_address addrs ''ExternalIP''\<rparr>"
  by (induction addrs rule: rev_induct) (auto simp: add_address_def Let_def split: prod.splits)

lemma foldl_snoc_map: "foldl (\<lambda>ys x. ys @ [f x]) ys xs = ys @ map f xs"
  by (induction xs arbitrary: ys) auto

section \<open>Properties\<close>

text \<open>
  C36: The nodes are those the API server lists, in its order and with their names; each has the
  last address of each of the three types that the server gives for it, or the empty string.
  Without a client or a listing there are no nodes but the error.
\<close>

theorem node_addresses:
  "GetNodes env build incluster new list_nodes =
     (case GetKubeClient env build incluster new of
        Inl err \<Rightarrow> Inl err
      | Inr (cl, cfg) \<Rightarrow> map_sum (\<lambda>err. err) (map (\<lambda>item.
          \<lparr>node_Name = item_Name item,
           node_Hostname = last_address (item_Addresses item) ''Hostname'',
           node_InternalIP = last_address (item_Addresses item) ''InternalIP'',
           node_ExternalIP = last_address (item_Addresses item) ''ExternalIP''\<rparr>)) (list_nodes cl))"
  by (auto simp: GetNodes_def foldl_snoc_map node_of_item_def add_addresses split: sum.splits prod.splits)

end
