(* ===== verification/Credentials.thy ===== *)
theory Credentials
  imports Catalog Helm_Status Kubectl
begin

text \<open>
  The rest of \<open>catalog.go\<close>: the addresses and ports of a release that a credentials template
  can use, and the credentials themselves. The environment variables \<open>DOMAIN\<close> and
  \<open>CLUSTER_DNS\<close> are read from the environment. Each loop over a Go map takes the seed of its
  order.
\<close>

section \<open>Data\<close>

record releaseVars =
  rel_Name :: string
  rel_Namespace :: string

record clusterVars =
  cl_Address :: string
  cl_HaAddress :: string
  cl_Hostname :: string
  cl_IngressAddress :: string
  cl_IngressPort :: string
  cl_helmStatus :: Status

type_synonym valueVars = "(gval, gval) gomap"

record credentialVars =
  cv_Service :: Service
  cv_Plan :: Plan
  cv_Values :: valueVars
  cv_Release :: releaseVars
  cv_Cluster :: clusterVars

section \<open>Ingresses\<close>

definition ingressPort :: "Status \<Rightarrow> string" where
  "ingressPort helmStatus =
     (case st_Ingresses helmStatus of ing # _ \<Rightarrow> strconv_Itoa (ing_IngressPort ing) | [] \<Rightarrow> [])"

definition ingressAddress :: "Status \<Rightarrow> string result" where
  "ingressAddress helmStatus =
     (case st_Ingresses helmStatus of ing # _ \<Rightarrow> index_at (ing_IngressHosts ing) 0 | [] \<Rightarrow> Ok [])"

lemma ingressAddress_ok:
  "status_ok st \<Longrightarrow> ingressAddress st \<noteq> Panic p"
  by (auto simp: ingressAddress_def status_ok_def ingress_ok_def index_at_def split: list.splits)

section \<open>Ports\<close>

text \<open>
  The method \<open>Port\<close> takes at most one port, as a variadic argument; each of its three loops
  is \<open>find_port\<close> on one of the maps.
\<close>

definition port_hit :: "int list \<Rightarrow> int \<times> int \<Rightarrow> string option" where
  "port_hit port = (\<lambda>(clusterPort, nodePort).
     if port = [] \<or> port ! 0 = clusterPort then Some (strconv_Itoa nodePort) else None)"

definition find_port :: "nat list \<Rightarrow> int list \<Rightarrow> (int, int) gomap \<Rightarrow> string option" where
  "find_port ns port ports = first_hit (port_hit port) (go_range ns ports)"

definition Port :: "(nat \<Rightarrow> nat list) \<Rightarrow> clusterVars \<Rightarrow> int list \<Rightarrow> string" where
  "Port seeds c port =
     (case st_Services (cl_helmStatus c) of
        [] \<Rightarrow> []
      | service # _ \<Rightarrow>
          (case (if svc_ServiceType service = ''LoadBalancer''
                 then find_port (seeds 0) port (svc_ClusterPorts service) else None) of
             Some p \<Rightarrow> p
           | None \<Rightarrow> (case find_port (seeds 1) port (svc_NodePorts service) of
               Some p \<Rightarrow> p
             | None \<Rightarrow> (case find_port (seeds 2) port (svc_ClusterPorts service) of
                 Some p \<Rightarrow> p
               | None \<Rightarrow> if length port > 0 then strconv_Itoa (port ! 0) else []))))"

interpretation port_search: map_search port_hit find_port
  by unfold_locales (simp add: find_port_def)

text \<open>With a port given, a loop finds what the map holds for it, in any order.\<close>

lemma find_port_one:
  assumes "gm_wf m"
  shows "find_port ns [p] m = map_option strconv_Itoa (map_of m p)"
proof (cases "map_of m p")
  case None
  then have "\<forall>e \<in> set m. port_hit [p] e = None"
    by (auto simp: port_hit_def map_of_eq_None_iff image_iff)
  with None show ?thesis by (simp add: port_search.search_complete)
next
  case (Some v)
  from assms have d: "distinct (map fst m)" by (simp add: gm_wf_def)
  have "port_hit [p] (p, v) = Some (strconv_Itoa v)" by (simp add: port_hit_def)
  with map_of_SomeD [OF Some] have "find_port ns [p] m \<noteq> None"
    by (auto simp only: port_search.search_complete)
  then obtain s where s: "find_port ns [p] m = Some s" by blast
  then obtain e where e: "e \<in> set m" "port_hit [p] e = Some s"
    using port_search.search_sound by blast
  obtain k n where kn: "e = (k, n)" by (cases e)
  with e have "k = p" "s = strconv_Itoa n" by (auto simp: port_hit_def split: if_splits)
  with e kn gm_lookup [OF assms] Some s show ?thesis by simp
qed

text \<open>Without one, it finds some port if there is one.\<close>

lemma find_port_any:
  "find_port ns [] m = Some s \<Longrightarrow> \<exists>k v. (k, v) \<in> set m \<and> s = strconv_Itoa v"
  by (drule port_search.search_sound) (auto simp: port_hit_def)

lemma find_port_any_None: "find_port ns [] m = None \<longleftrightarrow> m = []"
  unfolding port_search.search_complete by (cases m) (auto simp: port_hit_def)

section \<open>Addresses\<close>

text \<open>The loop that keeps the port it saw last, and the one that keeps the last address set.\<close>

definition last_port :: "nat list \<Rightarrow> (int, int) gomap \<Rightarrow> string" where
  "last_port ns ports = foldl (\<lambda>port (k, nodePort). strconv_Itoa nodePort) [] (go_range ns ports)"

definition last_ip :: "(Node \<Rightarrow> string) \<Rightarrow> Node list \<Rightarrow> string \<Rightarrow> string" where
  "last_ip sel nodes ip = foldl (\<lambda>ip node. if length (sel node) > 0 then sel node else ip) ip nodes"

text \<open>
  The loop over the services; its result is \<open>None\<close> where the code returns the empty string at
  once. The seed of the loop over the ports of service number \<open>i\<close> is \<open>seeds i\<close>.
\<close>

fun ha_loop ::
  "environ \<Rightarrow> Node list \<Rightarrow> string \<Rightarrow> (nat \<Rightarrow> nat list) \<Rightarrow> nat \<Rightarrow> StatusService list
     \<Rightarrow> string list \<Rightarrow> string list option" where
  "ha_loop env nodes namespace seeds i [] addresses = Some addresses"
| "ha_loop env nodes namespace seeds i (service # services) addresses =
     (if svc_ServiceType service = ''ClusterIP''
      then (case env ''CLUSTER_DNS'' of
              Some clusterDns \<Rightarrow>
                ha_loop env nodes namespace seeds (Suc i) services
                  (addresses @ [svc_Name service @ ''.'' @ namespace @ ''.'' @ clusterDns @ '':''
                                @ last_port (seeds i) (svc_ClusterPorts service)])
            | None \<Rightarrow> None)
      else if svc_ServiceType service = ''NodePort''
      then ha_loop env nodes namespace seeds (Suc i) services
             (addresses @ [last_ip node_InternalIP nodes (last_ip node_ExternalIP nodes []) @ '':''
                           @ last_port (seeds i) (svc_NodePorts service)])
      else if svc_ServiceType service = ''LoadBalancer''
      then ha_loop env nodes namespace seeds (Suc i) services
             (addresses @ [svc_ExternalIP service @ '':''
                           @ last_port (seeds i) (svc_ClusterPorts service)])
      else ha_loop env nodes namespace seeds (Suc i) services addresses)"

definition extractHAAddress ::
  "environ \<Rightarrow> (nat \<Rightarrow> nat list) \<Rightarrow> Node list \<Rightarrow> Status \<Rightarrow> string" where
  "extractHAAddress env seeds kubernetesNodes helmStatus =
     (case ha_loop env kubernetesNodes (st_Namespace helmStatus) seeds 0 (st_Services helmStatus) [] of
        Some addresses \<Rightarrow> strings_Join addresses '',''
      | None \<Rightarrow> [])"

text \<open>The last service whose name contains the discovery name.\<close>

definition masterService :: "string \<Rightarrow> StatusService list \<Rightarrow> StatusService" where
  "masterService discoveryName services =
     foldl (\<lambda>m service. if strings_Contains (svc_Name service) discoveryName then service else m)
       zero_service services"

definition ip_hit :: "(Node \<Rightarrow> string) \<Rightarrow> Node \<Rightarrow> string option" where
  "ip_hit sel node = (if length (sel node) > 0 then Some (sel node) else None)"

definition extractAddress :: "environ \<Rightarrow> Node list \<Rightarrow> Status \<Rightarrow> string \<Rightarrow> string" where
  "extractAddress env kubernetesNodes helmStatus discoveryName =
     (let master = masterService discoveryName (st_Services helmStatus)
      in case env ''DOMAIN'' of
           Some value \<Rightarrow> value
         | None \<Rightarrow>
             if svc_ServiceType master = ''ClusterIP''
             then (case env ''CLUSTER_DNS'' of
                     Some value \<Rightarrow> st_Name helmStatus @ ''-'' @ discoveryName @ ''.''
                       @ st_Namespace helmStatus @ ''.'' @ value
                   | None \<Rightarrow> [])
             else if svc_ServiceType master = ''NodePort''
             then (case first_hit (ip_hit node_ExternalIP) kubernetesNodes of
                     Some ip \<Rightarrow> ip
                   | None \<Rightarrow> (case first_hit (ip_hit node_InternalIP) kubernetesNodes of
                       Some ip \<Rightarrow> ip | None \<Rightarrow> []))
             else if svc_ServiceType master = ''LoadBalancer'' then svc_ExternalIP master
             else [])"

definition extractHostname :: "Node list \<Rightarrow> string" where
  "extractHostname kubernetesNodes =
     (case first_hit (ip_hit node_Hostname) kubernetesNodes of Some h \<Rightarrow> h | None \<Rightarrow> [])"

section \<open>Credentials\<close>

text \<open>
  The template engine gets the variables and the method \<open>Port\<close>, which it may call any number
  of times: \<open>port_seeds n\<close> are the seeds of its call number \<open>n\<close>.
\<close>

definition credential_vars ::
  "environ \<Rightarrow> (nat \<Rightarrow> nat list) \<Rightarrow> Service \<Rightarrow> Plan \<Rightarrow> Node list \<Rightarrow> Status \<Rightarrow> valueVars
     \<Rightarrow> credentialVars result" where
  "credential_vars env seeds s plan kubernetesNodes helmStatus values =
     rbind (ingressAddress helmStatus) (\<lambda>address.
     Ok \<lparr>cv_Service = s, cv_Plan = plan, cv_Values = values,
         cv_Release = \<lparr>rel_Name = st_Name helmStatus, rel_Namespace = st_Namespace helmStatus\<rparr>,
         cv_Cluster = \<lparr>
           cl_Address = extractAddress env kubernetesNodes helmStatus (service_InternalDiscoveryName s),
           cl_HaAddress = extractHAAddress env seeds kubernetesNodes helmStatus,
           cl_Hostname = extractHostname kubernetesNodes,
           cl_IngressAddress = address,
           cl_IngressPort = ingressPort helmStatus,
           cl_helmStatus = helmStatus\<rparr>\<rparr>)"

definition UserCredentials ::
  "(template \<Rightarrow> credentialVars \<Rightarrow> (nat \<Rightarrow> int list \<Rightarrow> string) \<Rightarrow> string + string)
     \<Rightarrow> (string \<Rightarrow> string + (string, gval) gomap option)
     \<Rightarrow> environ \<Rightarrow> (nat \<Rightarrow> nat list) \<Rightarrow> (nat \<Rightarrow> nat \<Rightarrow> nat list)
     \<Rightarrow> Service \<Rightarrow> Plan \<Rightarrow> Node list \<Rightarrow> Status \<Rightarrow> valueVars \<Rightarrow> (string, gval) gomap option result" where
  "UserCredentials execute yaml_credentials env seeds port_seeds s plan kubernetesNodes helmStatus values =
     rbind (credential_vars env seeds s plan kubernetesNodes helmStatus values) (\<lambda>vars.
     case service_credentialsTemplate s of
       None \<Rightarrow> Panic NilDereference
     | Some t \<Rightarrow> rbind (of_sum (execute t vars (\<lambda>n. Port (port_seeds n) (cv_Cluster vars)))) (\<lambda>b.
         of_sum (yaml_credentials b)))"

section \<open>What the addresses are\<close>

lemma Port_one:
  assumes "st_Services (cl_helmStatus c) = svc # rest" and "service_ok svc"
  shows "Port seeds c [p] = strconv_Itoa
     (if svc_ServiceType svc = ''LoadBalancer'' then p
      else case map_of (svc_NodePorts svc) p of Some n \<Rightarrow> n | None \<Rightarrow> p)"
proof -
  have wf: "gm_wf (svc_ClusterPorts svc)" "gm_wf (svc_NodePorts svc)"
    and own: "map_of (svc_ClusterPorts svc) p = Some v \<Longrightarrow> v = p"
    and node: "map_of (svc_NodePorts svc) p = Some n \<Longrightarrow> map_of (svc_ClusterPorts svc) p = Some p" for v n
    using assms(2) by (auto simp: service_ok_def ports_ok_def)
  show ?thesis
    using assms(1) own node
    by (cases "map_of (svc_ClusterPorts svc) p"; cases "map_of (svc_NodePorts svc) p")
       (simp_all add: Port_def find_port_one wf)
qed

definition ha_address ::
  "environ \<Rightarrow> Node list \<Rightarrow> string \<Rightarrow> nat list \<Rightarrow> StatusService \<Rightarrow> string list" where
  "ha_address env nodes namespace ns service =
     (if svc_ServiceType service = ''ClusterIP''
      then [svc_Name service @ ''.'' @ namespace @ ''.'' @ os_Getenv env ''CLUSTER_DNS'' @ '':''
            @ last_port ns (svc_ClusterPorts service)]
      else if svc_ServiceType service = ''NodePort''
      then [last_ip node_InternalIP nodes (last_ip node_ExternalIP nodes []) @ '':''
            @ last_port ns (svc_NodePorts service)]
      else if svc_ServiceType service = ''LoadBalancer''
      then [svc_ExternalIP service @ '':'' @ last_port ns (svc_ClusterPorts service)]
      else [])"

lemma ha_loop_spec:
  "ha_loop env nodes namespace seeds i svcs acc =
     (if env ''CLUSTER_DNS'' = None \<and> (\<exists>svc \<in> set svcs. svc_ServiceType svc = ''ClusterIP'')
      then None
      else Some (acc @ concat (map (\<lambda>(j, svc). ha_address env nodes namespace (seeds j) svc)
                              (enumerate i svcs))))"
  by (induction svcs arbitrary: i acc) (auto simp: ha_address_def os_Getenv_def split: option.splits)

text \<open>A service with at most one port leaves the order no choice.\<close>

definition single_port :: "StatusService \<Rightarrow> bool" where
  "single_port svc \<longleftrightarrow> length (svc_ClusterPorts svc) \<le> 1 \<and> length (svc_NodePorts svc) \<le> 1"

lemma last_port_single: "length m \<le> 1 \<Longrightarrow> last_port ns m = last_port ns' m"
  by (cases m) (auto simp: last_port_def)

lemma ha_address_single:
  "single_port svc \<Longrightarrow> ha_address env nodes nsp ns svc = ha_address env nodes nsp ns' svc"
  using last_port_single [of "svc_ClusterPorts svc" ns ns'] last_port_single [of "svc_NodePorts svc" ns ns']
  by (simp add: ha_address_def single_port_def)

lemma last_ip_spec:
  "last_ip sel nodes ip = (case filter (\<lambda>n. sel n \<noteq> []) nodes of [] \<Rightarrow> ip | n # ns \<Rightarrow> sel (last (n # ns)))"
proof (induction nodes rule: rev_induct)
  case (snoc n nodes)
  then show ?case by (auto simp: last_ip_def split: list.splits)
qed (simp add: last_ip_def)

lemma ip_hits:
  "first_hit (ip_hit sel) nodes = (case filter (\<lambda>n. sel n \<noteq> []) nodes of [] \<Rightarrow> None | n # _ \<Rightarrow> Some (sel n))"
  by (induction nodes) (auto simp: ip_hit_def)

lemma masterService_spec:
  "masterService d svcs = (case rev (filter (\<lambda>s. strings_Contains (svc_Name s) d) svcs) of
     [] \<Rightarrow> zero_service | s # _ \<Rightarrow> s)"
  by (induction svcs rule: rev_induct) (auto simp: masterService_def)

text \<open>Any port of a service can be the one seen last.\<close>

lemma last_port_range:
  assumes "m \<noteq> []"
  shows "range (\<lambda>ns. last_port ns m) = (\<lambda>(k, v). strconv_Itoa v) ` set m"
proof
  show "range (\<lambda>ns. last_port ns m) \<subseteq> (\<lambda>(k, v). strconv_Itoa v) ` set m"
  proof
    fix p
    assume "p \<in> range (\<lambda>ns. last_port ns m)"
    then obtain ns where p: "p = last_port ns m" by blast
    have "go_range ns m \<noteq> []" using assms by (metis length_go_range length_0_conv)
    then obtain es k v where es: "go_range ns m = es @ [(k, v)]" by (metis rev_exhaust surj_pair)
    then have "(k, v) \<in> set m" by (metis in_set_conv_decomp set_go_range)
    with es p show "p \<in> (\<lambda>(k, v). strconv_Itoa v) ` set m" by (force simp: last_port_def)
  qed
next
  show "(\<lambda>(k, v). strconv_Itoa v) ` set m \<subseteq> range (\<lambda>ns. last_port ns m)"
  proof
    fix p
    assume "p \<in> (\<lambda>(k, v). strconv_Itoa v) ` set m"
    then obtain k v where kv: "(k, v) \<in> set m" "p = strconv_Itoa v" by auto
    then obtain as bs where "m = as @ (k, v) # bs" by (meson split_list)
    then have "mset ((as @ bs) @ [(k, v)]) = mset m" by simp
    then obtain ns where "go_range ns m = (as @ bs) @ [(k, v)]" using go_range_any_order by blast
    with kv(2) have "p = last_port ns m" by (simp add: last_port_def)
    then show "p \<in> range (\<lambda>ns. last_port ns m)" by blast
  qed
qed

section \<open>Properties\<close>

text \<open>
  C24: The port of a release that the template asks for by its cluster port does not depend on
  the order of the maps: it is the port itself for a load balancer, the node port recorded for it
  otherwise, and the port itself where there is none; without services it is empty.
\<close>

theorem port_lookup:
  assumes "status_ok (cl_helmStatus c)"
  shows "Port seeds c [p] = (case st_Services (cl_helmStatus c) of
     [] \<Rightarrow> []
   | svc # _ \<Rightarrow> strconv_Itoa (if svc_ServiceType svc = ''LoadBalancer'' then p
       else case map_of (svc_NodePorts svc) p of Some n \<Rightarrow> n | None \<Rightarrow> p))"
proof (cases "st_Services (cl_helmStatus c)")
  case (Cons svc rest)
  with assms have "service_ok svc" by (simp add: status_ok_def)
  from Port_one [OF Cons this] Cons show ?thesis by simp
qed (simp add: Port_def)

definition example_service :: StatusService where
  "example_service = \<lparr>svc_Name = ''web'', svc_ServiceType = ''NodePort'', svc_NodePorts = [(80, 30080)],
     svc_ClusterPorts = [(80, 80), (443, 443)], svc_ExternalIP = ''10.0.0.9''\<rparr>"

definition example_status :: Status where
  "example_status = zero_status\<lparr>st_Name := ''rel'', st_Namespace := ''ns'', st_Services := [example_service]\<rparr>"

definition example_cluster :: clusterVars where
  "example_cluster = \<lparr>cl_Address = [], cl_HaAddress = [], cl_Hostname = [], cl_IngressAddress = [],
     cl_IngressPort = [], cl_helmStatus = example_status\<rparr>"

lemma example_status_ok: "status_ok example_status"
  by (auto simp: status_ok_def example_status_def example_service_def zero_status_def service_ok_def
      ports_ok_def gm_wf_def fits_int_def int_min_def int_max_def split: if_splits)

theorem port_lookup_witness:
  "status_ok (cl_helmStatus example_cluster) \<and>
   Port (\<lambda>_. [1]) example_cluster [80] = strconv_Itoa 30080 \<and>
   Port (\<lambda>_. [1]) example_cluster [443] = strconv_Itoa 443"
  using example_status_ok port_lookup [of example_cluster "\<lambda>_. [1]" 80]
    port_lookup [of example_cluster "\<lambda>_. [1]" 443]
  by (simp add: example_cluster_def example_status_def example_service_def)

text \<open>
  C25: The addresses for high availability are those of the services, one for each service of
  the three types that are known, in the order of the services and separated by commas; when a
  service of type ClusterIP is among them and the cluster domain is not set, there is none at all.
\<close>

theorem ha_addresses:
  "extractHAAddress env seeds nodes st =
     (if env ''CLUSTER_DNS'' = None \<and> (\<exists>svc \<in> set (st_Services st). svc_ServiceType svc = ''ClusterIP'')
      then []
      else strings_Join (concat (map (\<lambda>(j, svc). ha_address env nodes (st_Namespace st) (seeds j) svc)
             (enumerate 0 (st_Services st)))) '','')"
  by (simp add: extractHAAddress_def ha_loop_spec)

theorem ha_addresses_witness:
  "extractHAAddress Map.empty (\<lambda>_. []) [] example_status = '':'' @ strconv_Itoa 30080"
  using ha_addresses [of Map.empty "\<lambda>_. []" "[]" example_status]
  by (simp add: example_status_def example_service_def zero_status_def ha_address_def last_port_def
      last_ip_def)

text \<open>
  C26: The port in the address of a load balancer with several ports is not determined: over all
  orders in which its map can be visited, the address takes the value of each of its ports, and
  no other.
\<close>

theorem ha_port_undetermined:
  assumes "st_Services st = [svc]" and "svc_ServiceType svc = ''LoadBalancer''"
    and "svc_ClusterPorts svc \<noteq> []"
  shows "range (\<lambda>seeds. extractHAAddress env seeds nodes st)
    = (\<lambda>(k, v). svc_ExternalIP svc @ '':'' @ strconv_Itoa v) ` set (svc_ClusterPorts svc)"
proof -
  have one: "extractHAAddress env seeds nodes st
      = svc_ExternalIP svc @ '':'' @ last_port (seeds 0) (svc_ClusterPorts svc)" for seeds
    using assms(1,2) by (simp add: extractHAAddress_def)
  have "range (\<lambda>seeds :: nat \<Rightarrow> nat list. svc_ExternalIP svc @ '':'' @ last_port (seeds 0) (svc_ClusterPorts svc))
      = (\<lambda>p. svc_ExternalIP svc @ '':'' @ p) ` range (\<lambda>ns. last_port ns (svc_ClusterPorts svc))"
    by (auto simp: image_iff)
  then show ?thesis
    unfolding one last_port_range [OF assms(3)] by (simp add: image_image case_prod_unfold)
qed

theorem ha_port_undetermined_witness:
  "range (\<lambda>seeds. extractHAAddress Map.empty seeds []
       (example_status\<lparr>st_Services := [example_service\<lparr>svc_ServiceType := ''LoadBalancer''\<rparr>]\<rparr>))
    = {''10.0.0.9:'' @ strconv_Itoa 80, ''10.0.0.9:'' @ strconv_Itoa 443}"
  using ha_port_undetermined [of "example_status\<lparr>st_Services := [example_service\<lparr>svc_ServiceType := ''LoadBalancer''\<rparr>]\<rparr>"
      "example_service\<lparr>svc_ServiceType := ''LoadBalancer''\<rparr>" Map.empty "[]"]
  by (simp add: example_service_def)

text \<open>
  C27: The address of a release is the configured domain when there is one; otherwise that of
  the last service whose name contains the discovery name: the name inside the cluster, the
  first external address of a node or else the first internal one, or the external address of
  the service, by its type. Without such a service there is none.
\<close>

theorem release_address:
  "extractAddress env nodes st d =
     (case env ''DOMAIN'' of Some value \<Rightarrow> value | None \<Rightarrow>
      (case rev (filter (\<lambda>s. strings_Contains (svc_Name s) d) (st_Services st)) of
         [] \<Rightarrow> []
       | svc # _ \<Rightarrow>
           (if svc_ServiceType svc = ''ClusterIP''
            then (case env ''CLUSTER_DNS'' of
                    Some value \<Rightarrow> st_Name st @ ''-'' @ d @ ''.'' @ st_Namespace st @ ''.'' @ value
                  | None \<Rightarrow> [])
            else if svc_ServiceType svc = ''NodePort''
            then (case filter (\<lambda>n. node_ExternalIP n \<noteq> []) nodes of
                    n # _ \<Rightarrow> node_ExternalIP n
                  | [] \<Rightarrow> (case filter (\<lambda>n. node_InternalIP n \<noteq> []) nodes of
                      n # _ \<Rightarrow> node_InternalIP n | [] \<Rightarrow> []))
            else if svc_ServiceType svc = ''LoadBalancer'' then svc_ExternalIP svc else [])))"
  by (auto simp: extractAddress_def masterService_spec ip_hits zero_service_def
      split: option.splits list.splits)

text \<open>
  C28: On a status that the parser can return, making the credentials panics exactly when the
  service has no template, that is, when it was not read from the catalog.
\<close>

theorem credentials_panic:
  assumes "status_ok st"
  shows "UserCredentials ex yc env seeds port_seeds s p nodes st values = Panic q \<longleftrightarrow>
    service_credentialsTemplate s = None \<and> q = NilDereference"
proof -
  obtain vars where "credential_vars env seeds s p nodes st values = Ok vars"
  proof (cases "ingressAddress st")
    case (Err e)
    then show ?thesis by (auto simp: ingressAddress_def index_at_def split: list.splits if_splits)
  qed (use ingressAddress_ok [OF assms] that in \<open>auto simp: credential_vars_def\<close>)
  then show ?thesis by (auto simp: UserCredentials_def go_ok split: option.splits)
qed

theorem credentials_panic_witness:
  "status_ok example_status \<and>
   UserCredentials (\<lambda>_ _ _. Inr []) (\<lambda>_. Inr None) Map.empty (\<lambda>_. []) (\<lambda>_ _. []) zero_Service zero_Plan []
     example_status [] = Panic NilDereference"
  using example_status_ok
    credentials_panic [OF example_status_ok, of "\<lambda>_ _ _. Inr []" "\<lambda>_. Inr None" Map.empty "\<lambda>_. []" "\<lambda>_ _. []"
      zero_Service zero_Plan "[]" "[]" NilDereference]
  by (simp add: zero_Service_def)

end
