(* ===== verification/Config.thy ===== *)
theory Config
  imports Go_Strings
begin

text \<open>
  Package \<open>config\<close> and the files \<open>config.go\<close> and \<open>main.go\<close> as far as the logger: the
  configuration, how it is loaded and validated, and the levels of the log. Opening and
  reading the file and the YAML decoder are arguments. A slice that the code compares with
  \<open>nil\<close> is an option.
\<close>

record Database =
  db_Endpoints :: "string list"
  db_DialTimeout :: int
  db_DbName :: string
  db_CaCert :: string
  db_TLSKey :: string
  db_TLSCert :: string

record Repository =
  repo_Name :: string
  repo_Url :: string

record TillerSet =
  ts_Host :: string
  ts_Namespace :: string
  ts_Home :: string
  ts_ConnectionTimeout :: int
  ts_ForceRemoteRepo :: bool
  ts_Repos :: "Repository list option"

record HelmiConfig =
  hc_AllowUserProvisionParameters :: bool
  hc_AllowUserUpdateParameters :: bool
  hc_AllowUserBindParameters :: bool
  hc_Db :: Database
  hc_ClusterDnsName :: string
  hc_TillerConfig :: TillerSet
  hc_CatalogDir :: string

record Config =
  cfg_LogLevel :: string
  cfg_Username :: string
  cfg_Password :: string
  cfg_Platform :: string
  cfg_HelmiConfig :: HelmiConfig

definition Config_Validate :: "Config \<Rightarrow> goerror option" where
  "Config_Validate c =
     (if cfg_LogLevel c = [] then Some (Errorf ''Must provide a non-empty LogLevel'')
      else if cfg_Username c = [] then Some (Errorf ''Must provide a non-empty Username'')
      else if cfg_Password c = [] then Some (Errorf ''Must provide a non-empty Password'')
      else if hc_ClusterDnsName (cfg_HelmiConfig c) = []
      then Some (Errorf ''Must provide a non-empty kubernetes cluster dns suffix'')
      else None)"

text \<open>
  The decoder fills in a pointer that starts as nil and stays so when the document is empty;
  then the method with a value receiver is called through it.
\<close>

definition LoadConfig ::
  "(string \<Rightarrow> string + 'file) \<Rightarrow> ('file \<Rightarrow> string + string) \<Rightarrow> (string \<Rightarrow> string + Config option)
     \<Rightarrow> string \<Rightarrow> Config result" where
  "LoadConfig os_Open ReadAll yaml_config configFile =
     (if configFile = [] then Err (Errorf ''Must provide a config file'')
      else rbind (of_sum (os_Open configFile)) (\<lambda>file.
           rbind (of_sum (ReadAll file)) (\<lambda>bytes.
           rbind (of_sum (yaml_config bytes)) (\<lambda>config.
           case config of
             None \<Rightarrow> Panic NilDereference
           | Some c \<Rightarrow> (case Config_Validate c of
               Some err \<Rightarrow> Err (Errorf (''Validating config contents: '' @ err_text err))
             | None \<Rightarrow> Ok c)))))"

definition good_config :: "Config \<Rightarrow> bool" where
  "good_config c \<longleftrightarrow> cfg_LogLevel c \<noteq> [] \<and> cfg_Username c \<noteq> [] \<and> cfg_Password c \<noteq> []
     \<and> hc_ClusterDnsName (cfg_HelmiConfig c) \<noteq> []"

interpretation config_check: validator Config_Validate good_config
  by unfold_locales (simp add: Config_Validate_def good_config_def)

lemma LoadConfig_Ok_good:
  "LoadConfig op rd yc file = Ok c \<Longrightarrow> good_config c"
  by (auto simp: LoadConfig_def go_ok config_check.check_none split: if_splits option.splits)

section \<open>The levels of the log\<close>

datatype LogLevel = DEBUG | INFO | ERROR | FATAL

definition logLevels :: "(string, LogLevel) gomap" where
  "logLevels = [(''DEBUG'', DEBUG), (''INFO'', INFO), (''ERROR'', ERROR), (''FATAL'', FATAL)]"

text \<open>\<open>log.Fatal\<close> ends the process with the text.\<close>

definition buildLogger :: "string \<Rightarrow> LogLevel result" where
  "buildLogger logLevel =
     (case map_of logLevels (strings_ToUpper logLevel) of
        Some laggerLogLevel \<Rightarrow> Ok laggerLogLevel
      | None \<Rightarrow> Err (Errorf (''Invalid log level: '' @ logLevel)))"

section \<open>Properties\<close>

text \<open>
  C35: Loading the configuration returns exactly the configurations that the file holds and
  that have a log level, a user name, a password and a cluster domain; a file that is given,
  readable and syntactically right but empty makes it panic.
\<close>

theorem config_loaded:
  "(LoadConfig op rd yc file = Ok c \<longleftrightarrow>
     file \<noteq> [] \<and> (\<exists>f bytes. op file = Inr f \<and> rd f = Inr bytes \<and> yc bytes = Inr (Some c))
     \<and> good_config c) \<and>
   (LoadConfig op rd yc file = Panic p \<longleftrightarrow>
     file \<noteq> [] \<and> (\<exists>f bytes. op file = Inr f \<and> rd f = Inr bytes \<and> yc bytes = Inr None)
     \<and> p = NilDereference)"
  by (auto simp: LoadConfig_def go_ok split: option.splits if_splits)
     (auto simp flip: config_check.check_none)

end
