(* ===== verification/World.thy ===== *)
theory World
  imports Credentials Config
begin

text \<open>
  What the broker runs against. The calls it makes to Tiller, to the file system, to chart
  repositories and to the API server are recorded in a history, each with whether it
  succeeded; what a call answers is given by a function of the history so far, so that it may
  depend on every call before it, and on nothing the program cannot influence being fixed.
  These functions and the libraries the code only calls are the fields of \<open>ext\<close>: parameters of
  the model. The type \<open>'c\<close> is the type of a loaded chart and \<open>'r\<close> that of a release.
\<close>

section \<open>Calls\<close>

datatype install_option =
    InstallReuseName bool
  | InstallWait bool
  | ReleaseName string
  | ValueOverrides string

text \<open>The name among the options of an installation.\<close>

primrec opts_name :: "install_option list \<Rightarrow> string" where
  "opts_name [] = []"
| "opts_name (opt # opts) = (case opt of ReleaseName n \<Rightarrow> n | _ \<Rightarrow> opts_name opts)"

datatype update_option =
    UpdateValueOverrides string
  | UpgradeWait bool

datatype delete_option = DeletePurge bool

datatype status_code =
    UNKNOWN | DEPLOYED | DELETED | SUPERSEDED | FAILED | DELETING
  | PENDING_INSTALL | PENDING_UPGRADE | PENDING_ROLLBACK

datatype list_option =
    ReleaseListFilter string
  | ReleaseListStatuses "status_code list"

record Entry =
  entry_Name :: string
  entry_URL :: string
  entry_Cache :: string

record RepoFile =
  rf_APIVersion :: string
  rf_Generated :: int
  rf_Repositories :: "Entry list"

text \<open>
  The calls, with their arguments. \<open>LogValues\<close> is the log line that shows the values of a
  release; \<open>LogDetails\<close> the one of the broker that shows the details of a request.
\<close>

datatype 'c call =
    ReleaseStatus string
  | InstallReleaseFromChart 'c string "install_option list"
  | UpdateReleaseFromChart string 'c "update_option list"
  | DeleteRelease string "delete_option list"
  | ReleaseContent string
  | ListReleases "list_option list"
  | PingTiller
  | ListNodes
  | Stat string
  | MkdirAll string nat
  | DownloadIndexFile Entry
  | LoadRepositoriesFile string
  | WriteRepoFile string "Entry list"
  | FindChartInRepoURL string string string
  | DownloadTo string string string
  | LoadChart string
  | ExecuteTemplate template
  | LogValues string "(string, string) gomap"
  | LogDetails string string

type_synonym 'c event = "'c call \<times> bool"
type_synonym 'c history = "'c event list"

section \<open>The answers\<close>

record StatusInfo =
  si_Status :: "(status_code \<times> string) option"
  si_LastDeployed :: "int option"

record StatusResponse =
  sr_Name :: string
  sr_Namespace :: string
  sr_Info :: "StatusInfo option"

record ('c, 'r) ext =
  ext_ReleaseStatus :: "'c history \<Rightarrow> string \<Rightarrow> string + StatusResponse option"
  ext_InstallRelease :: "'c history \<Rightarrow> 'c \<Rightarrow> string \<Rightarrow> install_option list \<Rightarrow> string + 'r option"
  ext_UpdateRelease :: "'c history \<Rightarrow> string \<Rightarrow> 'c \<Rightarrow> update_option list \<Rightarrow> 'r option \<times> string option"
  ext_DeleteRelease :: "'c history \<Rightarrow> string \<Rightarrow> delete_option list \<Rightarrow> string option"
  ext_ReleaseContent :: "'c history \<Rightarrow> string \<Rightarrow> string + 'r option"
  ext_ListReleases :: "'c history \<Rightarrow> list_option list \<Rightarrow> string + (int \<times> 'r list)"
  ext_PingTiller :: "'c history \<Rightarrow> string option"
  ext_ListNodes :: "'c history \<Rightarrow> string + Node list"
  ext_Stat :: "'c history \<Rightarrow> string \<Rightarrow> (bool \<times> string) option"
  ext_MkdirAll :: "'c history \<Rightarrow> string \<Rightarrow> nat \<Rightarrow> string option"
  ext_NewChartRepository :: "Entry \<Rightarrow> string option"
  ext_DownloadIndexFile :: "'c history \<Rightarrow> Entry \<Rightarrow> string option"
  ext_LoadRepositoriesFile :: "'c history \<Rightarrow> string \<Rightarrow> string + RepoFile"
  ext_WriteRepoFile :: "'c history \<Rightarrow> string \<Rightarrow> RepoFile \<Rightarrow> string option"
  ext_FindChart :: "'c history \<Rightarrow> string \<Rightarrow> string \<Rightarrow> string \<Rightarrow> string + string"
  ext_DownloadTo :: "'c history \<Rightarrow> string \<Rightarrow> string \<Rightarrow> string \<Rightarrow> string + string"
  ext_Abs :: "string \<Rightarrow> string + string"
  ext_LoadChart :: "'c history \<Rightarrow> string \<Rightarrow> string + 'c"
  ext_home_Path :: "environ \<Rightarrow> string \<Rightarrow> string list \<Rightarrow> string"
  ext_execute_values :: "'c history \<Rightarrow> template \<Rightarrow> Service \<Rightarrow> Plan \<Rightarrow> string + string"
  ext_yaml_values :: "string \<Rightarrow> string + (string, string) gomap option"
  ext_execute_credentials ::
    "'c history \<Rightarrow> template \<Rightarrow> credentialVars \<Rightarrow> (nat \<Rightarrow> int list \<Rightarrow> string) \<Rightarrow> string + string"
  ext_yaml_credentials :: "string \<Rightarrow> string + (string, gval) gomap option"
  ext_ParseInto :: "string \<Rightarrow> gval \<Rightarrow> string + gval"
  ext_yaml_Marshal :: "gval \<Rightarrow> string + string"
  ext_CoalesceYAML :: "'r \<Rightarrow> string + string"
  ext_simpleyaml_Map :: "string \<Rightarrow> string + (string + valueVars)"
  ext_json_object :: "string \<Rightarrow> string + gval"
  ext_local_time :: "int \<Rightarrow> int"
  ext_now :: "'c history \<Rightarrow> int"
  ext_frac :: "nat \<Rightarrow> nat \<Rightarrow> nat \<Rightarrow> nat"
  ext_seed :: "nat \<Rightarrow> nat list"
  ext_ha_seed :: "nat \<Rightarrow> nat \<Rightarrow> nat list"
  ext_port_seed :: "nat \<Rightarrow> nat \<Rightarrow> nat \<Rightarrow> nat list"

text \<open>
  The world: the parameters, the environment of the process, the history, and how many loops
  over maps have taken their seed.
\<close>

record ('c, 'r) world =
  w_ext :: "('c, 'r) ext"
  w_env :: environ
  w_hist :: "'c history"
  w_tick :: nat

type_synonym ('c, 'r, 'a) prog = "(('c, 'r) world, 'a) act"

section \<open>Making a call\<close>

text \<open>
  A call is answered by the function for it at the history before it, and recorded. A call
  that answers with an error returns it; \<open>call_opt\<close> is for a call whose only result is an error.
\<close>

definition record_call :: "'c call \<Rightarrow> bool \<Rightarrow> ('c, 'r) world \<Rightarrow> ('c, 'r) world" where
  "record_call c ok w = w\<lparr>w_hist := w_hist w @ [(c, ok)]\<rparr>"

definition call_sum :: "'c call \<Rightarrow> (('c, 'r) ext \<Rightarrow> 'c history \<Rightarrow> string + 'a) \<Rightarrow> ('c, 'r, 'a) prog" where
  "call_sum c f = (\<lambda>w.
     let r = f (w_ext w) (w_hist w) in (of_sum r, record_call c (\<not> isl r) w))"

definition call_opt :: "'c call \<Rightarrow> (('c, 'r) ext \<Rightarrow> 'c history \<Rightarrow> string option) \<Rightarrow> ('c, 'r, unit) prog" where
  "call_opt c f = call_sum c (\<lambda>x h. case f x h of Some e \<Rightarrow> Inl e | None \<Rightarrow> Inr ())"

text \<open>A log line only leaves a record.\<close>

definition log_call :: "'c call \<Rightarrow> ('c, 'r, unit) prog" where
  "log_call c = (\<lambda>w. (Ok (), record_call c True w))"

text \<open>The seed of the next loop over a map.\<close>

definition next_seed :: "('c, 'r, nat list) prog" where
  "next_seed = (\<lambda>w. (Ok (ext_seed (w_ext w) (w_tick w)), w\<lparr>w_tick := Suc (w_tick w)\<rparr>))"

text \<open>
  The seeds of the loops that make the credentials: those of the addresses of the services, and
  those of the calls of \<open>Port\<close> from the template.
\<close>

definition credential_seeds ::
  "('c, 'r, (nat \<Rightarrow> nat list) \<times> (nat \<Rightarrow> nat \<Rightarrow> nat list)) prog" where
  "credential_seeds = (\<lambda>w.
     (Ok (ext_ha_seed (w_ext w) (w_tick w), ext_port_seed (w_ext w) (w_tick w)),
      w\<lparr>w_tick := Suc (w_tick w)\<rparr>))"

text \<open>
  Running a template is recorded, as its functions may answer differently each time; a nil
  template is not run.
\<close>

definition with_template ::
  "template option \<Rightarrow> (('c, 'r) world \<Rightarrow> 'a result) \<Rightarrow> ('c, 'r, 'a) prog" where
  "with_template t f = (\<lambda>w.
     (f w, case t of Some t \<Rightarrow> record_call (ExecuteTemplate t) True w | None \<Rightarrow> w))"

definition getenv :: "string \<Rightarrow> ('c, 'r, string option) prog" where
  "getenv key = get (\<lambda>w. w_env w key)"

text \<open>
  \<open>os.Setenv\<close> refuses a value with a NUL byte; the code does not look at its error.
\<close>

definition set_value :: "string \<Rightarrow> string \<Rightarrow> environ \<Rightarrow> environ" where
  "set_value key v env = (if CHR 0x00 \<in> set v then env else env(key \<mapsto> v))"

definition setenv :: "string \<Rightarrow> string \<Rightarrow> ('c, 'r, unit) prog" where
  "setenv key v = (\<lambda>w. (Ok (), w\<lparr>w_env := set_value key v (w_env w)\<rparr>))"

lemma run_setenv [simp]: "setenv key v w = (Ok (), w\<lparr>w_env := set_value key v (w_env w)\<rparr>)"
  by (simp add: setenv_def)

text \<open>A call whose error the code looks at itself: \<open>os.Stat\<close> answers whether the file is missing.\<close>

definition os_Stat :: "string \<Rightarrow> ('c, 'r, (bool \<times> string) option) prog" where
  "os_Stat path = (\<lambda>w.
     let r = ext_Stat (w_ext w) (w_hist w) path in (Ok r, record_call (Stat path) (r = None) w))"

definition update_call ::
  "string \<Rightarrow> 'c \<Rightarrow> update_option list \<Rightarrow> ('c, 'r, 'r option \<times> string option) prog" where
  "update_call release chart opts = (\<lambda>w.
     let (res, err) = ext_UpdateRelease (w_ext w) (w_hist w) release chart opts
     in (Ok (res, err), record_call (UpdateReleaseFromChart release chart opts) (err = None) w))"

section \<open>Which calls an operation makes\<close>

text \<open>
  \<open>only P\<close> relates a world to one in which the parameters are the same and every call made
  since satisfies \<open>P\<close>; \<open>only P\<close> with the environment unchanged too is what the operations of
  the broker keep.
\<close>

definition only :: "('c call \<Rightarrow> bool) \<Rightarrow> ('c, 'r) world \<Rightarrow> ('c, 'r) world \<Rightarrow> bool" where
  "only P w w' \<longleftrightarrow> w_ext w' = w_ext w \<and> w_env w' = w_env w \<and>
     (\<exists>es. w_hist w' = w_hist w @ es \<and> list_all (\<lambda>e. P (fst e)) es)"

interpretation calls: frame "only P" for P
proof unfold_locales
  show "only P w w" for w :: "('a, 'b) world" by (simp add: only_def)
  show "only P u v \<Longrightarrow> only P v w \<Longrightarrow> only P u w" for u v w :: "('a, 'b) world"
    unfolding only_def by (elim conjE exE) simp
qed

lemma only_record_call: "P c \<Longrightarrow> only P w (record_call c ok w)"
  by (simp add: only_def record_call_def)

lemma keeps_call_sum: "P c \<Longrightarrow> calls.keeps P (call_sum c f)"
  by (rule calls.keepsI) (auto simp: call_sum_def Let_def only_record_call)

lemma keeps_call_opt: "P c \<Longrightarrow> calls.keeps P (call_opt c f)"
  unfolding call_opt_def by (rule keeps_call_sum)

lemma keeps_log_call: "P c \<Longrightarrow> calls.keeps P (log_call c)"
  by (rule calls.keepsI) (auto simp: log_call_def only_record_call)

lemma keeps_next_seed: "calls.keeps P next_seed"
  by (rule calls.keepsI) (auto simp: next_seed_def only_def)

lemma keeps_getenv: "calls.keeps P (getenv key)"
  unfolding getenv_def by (rule calls.keeps_get)

lemma keeps_os_Stat: "P (Stat path) \<Longrightarrow> calls.keeps P (os_Stat path)"
  by (rule calls.keepsI) (auto simp: os_Stat_def Let_def only_record_call)

lemma keeps_update_call:
  "P (UpdateReleaseFromChart rel ch opts) \<Longrightarrow> calls.keeps P (update_call rel ch opts)"
  by (rule calls.keepsI) (auto simp: update_call_def only_record_call split: prod.splits)

lemma keeps_credential_seeds: "calls.keeps P credential_seeds"
  by (rule calls.keepsI) (auto simp: credential_seeds_def only_def)

lemma keeps_with_template: "(\<And>t. P (ExecuteTemplate t)) \<Longrightarrow> calls.keeps P (with_template t f)"
  by (rule calls.keepsI) (auto simp: with_template_def only_record_call calls.rel_refl split: option.splits)

lemmas keeps_calls = keeps_credential_seeds keeps_with_template keeps_call_sum keeps_call_opt keeps_log_call keeps_next_seed keeps_getenv
  keeps_os_Stat keeps_update_call calls.keeps_intros

lemma only_mono: "only P w w' \<Longrightarrow> (\<And>c. P c \<Longrightarrow> Q c) \<Longrightarrow> only Q w w'"
  unfolding only_def by (auto simp: list_all_iff)

end
