(* ===== verification/Tiller.thy ===== *)
theory Tiller
  imports World
begin

text \<open>
  What the model assumes of Tiller. The abstract state says of each release name whether Tiller
  holds a release of it: certainly, certainly not, or possibly (a failed call may have been
  carried out in part). It is computed from the history of the calls, starting from what Tiller
  held when the process started; Tiller is assumed only to answer a status request accordingly.
  A small Tiller that keeps this contract shows that it can be kept, and serves as the concrete
  parameters of the examples.
\<close>

section \<open>What Tiller holds\<close>

datatype presence = Absent | Unsure | Present

text \<open>The more certain it is that a release is held, the greater.\<close>

instantiation presence :: linorder
begin

definition less_eq_presence :: "presence \<Rightarrow> presence \<Rightarrow> bool" where
  "less_eq_presence p q \<longleftrightarrow> p = Absent \<or> q = Present \<or> p = q"

definition less_presence :: "presence \<Rightarrow> presence \<Rightarrow> bool" where
  "less_presence p q \<longleftrightarrow> p \<le> q \<and> \<not> q \<le> (p :: presence)"

instance
proof
  fix p q r :: presence
  show "p < q \<longleftrightarrow> p \<le> q \<and> \<not> q \<le> p" by (rule less_presence_def)
  show "p \<le> p" "p \<le> q \<Longrightarrow> q \<le> r \<Longrightarrow> p \<le> r" "p \<le> q \<Longrightarrow> q \<le> p \<Longrightarrow> p = q" "p \<le> q \<or> q \<le> p"
    by (cases p; cases q; cases r; simp add: less_eq_presence_def)+
qed

end

text \<open>What a call does to the presence of a release, depending on whether it succeeded.\<close>

definition installed :: "bool \<Rightarrow> presence \<Rightarrow> presence" where
  "installed ok p = (if ok then Present else case p of Present \<Rightarrow> Present | _ \<Rightarrow> Unsure)"

definition deleted :: "bool \<Rightarrow> bool \<Rightarrow> presence \<Rightarrow> presence" where
  "deleted purge ok p =
     (if ok then (if purge then Absent else p) else case p of Absent \<Rightarrow> Absent | _ \<Rightarrow> Unsure)"

lemma installed_mono: "p \<le> installed ok p"
  by (cases p) (simp_all add: installed_def less_eq_presence_def)

lemma deleted_mono: "deleted purge ok p \<le> p"
  by (cases p) (simp_all add: deleted_def less_eq_presence_def)

definition presence_step :: "(string \<Rightarrow> presence) \<Rightarrow> 'c event \<Rightarrow> string \<Rightarrow> presence" where
  "presence_step h e = (case e of
       (InstallReleaseFromChart ch ns opts, ok) \<Rightarrow>
         h(opts_name opts := installed ok (h (opts_name opts)))
     | (DeleteRelease n opts, ok) \<Rightarrow> h(n := deleted (DeletePurge True \<in> set opts) ok (h n))
     | _ \<Rightarrow> h)"

definition holds :: "(string \<Rightarrow> presence) \<Rightarrow> 'c history \<Rightarrow> string \<Rightarrow> presence" where
  "holds h0 es = foldl presence_step h0 es"

text \<open>
  The documented behaviour of a status request: a release that is held has a status; one that
  is not is reported as not found (or without a status). Any other error may come at any time.
\<close>

definition tiller_ok :: "(string \<Rightarrow> presence) \<Rightarrow> ('c, 'r) ext \<Rightarrow> bool" where
  "tiller_ok h0 x \<longleftrightarrow> (\<forall>es n. case ext_ReleaseStatus x es n of
       Inr (Some _) \<Rightarrow> holds h0 es n \<noteq> Absent
     | Inr None \<Rightarrow> holds h0 es n \<noteq> Present
     | Inl e \<Rightarrow> strings_Contains e ''not found'' \<longrightarrow> holds h0 es n \<noteq> Present)"

section \<open>A Tiller that keeps the contract\<close>

definition ref_holds :: "'c history \<Rightarrow> string \<Rightarrow> presence" where
  "ref_holds = holds (\<lambda>_. Absent)"

definition ref_ext :: "(string, string) ext" where
  "ref_ext = \<lparr>
     ext_ReleaseStatus = (\<lambda>h n. if ref_holds h n = Absent then Inl (''release '' @ n @ '' not found'')
       else Inr (Some \<lparr>sr_Name = n, sr_Namespace = ''default'',
         sr_Info = Some \<lparr>si_Status = Some (DEPLOYED, []), si_LastDeployed = Some 0\<rparr>\<rparr>)),
     ext_InstallRelease = (\<lambda>h ch ns opts. if ref_holds h (opts_name opts) = Present
       then Inl ''a release of this name exists'' else Inr (Some (opts_name opts))),
     ext_UpdateRelease = (\<lambda>h n ch opts. (Some n, None)),
     ext_DeleteRelease = (\<lambda>h n opts. if ref_holds h n = Absent then Some ''not found'' else None),
     ext_ReleaseContent = (\<lambda>h n. Inr (Some n)),
     ext_ListReleases = (\<lambda>h opts. Inr (0, [])),
     ext_PingTiller = (\<lambda>h. None),
     ext_ListNodes = (\<lambda>h. Inr []),
     ext_Stat = (\<lambda>h p. None),
     ext_MkdirAll = (\<lambda>h p m. None),
     ext_NewChartRepository = (\<lambda>e. None),
     ext_DownloadIndexFile = (\<lambda>h e. None),
     ext_LoadRepositoriesFile = (\<lambda>h f. Inr \<lparr>rf_APIVersion = ''v1'', rf_Generated = 0, rf_Repositories = []\<rparr>),
     ext_WriteRepoFile = (\<lambda>h f r. None),
     ext_FindChart = (\<lambda>h url n v. Inr url),
     ext_DownloadTo = (\<lambda>h url v dir. Inr dir),
     ext_Abs = Inr,
     ext_LoadChart = (\<lambda>h f. Inr f),
     ext_home_Path = (\<lambda>env home elems. home @ ''/'' @ strings_Join elems ''/''),
     ext_execute_values = (\<lambda>h t s p. Inr []),
     ext_yaml_values = (\<lambda>b. Inr None),
     ext_execute_credentials = (\<lambda>h t vars port. Inr []),
     ext_yaml_credentials = (\<lambda>b. Inr (Some [])),
     ext_ParseInto = (\<lambda>s base. Inr base),
     ext_yaml_Marshal = (\<lambda>v. Inr ''values''),
     ext_CoalesceYAML = (\<lambda>r. Inr []),
     ext_simpleyaml_Map = (\<lambda>y. Inr (Inr [])),
     ext_json_object = (\<lambda>raw. Inr (GMap [])),
     ext_local_time = (\<lambda>t. t),
     ext_now = (\<lambda>h. 0),
     ext_frac = (\<lambda>a b c. 0),
     ext_seed = (\<lambda>i. []),
     ext_ha_seed = (\<lambda>i j. []),
     ext_port_seed = (\<lambda>i j k. [])\<rparr>"

definition ref_world :: "(string, string) world" where
  "ref_world = \<lparr>w_ext = ref_ext, w_env = Map.empty, w_hist = [], w_tick = 0\<rparr>"

definition ref_config :: HelmiConfig where
  "ref_config = \<lparr>hc_AllowUserProvisionParameters = True, hc_AllowUserUpdateParameters = True,
     hc_AllowUserBindParameters = True,
     hc_Db = \<lparr>db_Endpoints = [], db_DialTimeout = 0, db_DbName = [], db_CaCert = [], db_TLSKey = [],
       db_TLSCert = []\<rparr>,
     hc_ClusterDnsName = ''cluster.local'',
     hc_TillerConfig = \<lparr>ts_Host = [], ts_Namespace = [], ts_Home = ''/helm'', ts_ConnectionTimeout = 0,
       ts_ForceRemoteRepo = False, ts_Repos = None\<rparr>,
     hc_CatalogDir = []\<rparr>"

lemma ref_tiller_ok: "tiller_ok (\<lambda>_. Absent) ref_ext"
  by (simp add: tiller_ok_def ref_ext_def ref_holds_def)

end
