(* ===== verification/Helm_Repo.thy ===== *)
theory Helm_Repo
  imports World Tiller
begin

text \<open>
  Package \<open>helm\<close>, file \<open>repo.go\<close>: the directories of the Helm home and the list of chart
  repositories. The methods of \<open>helmpath.Home\<close> and of \<open>repo.RepoFile\<close> that it uses are
  translated from the packages of Helm; joining a path and reading the environment in it is
  \<open>ext_home_Path\<close>.
\<close>

record EnvSettings =
  es_TillerHost :: string
  es_TillerNamespace :: string
  es_TillerConnectionTimeout :: int
  es_Home :: string

section \<open>The Helm home\<close>

definition home_Path :: "string \<Rightarrow> string list \<Rightarrow> ('c, 'r, string) prog" where
  "home_Path home elems = get (\<lambda>w. ext_home_Path (w_ext w) (w_env w) home elems)"

definition home_Repository :: "string \<Rightarrow> ('c, 'r, string) prog" where
  "home_Repository home = home_Path home [''repository'']"

definition home_RepositoryFile :: "string \<Rightarrow> ('c, 'r, string) prog" where
  "home_RepositoryFile home = home_Path home [''repository'', ''repositories.yaml'']"

definition home_Cache :: "string \<Rightarrow> ('c, 'r, string) prog" where
  "home_Cache home = home_Path home [''repository'', ''cache'']"

definition home_CacheIndex :: "string \<Rightarrow> string \<Rightarrow> ('c, 'r, string) prog" where
  "home_CacheIndex home name = home_Path home [''repository'', ''cache'', name @ ''-index.yaml'']"

definition home_Starters :: "string \<Rightarrow> ('c, 'r, string) prog" where
  "home_Starters home = home_Path home [''starters'']"

definition home_Plugins :: "string \<Rightarrow> ('c, 'r, string) prog" where
  "home_Plugins home = home_Path home [''plugins'']"

definition home_Archive :: "string \<Rightarrow> ('c, 'r, string) prog" where
  "home_Archive home = home_Path home [''cache'', ''archive'']"

lemmas home_defs = home_Path_def home_Repository_def home_RepositoryFile_def home_Cache_def
  home_CacheIndex_def home_Starters_def home_Plugins_def home_Archive_def

text \<open>The mode \<open>0744\<close> of the directories.\<close>

definition handingDirectory :: "string \<Rightarrow> ('c, 'r, unit) prog" where
  "handingDirectory dir =
     andthen (os_Stat dir) (\<lambda>err.
     case err of
       Some (isNotExist, _) \<Rightarrow>
         if isNotExist
         then wrap_err (''handing director '' @ dir @ '' cause an error: '')
                (call_opt (MkdirAll dir 0x1E4) (\<lambda>x h. ext_MkdirAll x h dir 0x1E4))
         else ret ()
     | None \<Rightarrow> ret ())"

definition handingHelmDirectors :: "string \<Rightarrow> ('c, 'r, unit) prog" where
  "handingHelmDirectors home =
     andthen (home_Repository home) (\<lambda>repository.
     andthen (home_Plugins home) (\<lambda>plugins.
     andthen (home_Starters home) (\<lambda>starters.
     andthen (home_Cache home) (\<lambda>cache.
     andthen (home_Archive home) (\<lambda>archive.
     each (\<lambda>dir. wrap_err ''handing helm directors cause an error: '' (handingDirectory dir))
       [repository, plugins, starters, cache, archive])))))"

section \<open>The repositories file\<close>

definition RepoFile_Add :: "RepoFile \<Rightarrow> Entry \<Rightarrow> RepoFile" where
  "RepoFile_Add f e = f\<lparr>rf_Repositories := rf_Repositories f @ [e]\<rparr>"

fun replace_entry :: "Entry \<Rightarrow> Entry list \<Rightarrow> Entry list option" where
  "replace_entry e [] = None"
| "replace_entry e (r # rs) =
     (if entry_Name r = entry_Name e then Some (e # rs)
      else map_option (\<lambda>rs'. r # rs') (replace_entry e rs))"

definition RepoFile_Update :: "RepoFile \<Rightarrow> Entry \<Rightarrow> RepoFile" where
  "RepoFile_Update f e =
     (case replace_entry e (rf_Repositories f) of
        Some rs \<Rightarrow> f\<lparr>rf_Repositories := rs\<rparr>
      | None \<Rightarrow> RepoFile_Add f e)"

definition NewRepoFile :: "int \<Rightarrow> RepoFile" where
  "NewRepoFile now = \<lparr>rf_APIVersion = ''v1'', rf_Generated = now, rf_Repositories = []\<rparr>"

definition write_file :: "string \<Rightarrow> RepoFile \<Rightarrow> ('c, 'r, unit) prog" where
  "write_file file f = call_opt (WriteRepoFile file (rf_Repositories f))
     (\<lambda>x h. ext_WriteRepoFile x h file f)"

definition addRepoFile :: "string \<Rightarrow> Entry \<Rightarrow> ('c, 'r, unit) prog" where
  "addRepoFile file e =
     andthen (get (\<lambda>w. ext_now (w_ext w) (w_hist w))) (\<lambda>now.
     write_file file (RepoFile_Add (NewRepoFile now) e))"

definition updateRepoFile :: "string \<Rightarrow> Entry \<Rightarrow> ('c, 'r, unit) prog" where
  "updateRepoFile file e =
     andthen (call_sum (LoadRepositoriesFile file) (\<lambda>x h. ext_LoadRepositoriesFile x h file)) (\<lambda>f.
     write_file file (RepoFile_Update f e))"

definition handingRepos :: "Entry \<Rightarrow> EnvSettings \<Rightarrow> ('c, 'r, unit) prog" where
  "handingRepos e env =
     andthen (home_RepositoryFile (es_Home env)) (\<lambda>file.
     andthen (wrap_err ''download repo index file cause an error: ''
                (call_opt (DownloadIndexFile e) (\<lambda>x h. ext_DownloadIndexFile x h e))) (\<lambda>_.
     andthen (os_Stat file) (\<lambda>err.
     andthen (if err \<noteq> None then addRepoFile file e else ret ()) (\<lambda>_.
     updateRepoFile file e))))"

definition addrepo :: "string \<Rightarrow> string \<Rightarrow> EnvSettings \<Rightarrow> ('c, 'r, unit) prog" where
  "addrepo name url env =
     andthen (home_CacheIndex (es_Home env) name) (\<lambda>cache.
     let entry = \<lparr>entry_Name = name, entry_URL = url, entry_Cache = cache\<rparr>
     in andthen (get (\<lambda>w. ext_NewChartRepository (w_ext w) entry)) (\<lambda>err.
        case err of
          Some e \<Rightarrow> fail (Errorf e)
        | None \<Rightarrow> handingRepos entry env))"

definition initRepos :: "EnvSettings \<Rightarrow> HelmiConfig \<Rightarrow> ('c, 'r, unit) prog" where
  "initRepos env config =
     (case ts_Repos (hc_TillerConfig config) of
        None \<Rightarrow> fail (Errorf ''helm repository must not null, please config the tillerconfig repos.'')
      | Some repositorys \<Rightarrow>
          each (\<lambda>repository. addrepo (repo_Name repository) (repo_Url repository) env) repositorys)"

section \<open>Only files and indexes are touched\<close>

definition repo_call :: "'c call \<Rightarrow> bool" where
  "repo_call c = (case c of Stat _ \<Rightarrow> True | MkdirAll _ _ \<Rightarrow> True | DownloadIndexFile _ \<Rightarrow> True
     | LoadRepositoriesFile _ \<Rightarrow> True | WriteRepoFile _ _ \<Rightarrow> True | _ \<Rightarrow> False)"

lemma repo_call_simps [simp]:
  "repo_call (Stat p)" "repo_call (MkdirAll p m)" "repo_call (DownloadIndexFile e)"
  "repo_call (LoadRepositoriesFile p)" "repo_call (WriteRepoFile p es)"
  by (simp_all add: repo_call_def)

lemma keeps_handingHelmDirectors:
  assumes "\<And>p. P (Stat p)" "\<And>p m. P (MkdirAll p m)"
  shows "calls.keeps P (handingHelmDirectors home)"
  unfolding handingHelmDirectors_def handingDirectory_def home_defs
  by (intro keeps_calls assms)

lemma keeps_addrepo:
  assumes "\<And>c. repo_call c \<Longrightarrow> P c"
  shows "calls.keeps P (addrepo name url env)"
  unfolding addrepo_def handingRepos_def updateRepoFile_def addRepoFile_def write_file_def home_defs
  by (intro keeps_calls assms) simp_all

lemma keeps_initRepos:
  assumes "\<And>c. repo_call c \<Longrightarrow> P c"
  shows "calls.keeps P (initRepos env config)"
  unfolding initRepos_def by (intro keeps_calls keeps_addrepo assms) simp_all

section \<open>Properties\<close>

definition entry_of :: "string \<Rightarrow> Entry list \<Rightarrow> Entry option" where
  "entry_of name es = find (\<lambda>r. entry_Name r = name) es"

lemma replace_entry_None: "replace_entry e rs = None \<longleftrightarrow> entry_of (entry_Name e) rs = None"
  by (induction rs) (auto simp: entry_of_def)

lemma replace_entry_Some:
  "replace_entry e rs = Some rs' \<Longrightarrow>
     entry_of name rs' = (if name = entry_Name e then Some e else entry_of name rs)"
  by (induction rs arbitrary: rs') (auto simp: entry_of_def split: if_splits)

lemma entry_of_append: "entry_of name (rs @ [e]) =
    (case entry_of name rs of Some r \<Rightarrow> Some r | None \<Rightarrow> if entry_Name e = name then Some e else None)"
  by (induction rs) (auto simp: entry_of_def)

lemma entry_of_Update:
  "entry_of name (rf_Repositories (RepoFile_Update f e)) =
     (if name = entry_Name e then Some e else entry_of name (rf_Repositories f))"
proof (cases "replace_entry e (rf_Repositories f)")
  case None
  then have "entry_of (entry_Name e) (rf_Repositories f) = None" by (simp add: replace_entry_None)
  with None show ?thesis
    by (auto simp: RepoFile_Update_def RepoFile_Add_def entry_of_append split: option.splits)
qed (simp add: RepoFile_Update_def replace_entry_Some)

text \<open>
  C39: Updating the repositories file reads it once and writes it once: in the file written,
  the repository has the entry given, and every other name the entry it had. A file that cannot
  be read is not written.
\<close>

theorem repo_file_updated:
  "(case ext_LoadRepositoriesFile (w_ext w) (w_hist w) file of
      Inl err \<Rightarrow> updateRepoFile file e w =
        (Err (Errorf err), record_call (LoadRepositoriesFile file) False w)
    | Inr f \<Rightarrow> (\<exists>es ok.
        snd (updateRepoFile file e w) =
          record_call (WriteRepoFile file es) ok (record_call (LoadRepositoriesFile file) True w) \<and>
        (\<forall>name. entry_of name es =
          (if name = entry_Name e then Some e else entry_of name (rf_Repositories f)))))"
proof (cases "ext_LoadRepositoriesFile (w_ext w) (w_hist w) file")
  case (Inr f)
  then show ?thesis
    by (auto simp: updateRepoFile_def call_sum_def call_opt_def write_file_def andthen_def
        entry_of_Update intro!: exI [of _ "rf_Repositories (RepoFile_Update f e)"] split: option.splits)
qed (simp add: updateRepoFile_def call_sum_def andthen_def)

end
