(* ===== verification/Helm_Chart.thy ===== *)
theory Helm_Chart
  imports Helm_Repo
begin

text \<open>
  Package \<open>helm\<close>, file \<open>chart.go\<close>: finding a chart among the archives of the Helm home, or
  else in the configured repositories, from which it is downloaded.
\<close>

definition parseChartName :: "string \<Rightarrow> string result" where
  "parseChartName name =
     (let s = strings_Split name ''/''
      in if length s = 1 then index_at s 0 else index_at s 1)"

definition archive_file :: "string \<Rightarrow> string \<Rightarrow> string" where
  "archive_file name version = name @ ''-'' @ version @ ''.tgz''"

definition findChartWithPath ::
  "string \<Rightarrow> string \<Rightarrow> string \<Rightarrow> EnvSettings \<Rightarrow> ('c, 'r, string + string) prog" where
  "findChartWithPath chartName chartVersion chartfile envs =
     andthen (lift (parseChartName chartName)) (\<lambda>name.
     andthen (if chartfile = [] \<or> \<not> strings_Contains chartfile (archive_file name chartVersion)
              then andthen (home_Archive (es_Home envs)) (\<lambda>archive.
                   ret (archive @ ''/'' @ archive_file name chartVersion))
              else ret chartfile) (\<lambda>imagefile.
     andthen (os_Stat imagefile) (\<lambda>err.
     case err of
       Some (_, e) \<Rightarrow> ret (Inl e)
     | None \<Rightarrow> ret (Inr imagefile))))"

definition findChartWithUrl ::
  "string \<Rightarrow> string \<Rightarrow> string \<Rightarrow> ('c, 'r, bool \<times> string) prog" where
  "findChartWithUrl chartName chartVersion repoUrl =
     andthen (attempt (call_sum (FindChartInRepoURL repoUrl chartName chartVersion)
                (\<lambda>x h. ext_FindChart x h repoUrl chartName chartVersion))) (\<lambda>r.
     case r of
       Inl err \<Rightarrow> if strings_Contains (err_text err) ''not found'' then ret (False, []) else fail err
     | Inr curl \<Rightarrow> ret (True, curl))"

definition downloadChart :: "string \<Rightarrow> string \<Rightarrow> EnvSettings \<Rightarrow> ('c, 'r, string) prog" where
  "downloadChart url version envs =
     andthen (home_Archive (es_Home envs)) (\<lambda>archive.
     call_sum (DownloadTo url version archive) (\<lambda>x h. ext_DownloadTo x h url version archive))"

definition loadChart :: "string \<Rightarrow> ('c, 'r, 'c) prog" where
  "loadChart filename =
     andthen (get (\<lambda>w. ext_Abs (w_ext w) filename)) (\<lambda>abs.
     andthen (lift (of_sum abs)) (\<lambda>lname.
     wrap_err ''load chart cause error: ''
       (call_sum (LoadChart lname) (\<lambda>x h. ext_LoadChart x h lname))))"

definition getRepos :: "HelmiConfig \<Rightarrow> EnvSettings \<Rightarrow> ('c, 'r, (string, string) gomap) prog" where
  "getRepos config envs =
     (case ts_Repos (hc_TillerConfig config) of
        None \<Rightarrow> ret []
      | Some repos \<Rightarrow> fold_act (\<lambda>repo rmap.
          andthen (addrepo (repo_Name repo) (repo_Url repo) envs) (\<lambda>_.
          ret (gm_set rmap (repo_Name repo) (repo_Url repo)))) repos [])"

definition writeChart ::
  "EnvSettings \<Rightarrow> string \<Rightarrow> string \<Rightarrow> (string, string) gomap \<Rightarrow> ('c, 'r, string) prog" where
  "writeChart envs chartName chartVersion repos =
     (if strings_Contains chartName ''/''
      then andthen (lift (index_at (strings_Split chartName ''/'') 0)) (\<lambda>repoName.
           andthen (lift (index_at (strings_Split chartName ''/'') 1)) (\<lambda>realChart.
           andthen next_seed (\<lambda>ns.
           andthen (fold_act (\<lambda>(name, url) (exist, chartUrl).
                      if repoName = name
                      then andthen (findChartWithUrl realChart chartVersion url) (\<lambda>(chartExist, curl).
                           if chartExist then ret (True, curl) else ret (exist, chartUrl))
                      else ret (exist, chartUrl))
                    (go_range ns repos) (False, [])) (\<lambda>(exist, chartUrl).
           if exist then downloadChart chartUrl chartVersion envs
           else fail (Errorf (''Chart '' @ chartName @ '' not found in all repos''))))))
      else fail (Errorf (''the chart name must contain repo name and chart name, such as stabel/''
                         @ chartName)))"

definition getChart ::
  "HelmiConfig \<Rightarrow> EnvSettings \<Rightarrow> string \<Rightarrow> string \<Rightarrow> string \<Rightarrow> ('c, 'r, 'c) prog" where
  "getChart config envs chartName chartVersion chartOffline =
     andthen (wrap_err ''get chart cause an error: '' (handingHelmDirectors (es_Home envs))) (\<lambda>_.
     andthen (findChartWithPath chartName chartVersion chartOffline envs) (\<lambda>found.
     case found of
       Inr chartfile \<Rightarrow> loadChart chartfile
     | Inl err \<Rightarrow>
         andthen (getRepos config envs) (\<lambda>repos.
         andthen (writeChart envs chartName chartVersion repos) (\<lambda>chartFile.
         loadChart chartFile))))"

section \<open>The name of a chart\<close>

lemma parseChartName_plain: "CHR ''/'' \<notin> set name \<Longrightarrow> parseChartName name = Ok name"
  by (simp add: parseChartName_def strings_Split_char split_char_no index_at_def)

lemma parseChartName_not_Panic: "parseChartName name \<noteq> Panic p"
proof -
  have "split_char CHR ''/'' name \<noteq> []" by simp
  then obtain x xs where "split_char CHR ''/'' name = x # xs" by (cases "split_char CHR ''/'' name") auto
  then show ?thesis
    by (cases xs) (simp_all add: parseChartName_def strings_Split_char index_at_def)
qed

lemma split_char_qualified:
  "CHR ''/'' \<notin> set repo \<Longrightarrow> split_char CHR ''/'' (repo @ CHR ''/'' # rest) = repo # split_char CHR ''/'' rest"
  by (simp add: split_char_append)

lemma parseChartName_qualified:
  "CHR ''/'' \<notin> set repo \<Longrightarrow> CHR ''/'' \<notin> set name \<Longrightarrow> parseChartName (repo @ ''/'' @ name) = Ok name"
  by (simp add: parseChartName_def strings_Split_char split_char_qualified split_char_no index_at_def)

section \<open>Only files, indexes and charts are touched\<close>

definition chart_call :: "'c call \<Rightarrow> bool" where
  "chart_call c \<longleftrightarrow> repo_call c \<or> (case c of FindChartInRepoURL _ _ _ \<Rightarrow> True
     | DownloadTo _ _ _ \<Rightarrow> True | LoadChart _ \<Rightarrow> True | _ \<Rightarrow> False)"

lemma chart_call_simps [simp]:
  "chart_call (FindChartInRepoURL u n v)" "chart_call (DownloadTo u v d)" "chart_call (LoadChart f)"
  "repo_call c \<Longrightarrow> chart_call c"
  by (simp_all add: chart_call_def)

lemma keeps_loadChart:
  assumes "\<And>c. chart_call c \<Longrightarrow> P c"
  shows "calls.keeps P (loadChart f)"
  unfolding loadChart_def by (intro keeps_calls assms) simp_all

lemma keeps_findChartWithPath:
  assumes "\<And>c. chart_call c \<Longrightarrow> P c"
  shows "calls.keeps P (findChartWithPath n v f envs)"
  unfolding findChartWithPath_def home_defs by (intro keeps_calls assms) simp_all

lemma keeps_getRepos:
  assumes "\<And>c. chart_call c \<Longrightarrow> P c"
  shows "calls.keeps P (getRepos config envs)"
  unfolding getRepos_def by (intro keeps_calls keeps_addrepo assms) simp_all

lemma keeps_writeChart:
  assumes "\<And>c. chart_call c \<Longrightarrow> P c"
  shows "calls.keeps P (writeChart envs n v repos)"
  unfolding writeChart_def findChartWithUrl_def downloadChart_def home_defs
  by (intro keeps_calls assms) simp_all

lemma keeps_getChart:
  assumes "\<And>c. chart_call c \<Longrightarrow> P c"
  shows "calls.keeps P (getChart config envs n v f)"
  unfolding getChart_def
  by (intro keeps_calls keeps_loadChart keeps_findChartWithPath keeps_getRepos keeps_writeChart
      keeps_handingHelmDirectors assms) simp_all

section \<open>Properties\<close>

definition local_call :: "'c call \<Rightarrow> bool" where
  "local_call c = (case c of Stat _ \<Rightarrow> True | MkdirAll _ _ \<Rightarrow> True | LoadChart _ \<Rightarrow> True | _ \<Rightarrow> False)"

lemma local_call_simps [simp]:
  "local_call (Stat p)" "local_call (MkdirAll p m)" "local_call (LoadChart f)"
  by (simp_all add: local_call_def)

lemma keeps_loadChart_local: "calls.keeps local_call (loadChart f)"
  unfolding loadChart_def by (intro keeps_calls) simp_all

text \<open>The archive of a chart in the Helm home.\<close>

definition archive_path :: "('c, 'r) ext \<Rightarrow> environ \<Rightarrow> string \<Rightarrow> string \<Rightarrow> string \<Rightarrow> string" where
  "archive_path x env home name version =
     ext_home_Path x env home [''cache'', ''archive''] @ ''/'' @ archive_file name version"



end
