(* ===== verification/Go_Utf8.thy ===== *)
theory Go_Utf8
  imports Go_Strings
begin

text \<open>
  Package \<open>unicode/utf8\<close>: strings are lists of bytes, and the functions below find the runes
  in them and write a rune as bytes.
\<close>

section \<open>Runes\<close>

text \<open>
  The size of the first rune of a text, from the tables of package \<open>unicode/utf8\<close>: the size
  and the range of the second byte depend on the first; a byte that does not start a
  well-formed rune counts as one of size 1.
\<close>

definition byte_in :: "nat \<Rightarrow> nat \<Rightarrow> char \<Rightarrow> bool" where
  "byte_in lo hi c \<longleftrightarrow> lo \<le> of_char c \<and> of_char c \<le> hi"

definition continuation :: "char \<Rightarrow> bool" where
  "continuation c = byte_in 128 191 c"

definition rune_form :: "char \<Rightarrow> nat \<times> nat \<times> nat" where
  "rune_form c =
     (if byte_in 194 223 c then (2, 128, 191)
      else if byte_in 224 224 c then (3, 160, 191)
      else if byte_in 237 237 c then (3, 128, 159)
      else if byte_in 225 239 c then (3, 128, 191)
      else if byte_in 240 240 c then (4, 144, 191)
      else if byte_in 241 243 c then (4, 128, 191)
      else if byte_in 244 244 c then (4, 128, 143)
      else (1, 0, 0))"

definition rune_size :: "char \<Rightarrow> string \<Rightarrow> nat" where
  "rune_size c cs =
     (let (size, lo, hi) = rune_form c
      in if size = 1 \<or> length cs + 1 < size then 1
         else if byte_in lo hi (cs ! 0) \<and> list_all continuation (drop 1 (take (size - 1) cs)) then size
         else 1)"

fun utf8_RuneCount :: "string \<Rightarrow> nat" where
  "utf8_RuneCount [] = 0"
| "utf8_RuneCount (c # cs) = Suc (utf8_RuneCount (drop (rune_size c cs - 1) cs))"

definition ascii :: "string \<Rightarrow> bool" where
  "ascii s \<longleftrightarrow> (\<forall>c \<in> set s. of_char c < (128::nat))"

lemma ascii_Cons [simp]: "ascii (c # cs) \<longleftrightarrow> of_char c < (128::nat) \<and> ascii cs"
  by (simp add: ascii_def)

lemma ascii_simps [simp]: "ascii []" "ascii (s @ t) \<longleftrightarrow> ascii s \<and> ascii t"
  by (auto simp: ascii_def)

lemma rune_size_ascii: "of_char c < (128::nat) \<Longrightarrow> rune_size c cs = 1"
  by (simp add: rune_size_def rune_form_def byte_in_def)

lemma RuneCount_ascii [simp]: "ascii s \<Longrightarrow> utf8_RuneCount s = length s"
  by (induction s) (simp_all add: rune_size_ascii)

lemma rune_size_pos: "rune_size c cs \<ge> 1"
  by (simp add: rune_size_def rune_form_def)

lemma rune_size_le: "rune_size c cs \<le> Suc (length cs)"
  by (auto simp: rune_size_def Let_def split: prod.splits)

lemma rune_size_multi:
  assumes "rune_size c cs > 1"
  shows "128 \<le> (of_char c :: nat)" "\<forall>d \<in> set (take (rune_size c cs - 1) cs). 128 \<le> (of_char d :: nat)"
    and "rune_size c (take (rune_size c cs - 1) cs @ ds) = rune_size c cs"
proof -
  obtain size lo hi where form: "rune_form c = (size, lo, hi)" by (cases "rune_form c")
  with assms have size: "rune_size c cs = size" "size > 1" "size \<le> Suc (length cs)"
    "byte_in lo hi (cs ! 0)" "list_all continuation (drop 1 (take (size - 1) cs))"
    by (auto simp: rune_size_def split: if_splits)
  show "128 \<le> (of_char c :: nat)" using form size(2)
    by (auto simp: rune_form_def byte_in_def split: if_splits)
  have lo: "128 \<le> lo" using form size(2) by (auto simp: rune_form_def split: if_splits)
  obtain d ds' where cs: "cs = d # ds'" using size(2,3) by (cases cs) auto
  show "\<forall>d \<in> set (take (rune_size c cs - 1) cs). 128 \<le> (of_char d :: nat)"
    using size lo by (auto simp: cs byte_in_def continuation_def list_all_iff take_Cons split: nat.splits)
  have "length (take (size - 1) cs) = size - 1" using size(3) by simp
  moreover have "(take (size - 1) cs @ ds) ! 0 = cs ! 0"
    using size(2) by (simp add: cs take_Cons split: nat.splits)
  ultimately show "rune_size c (take (rune_size c cs - 1) cs @ ds) = rune_size c cs"
    unfolding size(1) using size by (simp add: rune_size_def form)
qed

text \<open>Texts of well-formed runes.\<close>

fun valid_utf8 :: "string \<Rightarrow> bool" where
  "valid_utf8 [] = True"
| "valid_utf8 (c # cs) =
     (if of_char c < (128 :: nat) then valid_utf8 cs
      else rune_size c cs > 1 \<and> valid_utf8 (drop (rune_size c cs - 1) cs))"

lemma valid_utf8_ascii: "ascii s \<Longrightarrow> valid_utf8 s"
  by (induction s) auto

text \<open>
  The bytes of a code point; what is none (a surrogate, or too large) is written as the
  replacement character.
\<close>

definition replacement_rune :: "string" where
  "replacement_rune = [CHR 0xEF, CHR 0xBF, CHR 0xBD]"

definition utf8_EncodeRune :: "nat \<Rightarrow> string" where
  "utf8_EncodeRune r =
     (if r < 0x80 then [char_of r]
      else if r < 0x800 then [char_of (0xC0 + r div 64), char_of (0x80 + r mod 64)]
      else if r > 0x10FFFF \<or> 0xD800 \<le> r \<and> r \<le> 0xDFFF then replacement_rune
      else if r < 0x10000 then
        [char_of (0xE0 + r div 4096), char_of (0x80 + r div 64 mod 64), char_of (0x80 + r mod 64)]
      else [char_of (0xF0 + r div 262144), char_of (0x80 + r div 4096 mod 64),
            char_of (0x80 + r div 64 mod 64), char_of (0x80 + r mod 64)])"

end
