(* ===== verification/Go_Tabwriter.thy ===== *)
theory Go_Tabwriter
  imports Go_Utf8
begin

text \<open>
  The parts of Go's standard library that lay out a table: the replacement of the regular expression of two or more spaces, and package \<open>text/tabwriter\<close>
  with the arguments the program gives it (minimal width 0, tab width 0, padding 2 with spaces,
  and \<open>TabIndent\<close>). A writer buffers lines of cells; the cells of a column in consecutive
  lines are a block, and \<open>tab_format\<close> is the recursion over blocks of the package, a
  \<open>function\<close> whose termination is proved.
\<close>

section \<open>The regular expression of two or more spaces\<close>

text \<open>
  \<open>ReplaceAllString\<close> of the expression \<open>[ ][ ]+\<close> by a tab: every longest run of at least two
  spaces is one match.
\<close>

lemma length_dropWhile_less [termination_simp]: "length (dropWhile p xs) < Suc (length xs)"
  using length_dropWhile_le [of p xs] by simp

fun replace_spaces :: "string \<Rightarrow> string" where
  "replace_spaces [] = []"
| "replace_spaces (c # cs) =
     (if c = CHR '' '' \<and> strings_HasPrefix cs '' ''
      then CHR 0x09 # replace_spaces (dropWhile (\<lambda>c. c = CHR '' '') cs)
      else c # replace_spaces cs)"

section \<open>Cells\<close>

text \<open>
  \<open>Write\<close> splits the text: a tab or a vertical tab ends a cell, a newline or a form feed ends
  a cell and the line; between two bytes 255 nothing is special. A line is its cells and
  whether a form feed ended it; the last line, which nothing ended, has its last cell only
  when that is not empty (\<open>Flush\<close>).
\<close>

fun tab_lines :: "bool \<Rightarrow> string \<Rightarrow> string list \<Rightarrow> string \<Rightarrow> (string list \<times> bool) list" where
  "tab_lines escaped cell line [] = [(if cell = [] then line else line @ [cell], False)]"
| "tab_lines escaped cell line (c # cs) =
     (if escaped then tab_lines (c \<noteq> CHR 0xFF) (cell @ [c]) line cs
      else if c = CHR 0x09 \<or> c = CHR 0x0B then tab_lines False [] (line @ [cell]) cs
      else if c = CHR 0x0A \<or> c = CHR 0x0C
      then (line @ [cell], c = CHR 0x0C) # tab_lines False [] [] cs
      else tab_lines (c = CHR 0xFF) (cell @ [c]) line cs)"

text \<open>The width of a cell: its runes, without the bytes that start and end an escape.\<close>

definition cell_width :: "string \<Rightarrow> nat" where
  "cell_width cell = utf8_RuneCount cell - length (filter (\<lambda>c. c = CHR 0xFF) cell)"

lemma cell_width_ascii [simp]: "ascii cell \<Longrightarrow> cell_width cell = length cell"
proof -
  assume "ascii cell"
  then have "filter (\<lambda>c. c = CHR 0xFF) cell = []"
    by (auto simp: ascii_def filter_empty_conv)
  with \<open>ascii cell\<close> show ?thesis by (simp add: cell_width_def)
qed

section \<open>Formatting\<close>

text \<open>
  A line is written cell by cell, a cell in one of the columns padded to its width; empty
  cells at the start of a line are padded with tabs, which have no width here.
\<close>

fun write_cells :: "bool \<Rightarrow> nat list \<Rightarrow> string list \<Rightarrow> string" where
  "write_cells useTabs ws [] = []"
| "write_cells useTabs [] (c # cs) = c @ write_cells (useTabs \<and> c = []) [] cs"
| "write_cells useTabs (w # ws) (c # cs) =
     c @ (if useTabs \<and> c = [] then [] else replicate (w - cell_width c) CHR '' '')
       @ write_cells (useTabs \<and> c = []) ws cs"

definition write_line :: "nat list \<Rightarrow> string list \<Rightarrow> string" where
  "write_line ws cells = write_cells True ws cells @ [CHR 0x0A]"

text \<open>
  \<open>format\<close>: the lines that have a cell in the next column, as long as they follow each other,
  are a block; the width of the column is that of its widest cell with the padding, and the
  block is formatted with it. A line that has no cell there is written. The last cell of a
  line is in no column.
\<close>

definition in_column :: "nat \<Rightarrow> string list \<Rightarrow> bool" where
  "in_column column line \<longleftrightarrow> column < length line - 1"

definition column_width :: "nat \<Rightarrow> string list list \<Rightarrow> nat" where
  "column_width column block = foldl (\<lambda>width line. max width (cell_width (line ! column) + 2)) 0 block"

function tab_layout :: "nat list \<Rightarrow> string list list \<Rightarrow> nat list list" where
  "tab_layout ws [] = []"
| "tab_layout ws (line # lines) =
     (if in_column (length ws) line
      then let block = takeWhile (in_column (length ws)) (line # lines);
               rest = dropWhile (in_column (length ws)) lines
           in tab_layout (ws @ [column_width (length ws) block]) block @ tab_layout ws rest
      else ws # tab_layout ws lines)"
  by pat_completeness auto

text \<open>Every block has fewer cells to the right of its column than its lines had before.\<close>

definition cells_left :: "nat \<Rightarrow> string list list \<Rightarrow> nat" where
  "cells_left column lines = sum_list (map (\<lambda>line. Suc (length line - column)) lines)"

lemma cells_left_takeWhile:
  "cells_left (Suc column) (takeWhile (in_column column) lines) \<le> cells_left column lines"
  by (induction lines) (auto simp: cells_left_def in_column_def)

lemma cells_left_dropWhile: "cells_left column (dropWhile p lines) \<le> cells_left column lines"
  by (induction lines) (auto simp: cells_left_def)

termination tab_layout
proof (relation "measure (\<lambda>(ws, lines). cells_left (length ws) lines)")
  fix ws :: "nat list" and line :: "string list" and lines x xa :: "string list list"
  assume "in_column (length ws) line"
    and x: "x = takeWhile (in_column (length ws)) (line # lines)"
    and xa: "xa = dropWhile (in_column (length ws)) lines"
  then show "((ws @ [column_width (length ws) x], x), ws, line # lines)
      \<in> measure (\<lambda>(ws, lines). cells_left (length ws) lines)"
    using cells_left_takeWhile [of "length ws" lines] by (simp add: cells_left_def in_column_def)
  from xa show "((ws, xa), ws, line # lines) \<in> measure (\<lambda>(ws, lines). cells_left (length ws) lines)"
    using cells_left_dropWhile [of "length ws" "in_column (length ws)" lines]
    by (simp add: cells_left_def)
qed (simp_all add: cells_left_def)

lemma tab_layout_block:
  "in_column (length ws) line \<Longrightarrow> tab_layout ws (line # lines) =
     tab_layout (ws @ [column_width (length ws) (takeWhile (in_column (length ws)) (line # lines))])
       (takeWhile (in_column (length ws)) (line # lines))
     @ tab_layout ws (dropWhile (in_column (length ws)) lines)"
  by (simp add: Let_def)

lemma tab_layout_line: "\<not> in_column (length ws) line \<Longrightarrow> tab_layout ws (line # lines) = ws # tab_layout ws lines"
  by simp

declare tab_layout.simps(2) [simp del]

text \<open>The lines of a buffer are written with the widths of their columns.\<close>

definition tab_format :: "string list list \<Rightarrow> string" where
  "tab_format lines = concat (map2 write_line (tab_layout [] lines) lines)"

text \<open>
  The writer: a line that a form feed ended, and a line of a single cell, are flushed with the
  lines before them; the rest is flushed at the end, where the newline of the last line is not
  part of the text.
\<close>

fun tab_write :: "string list list \<Rightarrow> (string list \<times> bool) list \<Rightarrow> string" where
  "tab_write buffered [] = []"
| "tab_write buffered [(line, _)] = butlast (tab_format (buffered @ [line]))"
| "tab_write buffered ((line, feed) # l # lines) =
     (if feed \<or> length line = 1
      then tab_format (buffered @ [line]) @ tab_write [] (l # lines)
      else tab_write (buffered @ [line]) (l # lines))"

definition tabwriter :: "string \<Rightarrow> string" where
  "tabwriter text = tab_write [] (tab_lines False [] [] text)"

section \<open>What the layout satisfies\<close>

lemma length_tab_layout [simp]: "length (tab_layout ws lines) = length lines"
proof (induction ws lines rule: tab_layout.induct)
  case (2 ws line lines)
  show ?case
  proof (cases "in_column (length ws) line")
    case True
    have "length (takeWhile (in_column (length ws)) lines) + length (dropWhile (in_column (length ws)) lines)
        = length lines" by (metis length_append takeWhile_dropWhile_id)
    with 2(1,2) [OF True refl refl] True show ?thesis by (simp add: tab_layout_block)
  next
    case False
    with 2(3) show ?thesis by (simp add: tab_layout_line)
  qed
qed simp

text \<open>A line that has no cell in the next column separates what is before it from what is after.\<close>

lemma takeWhile_stop: "\<not> p l \<Longrightarrow> takeWhile p (lines @ l # lines') = takeWhile p lines"
  by (induction lines) auto

lemma dropWhile_stop: "\<not> p l \<Longrightarrow> dropWhile p (lines @ l # lines') = dropWhile p lines @ l # lines'"
  by (induction lines) auto

lemma tab_layout_separated:
  assumes "\<not> in_column (length ws) l"
  shows "tab_layout ws (lines @ l # lines') = tab_layout ws lines @ ws # tab_layout ws lines'"
  using assms
proof (induction ws lines rule: tab_layout.induct)
  case (1 ws)
  then show ?case by (simp add: tab_layout_line)
next
  case (2 ws line lines)
  show ?case
  proof (cases "in_column (length ws) line")
    case True
    from 2(2) [OF True refl refl 2(4)] True show ?thesis
      by (simp add: tab_layout_block takeWhile_stop [where p = "in_column (length ws)", OF 2(4)]
          dropWhile_stop [where p = "in_column (length ws)", OF 2(4)])
  next
    case False
    with 2(3,4) show ?thesis by (simp add: tab_layout_line)
  qed
qed

lemma tab_format_separated:
  assumes "length l \<le> 1"
  shows "tab_format (lines @ l # lines') = tab_format lines @ write_line [] l @ tab_format lines'"
proof -
  have "\<not> in_column (length []) l" using assms by (simp add: in_column_def)
  from tab_layout_separated [OF this, of lines lines'] show ?thesis
    by (simp add: tab_format_def zip_append)
qed

lemma tab_format_nil [simp]: "tab_format [] = []"
  by (simp add: tab_format_def)

text \<open>Flushing early changes nothing in the text.\<close>

lemma tab_format_not_empty: "lines \<noteq> [] \<Longrightarrow> tab_format lines \<noteq> []"
proof (cases lines)
  case (Cons l ls)
  then obtain w ws where "tab_layout [] lines = w # ws"
    by (metis length_tab_layout length_0_conv list.exhaust list.simps(3))
  with Cons show ?thesis by (simp add: tab_format_def write_line_def)
qed simp

lemma tab_write_format:
  "\<forall>l \<in> set lines. \<not> snd l \<Longrightarrow> lines \<noteq> [] \<Longrightarrow>
     tab_write buffered lines = butlast (tab_format (buffered @ map fst lines))"
proof (induction buffered lines rule: tab_write.induct)
  case (3 buffered line feed l lines)
  show ?case
  proof (cases "length line = 1")
    case True
    let ?rest = "map fst (l # lines)"
    have "tab_format (buffered @ line # ?rest) = tab_format (buffered @ [line]) @ tab_format ?rest"
      using tab_format_separated [of line buffered ?rest]
        tab_format_separated [of line buffered "[]"] True by simp
    moreover have "tab_write [] (l # lines) = butlast (tab_format ([] @ ?rest))"
      using 3(1,3) True by simp
    moreover have "tab_format ?rest \<noteq> []" by (rule tab_format_not_empty) simp
    ultimately show ?thesis using True by (simp add: butlast_append)
  next
    case False
    with 3(2,3) show ?thesis by simp
  qed
qed simp_all

text \<open>Columns that all lines have are laid out once for all of them.\<close>

lemma tab_layout_common:
  assumes "lines \<noteq> []" "\<forall>l \<in> set lines. m < length l" "length ws \<le> m"
  shows "tab_layout ws lines = tab_layout (ws @ map (\<lambda>j. column_width j lines) [length ws..<m]) lines"
  using assms(3)
proof (induction "m - length ws" arbitrary: ws)
  case (Suc n)
  obtain l ls where lines: "lines = l # ls" using assms(1) by (cases lines) auto
  have all: "\<forall>l \<in> set lines. in_column (length ws) l"
    using Suc(2) assms(2) by (fastforce simp: in_column_def)
  have tw: "takeWhile (in_column (length ws)) (l # ls) = l # ls" "dropWhile (in_column (length ws)) ls = []"
    using all unfolding lines takeWhile_eq_all_conv dropWhile_eq_Nil_conv by simp_all
  from all have "in_column (length ws) l" by (simp add: lines)
  from tab_layout_block [OF this, of ls, unfolded tw]
  have "tab_layout ws lines = tab_layout (ws @ [column_width (length ws) lines]) lines"
    by (simp add: lines)
  also have "\<dots> = tab_layout ((ws @ [column_width (length ws) lines])
      @ map (\<lambda>j. column_width j lines) [Suc (length ws)..<m]) lines"
    using Suc(1) [of "ws @ [column_width (length ws) lines]"] Suc(2) by simp
  finally show ?case using Suc(2) by (simp add: upt_rec [of "length ws"])
qed simp

lemma tab_layout_done: "\<forall>l \<in> set lines. length l \<le> Suc (length ws) \<Longrightarrow> tab_layout ws lines = map (\<lambda>_. ws) lines"
  by (induction lines) (auto simp: tab_layout_line in_column_def)

lemma column_width_mono:
  "w \<le> foldl (\<lambda>width line. max width (cell_width (line ! j) + 2)) w block"
proof (induction block arbitrary: w)
  case (Cons l block)
  from Cons.IH [of "max w (cell_width (l ! j) + 2)"] show ?case by simp
qed simp

lemma column_width_mem:
  assumes "l \<in> set block"
  shows "cell_width (l ! j) + 2 \<le> column_width j block"
proof -
  have "cell_width (l ! j) + 2 \<le> foldl (\<lambda>width line. max width (cell_width (line ! j) + 2)) w block" for w
    using assms
  proof (induction block arbitrary: w)
    case (Cons k block)
    show ?case
    proof (cases "l = k")
      case True
      with column_width_mono [of "max w (cell_width (l ! j) + 2)" j block] show ?thesis by simp
    next
      case False
      with Cons show ?thesis by simp
    qed
  qed simp
  then show ?thesis by (simp add: column_width_def)
qed

lemma column_width_le:
  assumes "\<forall>l \<in> set block. cell_width (l ! j) + 2 \<le> k"
  shows "column_width j block \<le> k"
proof -
  have "foldl (\<lambda>width line. max width (cell_width (line ! j) + 2)) w block \<le> k" if "w \<le> k" for w
    using assms that by (induction block arbitrary: w) auto
  then show ?thesis by (simp add: column_width_def)
qed

text \<open>
  Every line is laid out with a width for each of its cells but the last, wide enough for it,
  and starting with the widths of the columns to the left.
\<close>

definition fits :: "nat list \<Rightarrow> string list \<Rightarrow> bool" where
  "fits ws line \<longleftrightarrow> length ws < length line \<and> (\<forall>j < length ws. cell_width (line ! j) + 2 \<le> ws ! j)"

lemma tab_layout_fits:
  assumes "\<forall>l \<in> set lines. fits ws l"
  shows "list_all2 (\<lambda>v l. prefix ws v \<and> fits v l \<and> length v = length l - 1) (tab_layout ws lines) lines"
  using assms
proof (induction ws lines rule: tab_layout.induct)
  case (2 ws line lines)
  show ?case
  proof (cases "in_column (length ws) line")
    case True
    let ?p = "in_column (length ws)"
    let ?block = "takeWhile ?p (line # lines)" and ?rest = "dropWhile ?p lines"
    let ?ws = "ws @ [column_width (length ws) ?block]"
    have "fits ?ws l" if "l \<in> set ?block" for l
    proof -
      from that have "fits ws l" "?p l" using 2(4) by (auto dest: set_takeWhileD)
      with column_width_mem [OF that, of "length ws"] show ?thesis
        by (auto simp: fits_def nth_append less_Suc_eq in_column_def)
    qed
    then have "list_all2 (\<lambda>v l. prefix ?ws v \<and> fits v l \<and> length v = length l - 1) (tab_layout ?ws ?block) ?block"
      using 2(1) [OF True refl refl] by blast
    then have block: "list_all2 (\<lambda>v l. prefix ws v \<and> fits v l \<and> length v = length l - 1) (tab_layout ?ws ?block) ?block"
      by (rule list_all2_mono) (auto dest: append_prefixD)
    from 2(2) [OF True refl refl] 2(4) have
      "list_all2 (\<lambda>v l. prefix ws v \<and> fits v l \<and> length v = length l - 1) (tab_layout ws ?rest) ?rest"
      by (meson set_dropWhileD list.set_intros(2))
    from list_all2_appendI [OF block this] show ?thesis
      using takeWhile_dropWhile_id [of ?p lines] True by (simp add: tab_layout_block)
  next
    case False
    with 2(4) have "length ws = length line - 1" by (auto simp: fits_def in_column_def)
    with False 2(3,4) show ?thesis by (simp add: tab_layout_line)
  qed
qed simp

text \<open>No column is wider than its widest cell needs.\<close>

lemma tab_layout_bound:
  assumes "\<forall>l \<in> set lines. \<forall>c \<in> set l. cell_width c + 2 \<le> k" and "\<forall>w \<in> set ws. w \<le> k"
  shows "\<forall>v \<in> set (tab_layout ws lines). \<forall>w \<in> set v. w \<le> k"
  using assms
proof (induction ws lines rule: tab_layout.induct)
  case (2 ws line lines)
  show ?case
  proof (cases "in_column (length ws) line")
    case True
    let ?p = "in_column (length ws)"
    let ?block = "takeWhile ?p (line # lines)" and ?rest = "dropWhile ?p lines"
    have cells: "\<forall>l \<in> set ?block. \<forall>c \<in> set l. cell_width c + 2 \<le> k"
      "\<forall>l \<in> set ?rest. \<forall>c \<in> set l. cell_width c + 2 \<le> k"
      using 2(4) by (auto dest: set_takeWhileD set_dropWhileD)
    have "cell_width (l ! length ws) + 2 \<le> k" if "l \<in> set ?block" for l
    proof -
      from that have "length ws < length l" by (auto dest: set_takeWhileD simp: in_column_def)
      with that cells(1) show ?thesis by (meson nth_mem)
    qed
    then have "column_width (length ws) ?block \<le> k" by (intro column_width_le) blast
    then have "\<forall>w \<in> set (ws @ [column_width (length ws) ?block]). w \<le> k" using 2(5) by simp
    from 2(1) [OF True refl refl cells(1) this] 2(2) [OF True refl refl cells(2) 2(5)]
    show ?thesis unfolding tab_layout_block [OF True] set_append by blast
  next
    case False
    with 2(3-5) show ?thesis by (simp add: tab_layout_line)
  qed
qed simp

end
