(* ===== verification/Helm_Client.thy ===== *)
theory Helm_Client
  imports Helm_Chart Go_Tabwriter
begin

text \<open>
  Package \<open>helm\<close>, files \<open>client.go\<close> and \<open>options.go\<close>, and package \<open>utils\<close>: the operations
  on releases that the broker uses, each with the calls it makes to Tiller and the options it
  passes. A pointer to a release that may be nil is an option; a response that is nil and a
  response whose release is nil are not told apart, as the code does not.
\<close>

record Client =
  client_env :: EnvSettings
  client_config :: HelmiConfig

section \<open>Options\<close>

definition installOpts :: "string \<Rightarrow> bool \<Rightarrow> string \<Rightarrow> install_option list" where
  "installOpts release wait vals =
     [InstallReuseName True, InstallWait wait, ReleaseName release, ValueOverrides vals]"

definition updateOpts :: "string \<Rightarrow> bool \<Rightarrow> string \<Rightarrow> update_option list" where
  "updateOpts release wait vals = [UpdateValueOverrides vals, UpgradeWait wait]"

definition deleteOpts :: "delete_option list" where
  "deleteOpts = [DeletePurge True]"

definition listOpts :: "string \<Rightarrow> list_option list" where
  "listOpts release =
     [ReleaseListFilter release,
      ReleaseListStatuses [DELETING, DEPLOYED, FAILED, PENDING_INSTALL, PENDING_ROLLBACK,
        PENDING_UPGRADE, UNKNOWN]]"

section \<open>Values\<close>

text \<open>The values as they are logged: those whose name speaks of a password are hidden.\<close>

definition is_secret :: "string \<Rightarrow> bool" where
  "is_secret name \<longleftrightarrow> strings_Contains name ''Password'' \<or> strings_Contains name ''password''"

definition displayValues :: "nat list \<Rightarrow> (string, string) gomap \<Rightarrow> (string, string) gomap" where
  "displayValues ns values = foldl (\<lambda>d (name, value).
     gm_set d name (if is_secret name then ''hidden'' else value)) [] (go_range ns values)"

definition ConvertInterfaceToByte :: "(string, string) gomap \<Rightarrow> ('c, 'r, string) prog" where
  "ConvertInterfaceToByte vals =
     andthen next_seed (\<lambda>ns.
     andthen (fold_act (\<lambda>(name, value) base.
                wrap_err ''failed parsing data: ''
                  (andthen (get (\<lambda>w. ext_ParseInto (w_ext w) (name @ ''='' @ value) base)) (\<lambda>r.
                   lift (of_sum r))))
              (go_range ns vals) (GMap [])) (\<lambda>base.
     andthen (get (\<lambda>w. ext_yaml_Marshal (w_ext w) base)) (\<lambda>r. lift (of_sum r))))"

section \<open>Operations on releases\<close>

definition TillerCheck :: "('c, 'r, unit) prog" where
  "TillerCheck = call_opt PingTiller (\<lambda>x h. ext_PingTiller x h)"

definition ReleaseStatus_call :: "string \<Rightarrow> ('c, 'r, StatusResponse option) prog" where
  "ReleaseStatus_call name = call_sum (ReleaseStatus name) (\<lambda>x h. ext_ReleaseStatus x h name)"

definition ExistRelease :: "string \<Rightarrow> ('c, 'r, bool) prog" where
  "ExistRelease releaseName =
     andthen (attempt (ReleaseStatus_call releaseName)) (\<lambda>r.
     case r of
       Inl err \<Rightarrow> if strings_Contains (err_text err) ''not found'' then ret False else fail err
     | Inr statusRes \<Rightarrow> ret (statusRes \<noteq> None))"

definition getRelease :: "string \<Rightarrow> ('c, 'r, 'r option) prog" where
  "getRelease release =
     andthen (call_sum (ListReleases (listOpts release))
                (\<lambda>x h. ext_ListReleases x h (listOpts release))) (\<lambda>(count, releases).
     if count < 1 then ret None
     else if count > 1
     then fail (Errorf (''Error in multi releases exist for release '' @ release))
     else andthen (lift (index_at releases 0)) (\<lambda>r. ret (Some r)))"

definition InstallRelease ::
  "Client \<Rightarrow> string \<Rightarrow> string \<Rightarrow> string \<Rightarrow> string \<Rightarrow> (string, string) gomap \<Rightarrow> string \<Rightarrow> bool
     \<Rightarrow> ('c, 'r, 'r option) prog" where
  "InstallRelease c release chartName version chartOffline values namespace acceptsIncomplete =
     andthen next_seed (\<lambda>ns.
     andthen (log_call (LogValues release (displayValues ns values))) (\<lambda>_.
     let wait = (\<not> acceptsIncomplete) in
     andthen (wrap_err ''convert values to yaml values cause an error: ''
                (ConvertInterfaceToByte values)) (\<lambda>rawValues.
     andthen (wrap_err (''install release '' @ chartName @ '', cause an error: '')
                (getChart (client_config c) (client_env c) chartName version chartOffline)) (\<lambda>chart.
     andthen (call_sum
                (InstallReleaseFromChart chart namespace (installOpts release wait rawValues))
                (\<lambda>x h. ext_InstallRelease x h chart namespace (installOpts release wait rawValues)))
       (\<lambda>res.
     case res of
       None \<Rightarrow> getRelease release
     | Some r \<Rightarrow> ret (Some r))))))"

definition UpdateRelease ::
  "Client \<Rightarrow> string \<Rightarrow> string \<Rightarrow> string \<Rightarrow> string \<Rightarrow> (string, string) gomap \<Rightarrow> string \<Rightarrow> bool
     \<Rightarrow> ('c, 'r, 'r option) prog" where
  "UpdateRelease c release chartName version chartOffline values namespace acceptsIncomplete =
     andthen next_seed (\<lambda>ns.
     andthen (log_call (LogValues release (displayValues ns values))) (\<lambda>_.
     let wait = (\<not> acceptsIncomplete) in
     andthen (wrap_err ''convert values to yaml values cause an error: ''
                (ConvertInterfaceToByte values)) (\<lambda>rawValues.
     andthen (ExistRelease release) (\<lambda>exist.
     if \<not> exist then fail (Errorf (''release '' @ release @ '' not exist.'')) else
     andthen (wrap_err (''upgrade release '' @ chartName @ '', cause an error: '')
                (getChart (client_config c) (client_env c) chartName version chartOffline)) (\<lambda>chart.
     andthen (update_call release chart (updateOpts release wait rawValues)) (\<lambda>(res, err).
     case res of
       Some r \<Rightarrow> ret (Some r)
     | None \<Rightarrow>
         andthen (wrap_err ''get the release cause an error: '' (getRelease release)) (\<lambda>rls.
         case rls of
           Some r \<Rightarrow> ret (Some r)
         | None \<Rightarrow> (case err of Some e \<Rightarrow> fail (Errorf e) | None \<Rightarrow> ret None))))))))"

definition client_DeleteRelease :: "string \<Rightarrow> ('c, 'r, unit) prog" where
  "client_DeleteRelease release =
     wrap_err ''delete release cause an error: ''
       (call_opt (DeleteRelease release deleteOpts) (\<lambda>x h. ext_DeleteRelease x h release deleteOpts))"

text \<open>
  The release of the response is dereferenced without a check; an error of the decoder gives
  nil values and, since the code returns the other error variable, no error.
\<close>

definition ParseReleaseValues :: "string \<Rightarrow> ('c, 'r, valueVars) prog" where
  "ParseReleaseValues release =
     andthen (call_sum (ReleaseContent release) (\<lambda>x h. ext_ReleaseContent x h release)) (\<lambda>res.
     case res of
       None \<Rightarrow> lift (Panic NilDereference)
     | Some r \<Rightarrow>
         andthen (get (\<lambda>w. ext_CoalesceYAML (w_ext w) r)) (\<lambda>yaml.
         andthen (lift (of_sum yaml)) (\<lambda>content.
         andthen (get (\<lambda>w. ext_simpleyaml_Map (w_ext w) content)) (\<lambda>parsed.
         case parsed of
           Inl converErr \<Rightarrow> ret []
         | Inr m \<Rightarrow> lift (of_sum m)))))"

definition status_code_String :: "status_code \<Rightarrow> string" where
  "status_code_String c = (case c of
     UNKNOWN \<Rightarrow> ''UNKNOWN'' | DEPLOYED \<Rightarrow> ''DEPLOYED'' | DELETED \<Rightarrow> ''DELETED''
   | SUPERSEDED \<Rightarrow> ''SUPERSEDED'' | FAILED \<Rightarrow> ''FAILED'' | DELETING \<Rightarrow> ''DELETING''
   | PENDING_INSTALL \<Rightarrow> ''PENDING_INSTALL'' | PENDING_UPGRADE \<Rightarrow> ''PENDING_UPGRADE''
   | PENDING_ROLLBACK \<Rightarrow> ''PENDING_ROLLBACK'')"

text \<open>
  Runs of spaces become tabs, and the table is laid out again with common column widths.
\<close>

definition formatResources :: "string \<Rightarrow> string" where
  "formatResources resources = tabwriter (replace_spaces resources)"

lemma formatResources_empty [simp]: "formatResources [] = []"
  by (simp add: formatResources_def tabwriter_def tab_format_def write_line_def tab_layout_line in_column_def)

text \<open>The getters of the response accept nil; the time of the last deployment does not.\<close>

definition status_of_response ::
  "('c, 'r) world \<Rightarrow> StatusResponse option \<Rightarrow> Status result" where
  "status_of_response w res =
     (let name = (case res of Some sr \<Rightarrow> sr_Name sr | None \<Rightarrow> []);
          namespace = (case res of Some sr \<Rightarrow> sr_Namespace sr | None \<Rightarrow> []);
          (code, resources) = (case res of
             Some sr \<Rightarrow> (case sr_Info sr of
               Some info \<Rightarrow> (case si_Status info of Some s \<Rightarrow> s | None \<Rightarrow> (UNKNOWN, []))
             | None \<Rightarrow> (UNKNOWN, []))
           | None \<Rightarrow> (UNKNOWN, []));
          resources = formatResources resources
      in case res of
           None \<Rightarrow> Panic NilDereference
         | Some sr \<Rightarrow> (case sr_Info sr of
             None \<Rightarrow> Panic NilDereference
           | Some info \<Rightarrow> (case si_LastDeployed info of
               None \<Rightarrow> Panic NilDereference
             | Some t \<Rightarrow>
                 convertByteToStatus (ext_frac (w_ext w)) (w_env w ''TIMEOUT'')
                   (ext_now (w_ext w) (w_hist w)) name namespace (ext_local_time (w_ext w) t)
                   (status_code_String code) resources)))"

definition client_GetStatus :: "string \<Rightarrow> ('c, 'r, Status) prog" where
  "client_GetStatus release =
     andthen (ReleaseStatus_call release) (\<lambda>status w.
     (status_of_response w status, w))"

section \<open>Making a client\<close>

definition getHelmEnvironment :: "HelmiConfig \<Rightarrow> EnvSettings" where
  "getHelmEnvironment config =
     (let ts = hc_TillerConfig config
      in \<lparr>es_TillerHost = ts_Host ts, es_TillerNamespace = ts_Namespace ts,
          es_TillerConnectionTimeout = ts_ConnectionTimeout ts,
          es_Home = (if ts_Home ts \<noteq> [] then ts_Home ts else [])\<rparr>)"

text \<open>
  The connection to Tiller is a parameter: the host when one is configured, or a tunnel to the
  pod in the namespace given, with the error of making it.
\<close>

definition getHelmClient ::
  "('c, 'r, 'k) prog \<Rightarrow> ('k \<Rightarrow> string \<Rightarrow> ('c, 'r, int) prog) \<Rightarrow> HelmiConfig
     \<Rightarrow> ('c, 'r, string) prog" where
  "getHelmClient kube_client new_tunnel config =
     (if ts_Host (hc_TillerConfig config) \<noteq> [] then ret (ts_Host (hc_TillerConfig config))
      else andthen kube_client (\<lambda>kube.
           andthen (new_tunnel kube (if ts_Namespace (hc_TillerConfig config) \<noteq> []
                                     then ts_Namespace (hc_TillerConfig config)
                                     else ''kube-system'')) (\<lambda>local.
           ret (''127.0.0.1:'' @ strconv_Itoa local))))"

text \<open>No client is made, and nil is returned, where a step fails; the error is only logged.\<close>

definition NewClient ::
  "('c, 'r, 'k) prog \<Rightarrow> ('k \<Rightarrow> string \<Rightarrow> ('c, 'r, int) prog) \<Rightarrow> HelmiConfig
     \<Rightarrow> ('c, 'r, Client option) prog" where
  "NewClient kube_client new_tunnel config =
     (let helmEnv = getHelmEnvironment config in
     andthen (attempt (handingHelmDirectors (es_Home helmEnv))) (\<lambda>err.
     case err of
       Inl _ \<Rightarrow> ret None
     | Inr _ \<Rightarrow>
         andthen (attempt (initRepos helmEnv config)) (\<lambda>repoErr.
         if ts_ForceRemoteRepo (hc_TillerConfig config) \<and> isl repoErr then ret None
         else andthen (attempt (getHelmClient kube_client new_tunnel config)) (\<lambda>helmClient.
              case helmClient of
                Inl _ \<Rightarrow> ret None
              | Inr _ \<Rightarrow> ret (Some \<lparr>client_env = helmEnv, client_config = config\<rparr>)))))"

section \<open>Which calls the operations make\<close>

text \<open>The calls that change what Tiller holds.\<close>

definition mutates :: "'c call \<Rightarrow> bool" where
  "mutates c = (case c of InstallReleaseFromChart _ _ _ \<Rightarrow> True
     | UpdateReleaseFromChart _ _ _ \<Rightarrow> True | DeleteRelease _ _ \<Rightarrow> True | _ \<Rightarrow> False)"

abbreviation quiet :: "'c call \<Rightarrow> bool" where "quiet c \<equiv> \<not> mutates c"

lemma mutates_simps [simp]:
  "mutates (InstallReleaseFromChart ch ns io)" "mutates (UpdateReleaseFromChart n ch uo)"
  "mutates (DeleteRelease n do)" "\<not> mutates (ReleaseStatus n)" "\<not> mutates (ReleaseContent n)"
  "\<not> mutates (ListReleases lo)" "\<not> mutates PingTiller" "\<not> mutates ListNodes"
  "\<not> mutates (LogValues n vs)" "\<not> mutates (LogDetails n d)" "\<not> mutates (ExecuteTemplate t)"
  "chart_call c \<Longrightarrow> \<not> mutates c"
  by (auto simp: mutates_def chart_call_def repo_call_def split: call.splits)

lemma keeps_ReleaseStatus: "P (ReleaseStatus n) \<Longrightarrow> calls.keeps P (ReleaseStatus_call n)"
  unfolding ReleaseStatus_call_def by (rule keeps_call_sum)

lemma keeps_ExistRelease: "P (ReleaseStatus n) \<Longrightarrow> calls.keeps P (ExistRelease n)"
  unfolding ExistRelease_def by (intro keeps_calls keeps_ReleaseStatus)

lemma keeps_getRelease: "P (ListReleases (listOpts n)) \<Longrightarrow> calls.keeps P (getRelease n)"
  unfolding getRelease_def by (intro keeps_calls)

lemma keeps_DeleteRelease: "P (DeleteRelease n deleteOpts) \<Longrightarrow> calls.keeps P (client_DeleteRelease n)"
  unfolding client_DeleteRelease_def by (intro keeps_calls)

lemma keeps_ParseReleaseValues: "P (ReleaseContent n) \<Longrightarrow> calls.keeps P (ParseReleaseValues n)"
  unfolding ParseReleaseValues_def by (intro keeps_calls)

lemma keeps_GetStatus: "P (ReleaseStatus n) \<Longrightarrow> calls.keeps P (client_GetStatus n)"
  unfolding client_GetStatus_def
  by (intro keeps_calls keeps_ReleaseStatus calls.keeps_read)

lemma keeps_ConvertInterfaceToByte: "calls.keeps P (ConvertInterfaceToByte vals)"
  unfolding ConvertInterfaceToByte_def by (intro keeps_calls)

lemma keeps_InstallRelease:
  assumes "\<And>c. chart_call c \<Longrightarrow> P c" "\<And>k. P (LogValues rel (displayValues k vals))" "P (ListReleases (listOpts rel))"
    "\<And>ch v. P (InstallReleaseFromChart ch ns (installOpts rel (\<not> acc) v))"
  shows "calls.keeps P (InstallRelease c rel cn ver off vals ns acc)"
  unfolding InstallRelease_def Let_def
  by (intro keeps_calls keeps_ConvertInterfaceToByte keeps_getChart [OF assms(1)] keeps_getRelease
      assms(2-4))

lemma keeps_UpdateRelease:
  assumes "\<And>c. chart_call c \<Longrightarrow> P c" "\<And>k. P (LogValues rel (displayValues k vals))" "P (ListReleases (listOpts rel))"
    "P (ReleaseStatus rel)"
    "\<And>ch v. P (UpdateReleaseFromChart rel ch (updateOpts rel (\<not> acc) v))"
  shows "calls.keeps P (UpdateRelease c rel cn ver off vals ns acc)"
  unfolding UpdateRelease_def Let_def
  by (intro keeps_calls keeps_ConvertInterfaceToByte keeps_ExistRelease keeps_getChart [OF assms(1)]
      keeps_getRelease assms(2-5))

section \<open>The changes a run makes\<close>

text \<open>\<open>adds ms\<close>: the calls since then that change what Tiller holds are \<open>ms\<close>, in this order.\<close>

definition adds :: "'c event list \<Rightarrow> ('c, 'r) world \<Rightarrow> ('c, 'r) world \<Rightarrow> bool" where
  "adds ms w w' \<longleftrightarrow> w_ext w' = w_ext w \<and> w_env w' = w_env w \<and>
     (\<exists>es. w_hist w' = w_hist w @ es \<and> filter (\<lambda>e. mutates (fst e)) es = ms)"

lemma adds_trans: "adds a u v \<Longrightarrow> adds b v w \<Longrightarrow> adds (a @ b) u w"
  unfolding adds_def by (elim conjE exE) auto

lemma adds_quiet: "only quiet w w' \<Longrightarrow> adds [] w w'"
  unfolding adds_def only_def by (auto simp: filter_empty_conv list_all_iff)

lemma adds_nothing: "adds ms w w \<Longrightarrow> ms = []"
  by (auto simp: adds_def)

lemma adds_refl [simp]: "adds [] w w"
  by (simp add: adds_def)

lemma adds_record: "mutates c \<Longrightarrow> adds [(c, ok)] w (record_call c ok w)"
  by (simp add: adds_def record_call_def)

text \<open>
  \<open>ends Q m\<close>: however \<open>m\<close> ends, the changes it made and its outcome satisfy \<open>Q\<close>; \<open>ends_if X Q m\<close>
  says so of the runs against parameters that satisfy \<open>X\<close>. The rules follow the program: what
  is quiet adds no change, and a call that changes something is put in front of the changes of
  the rest.
\<close>

definition ends_if ::
  "(('c, 'r) ext \<Rightarrow> bool) \<Rightarrow> ('c event list \<Rightarrow> 'a result \<Rightarrow> bool) \<Rightarrow> ('c, 'r, 'a) prog \<Rightarrow> bool" where
  "ends_if X Q m \<longleftrightarrow>
     (\<forall>w r w'. X (w_ext w) \<longrightarrow> m w = (r, w') \<longrightarrow> (\<exists>ms. adds ms w w' \<and> Q ms r))"

abbreviation ends :: "('c event list \<Rightarrow> 'a result \<Rightarrow> bool) \<Rightarrow> ('c, 'r, 'a) prog \<Rightarrow> bool" where
  "ends Q m \<equiv> ends_if (\<lambda>_. True) Q m"

lemma ends_ifI:
  "(\<And>w r w'. X (w_ext w) \<Longrightarrow> m w = (r, w') \<Longrightarrow> \<exists>ms. adds ms w w' \<and> Q ms r) \<Longrightarrow> ends_if X Q m"
  by (simp add: ends_if_def)

lemma ends_ifE:
  assumes "ends_if X Q m" "m w = (r, w')" "X (w_ext w)"
  obtains ms where "adds ms w w'" "Q ms r"
  using assms unfolding ends_if_def by blast

lemma endsE:
  assumes "ends Q m" "m w = (r, w')"
  obtains ms where "adds ms w w'" "Q ms r"
  using assms by (blast elim: ends_ifE)

lemma endsI: "(\<And>w r w'. m w = (r, w') \<Longrightarrow> \<exists>ms. adds ms w w' \<and> Q ms r) \<Longrightarrow> ends Q m"
  by (simp add: ends_if_def)

lemma quiet_run: "calls.keeps quiet m \<Longrightarrow> m w = (r, w') \<Longrightarrow> adds [] w w'"
  by (rule adds_quiet) (rule calls.keepsD)

lemma adds_ext: "adds ms w w' \<Longrightarrow> w_ext w' = w_ext w"
  by (simp add: adds_def)

lemma ends_quiet: "calls.keeps quiet m \<Longrightarrow> (\<And>r. Q [] r) \<Longrightarrow> ends_if X Q m"
  by (rule ends_ifI) (blast dest: quiet_run)

lemma ends_value: "ends Q (ret x) \<longleftrightarrow> Q [] (Ok x)" "ends Q (fail e) \<longleftrightarrow> Q [] (Err e)"
  "ends Q (lift r) \<longleftrightarrow> Q [] r"
  unfolding ends_if_def by (auto intro: adds_refl dest: adds_nothing)

lemma ends_if_fail: "Q [] (Err e) \<Longrightarrow> ends_if X Q (fail e)"
  by (auto simp: ends_if_def intro: adds_refl)

text \<open>\<open>R\<close> is what is known of the value of a quiet part.\<close>

lemma ends_quiet_then_value:
  assumes m: "calls.keeps quiet m" and stop: "\<And>e. Q [] (Err e)" "\<And>p. Q [] (Panic p)"
    and R: "\<And>w x w'. X (w_ext w) \<Longrightarrow> m w = (Ok x, w') \<Longrightarrow> R x"
    and f: "\<And>x. R x \<Longrightarrow> ends_if X Q (f x)"
  shows "ends_if X Q (andthen m f)"
proof (rule ends_ifI)
  fix w r w'
  assume X: "X (w_ext w)" and run: "andthen m f w = (r, w')"
  obtain q v where q: "m w = (q, v)" by (cases "m w")
  have v: "adds [] w v" by (rule quiet_run [OF m q])
  with X have Xv: "X (w_ext v)" by (simp add: adds_ext)
  show "\<exists>ms. adds ms w w' \<and> Q ms r"
  proof (cases q)
    case (Ok x)
    with q X have "R x" by (blast intro: R)
    moreover from Ok q run have "f x v = (r, w')" by simp
    ultimately obtain ms where "adds ms v w'" "Q ms r" using f Xv by (blast elim: ends_ifE)
    with adds_trans [OF v] show ?thesis by fastforce
  next
    case (Err e)
    with q run v stop show ?thesis by auto
  next
    case (Panic p)
    with q run v stop show ?thesis by auto
  qed
qed

lemma ends_quiet_then:
  "calls.keeps quiet m \<Longrightarrow> (\<And>e. Q [] (Err e)) \<Longrightarrow> (\<And>p. Q [] (Panic p)) \<Longrightarrow>
     (\<And>x. ends_if X Q (f x)) \<Longrightarrow> ends_if X Q (andthen m f)"
  by (rule ends_quiet_then_value [where R = "\<lambda>_. True"]) auto

lemma ends_call_then:
  assumes c: "mutates c" and stop: "\<And>e. Q [(c, False)] (Err e)"
    and g: "\<And>x. ends_if X (\<lambda>ms. Q ((c, True) # ms)) (g x)"
  shows "ends_if X Q (andthen (call_sum c f) g)"
proof (rule ends_ifI)
  fix w r w'
  assume X: "X (w_ext w)" and run: "andthen (call_sum c f) g w = (r, w')"
  show "\<exists>ms. adds ms w w' \<and> Q ms r"
  proof (cases "f (w_ext w) (w_hist w)")
    case (Inl e)
    with run have "r = Err (Errorf e)" "w' = record_call c False w"
      by (auto simp: call_sum_def andthen_def)
    with adds_record [OF c] stop show ?thesis by blast
  next
    case (Inr x)
    note rec = adds_record [OF c, of True w]
    from Inr run have "g x (record_call c True w) = (r, w')" by (auto simp: call_sum_def andthen_def)
    with g X obtain ms where "adds ms (record_call c True w) w'" "Q ((c, True) # ms) r"
      by (metis ends_ifE adds_ext [OF rec])
    with adds_trans [OF rec] show ?thesis by fastforce
  qed
qed

lemma ends_cases:
  "\<lbrakk>b \<Longrightarrow> ends_if X Q m; \<not> b \<Longrightarrow> ends_if X Q n\<rbrakk> \<Longrightarrow> ends_if X Q (if b then m else n)"
  by simp

lemma ends_mono: "ends_if X Q m \<Longrightarrow> (\<And>ms r. Q ms r \<Longrightarrow> Q' ms r) \<Longrightarrow> ends_if X Q' m"
  unfolding ends_if_def by blast

text \<open>
  Installing: a value is returned only after Tiller accepted the release, and no other change
  is made; the release has the name, the namespace and the wait flag asked for.
\<close>

definition install_event ::
  "'c \<Rightarrow> string \<Rightarrow> string \<Rightarrow> bool \<Rightarrow> string \<Rightarrow> bool \<Rightarrow> 'c event" where
  "install_event ch rel ns wait vals ok =
     (InstallReleaseFromChart ch ns (installOpts rel wait vals), ok)"

definition update_event :: "'c \<Rightarrow> string \<Rightarrow> bool \<Rightarrow> string \<Rightarrow> bool \<Rightarrow> 'c event" where
  "update_event ch rel wait vals ok = (UpdateReleaseFromChart rel ch (updateOpts rel wait vals), ok)"

definition delete_event :: "string \<Rightarrow> bool \<Rightarrow> 'c event" where
  "delete_event rel ok = (DeleteRelease rel deleteOpts, ok)"

definition install_outcome :: "string \<Rightarrow> string \<Rightarrow> bool \<Rightarrow> 'c event list \<Rightarrow> 'a result \<Rightarrow> bool" where
  "install_outcome rel ns wait ms r \<longleftrightarrow>
     ms = [] \<and> (\<forall>x. r \<noteq> Ok x) \<or>
     (\<exists>ch v ok. ms = [install_event ch rel ns wait v ok] \<and> (ok \<or> (\<exists>e. r = Err e)))"

lemma keeps_getChart_quiet: "calls.keeps quiet (getChart config envs n v f)"
  by (rule keeps_getChart) simp

lemmas quiet_parts = keeps_ConvertInterfaceToByte keeps_getChart_quiet keeps_next_seed
  keeps_log_call keeps_getRelease keeps_ExistRelease calls.keeps_wrap_err

lemma InstallRelease_ends:
  "ends (install_outcome rel ns (\<not> acc)) (InstallRelease c rel cn ver off vals ns acc)"
  unfolding InstallRelease_def Let_def
  by (intro ends_quiet_then ends_call_then quiet_parts)
     (auto simp: install_outcome_def install_event_def split: option.splits
       intro!: ends_quiet keeps_calls keeps_getRelease)

text \<open>Without values the release gets what the empty map is marshalled to.\<close>

lemma run_ConvertInterfaceToByte_empty:
  "ConvertInterfaceToByte [] w = (Ok v, w') \<Longrightarrow> ext_yaml_Marshal (w_ext w) (GMap []) = Inr v"
  by (cases "ext_yaml_Marshal (w_ext w) (GMap [])")
     (auto simp: ConvertInterfaceToByte_def next_seed_def andthen_def)

definition bare_install_outcome ::
  "string + string \<Rightarrow> string \<Rightarrow> bool \<Rightarrow> 'c event list \<Rightarrow> 'a result \<Rightarrow> bool" where
  "bare_install_outcome none rel wait ms r \<longleftrightarrow>
     ms = [] \<and> (\<forall>x. r \<noteq> Ok x) \<or>
     (\<exists>ch ns v ok. ms = [install_event ch rel ns wait v ok] \<and> (ok \<or> (\<exists>e. r = Err e)) \<and> none = Inr v)"

lemma bare_install_outcomeI:
  "\<forall>x. r \<noteq> Ok x \<Longrightarrow> bare_install_outcome none rel wait [] r"
  "none = Inr v \<Longrightarrow> ok \<or> (\<exists>e. r = Err e) \<Longrightarrow>
     bare_install_outcome none rel wait [(InstallReleaseFromChart ch ns (installOpts rel wait v), ok)] r"
  unfolding bare_install_outcome_def install_event_def by blast+

lemma InstallRelease_bare:
  "ends_if (\<lambda>x. X x \<and> ext_yaml_Marshal x (GMap []) = none)
     (bare_install_outcome none rel (\<not> acc)) (InstallRelease c rel cn ver off [] ns acc)"
proof -
  let ?X = "\<lambda>x. X x \<and> ext_yaml_Marshal x (GMap []) = none"
  let ?install = "\<lambda>rawValues. andthen (wrap_err (''install release '' @ cn @ '', cause an error: '')
         (getChart (client_config c) (client_env c) cn ver off)) (\<lambda>chart.
       andthen (call_sum (InstallReleaseFromChart chart ns (installOpts rel (\<not> acc) rawValues))
          (\<lambda>x h. ext_InstallRelease x h chart ns (installOpts rel (\<not> acc) rawValues)))
        (\<lambda>res. case res of None \<Rightarrow> getRelease rel | Some r \<Rightarrow> ret (Some r)))"
  have "ends_if ?X (bare_install_outcome none rel (\<not> acc)) (?install v)" if "none = Inr v" for v
    using that by (intro ends_quiet_then ends_call_then quiet_parts)
      (auto split: option.splits
        intro!: bare_install_outcomeI ends_quiet keeps_calls keeps_getRelease)
  then have rest: "ends_if ?X (bare_install_outcome none rel (\<not> acc))
    (andthen (wrap_err ''convert values to yaml values cause an error: '' (ConvertInterfaceToByte [])) ?install)"
    by (intro ends_quiet_then_value [where R = "\<lambda>v. none = Inr v"] quiet_parts)
       (auto simp: bare_install_outcomeI wrap_err_Ok_iff dest: run_ConvertInterfaceToByte_empty)
  show ?thesis
    unfolding InstallRelease_def Let_def
    by (intro rest ends_quiet_then quiet_parts) (simp_all add: bare_install_outcomeI)
qed

text \<open>
  Updating: whatever is returned, at most one change was made, the upgrade asked for; a value
  is returned only after it was attempted.
\<close>

definition update_outcome :: "string \<Rightarrow> bool \<Rightarrow> 'c event list \<Rightarrow> 'a result \<Rightarrow> bool" where
  "update_outcome rel wait ms r \<longleftrightarrow>
     ms = [] \<and> (\<forall>x. r \<noteq> Ok x) \<or> (\<exists>ch v ok. ms = [update_event ch rel wait v ok])"

lemma ends_update_then:
  assumes "\<And>res err. (\<exists>x h. X x \<and> ext_UpdateRelease x h rel ch opts = (res, err)) \<Longrightarrow>
      ends_if X (\<lambda>ms. Q ((UpdateReleaseFromChart rel ch opts, err = None) # ms)) (g (res, err))"
  shows "ends_if X Q (andthen (update_call rel ch opts) g)"
proof (rule ends_ifI)
  fix w r w'
  assume X: "X (w_ext w)" and run: "andthen (update_call rel ch opts) g w = (r, w')"
  let ?c = "UpdateReleaseFromChart rel ch opts"
  obtain res err where x: "ext_UpdateRelease (w_ext w) (w_hist w) rel ch opts = (res, err)"
    by (cases "ext_UpdateRelease (w_ext w) (w_hist w) rel ch opts")
  with run have g: "g (res, err) (record_call ?c (err = None) w) = (r, w')"
    by (simp add: update_call_def andthen_def)
  have rec: "adds [(?c, err = None)] w (record_call ?c (err = None) w)"
    by (rule adds_record) simp
  from assms [of res err] X x
  have "ends_if X (\<lambda>ms. Q ((?c, err = None) # ms)) (g (res, err))" by blast
  from ends_ifE [OF this g] X obtain ms
    where ms: "adds ms (record_call ?c (err = None) w) w'" "Q ((?c, err = None) # ms) r"
    by (auto simp: adds_ext [OF rec])
  from adds_trans [OF rec ms(1)] ms(2) show "\<exists>ms. adds ms w w' \<and> Q ms r" by fastforce
qed

lemma UpdateRelease_ends:
  "ends (update_outcome rel (\<not> acc)) (UpdateRelease c rel cn ver off vals ns acc)"
  unfolding UpdateRelease_def Let_def
  by (intro ends_quiet_then ends_update_then ends_cases quiet_parts)
     (auto simp: update_outcome_def update_event_def ends_value split: option.splits
       intro!: ends_quiet_then ends_update_then ends_quiet keeps_calls quiet_parts)

text \<open>
  When Tiller refuses every upgrade and lists the release, the error of the upgrade is lost.
\<close>

definition refuses_upgrades :: "'r \<Rightarrow> ('c, 'r) ext \<Rightarrow> bool" where
  "refuses_upgrades rls x \<longleftrightarrow>
     (\<forall>h n ch opts. \<exists>e. ext_UpdateRelease x h n ch opts = (None, Some e)) \<and>
     (\<forall>h opts. ext_ListReleases x h opts = Inr (1, [rls]))"

definition refused_outcome :: "string \<Rightarrow> bool \<Rightarrow> 'c event list \<Rightarrow> 'a result \<Rightarrow> bool" where
  "refused_outcome rel wait ms r \<longleftrightarrow>
     ms = [] \<and> (\<forall>x. r \<noteq> Ok x) \<or> (\<exists>ch v y. ms = [update_event ch rel wait v False] \<and> r = Ok y)"

lemma run_getRelease_listed:
  "refuses_upgrades rls (w_ext w) \<Longrightarrow>
     getRelease rel w = (Ok (Some rls), record_call (ListReleases (listOpts rel)) True w)"
  by (simp add: refuses_upgrades_def getRelease_def call_sum_def andthen_def index_at_def)

lemma ends_refused:
  fixes rls :: 'r and Q :: "'c event list \<Rightarrow> 'r option result \<Rightarrow> bool"
  assumes "Q [(UpdateReleaseFromChart rel ch opts, False)] (Ok (Some rls))"
  shows "ends_if (refuses_upgrades rls) Q (andthen (update_call rel ch opts) (\<lambda>(res, err).
     case res of
       Some r \<Rightarrow> ret (Some r)
     | None \<Rightarrow>
         andthen (wrap_err s (getRelease rel)) (\<lambda>rls.
         case rls of
           Some r \<Rightarrow> ret (Some r)
         | None \<Rightarrow> (case err of Some e \<Rightarrow> fail (Errorf e) | None \<Rightarrow> ret None))))"
    (is "ends_if _ Q ?tail")
proof (rule ends_ifI)
  fix w w' :: "('c, 'r) world" and r
  assume X: "refuses_upgrades rls (w_ext w)" and run: "?tail w = (r, w')"
  let ?u = "record_call (UpdateReleaseFromChart rel ch opts) False w"
  have rec: "adds [(UpdateReleaseFromChart rel ch opts, False)] w ?u" by (rule adds_record) simp
  from X have "refuses_upgrades rls (w_ext ?u)" by (simp add: adds_ext [OF rec])
  note get = run_getRelease_listed [OF this, of rel]
  from X obtain e where "ext_UpdateRelease (w_ext w) (w_hist w) rel ch opts = (None, Some e)"
    unfolding refuses_upgrades_def by blast
  then have "update_call rel ch opts w = (Ok (None, Some e), ?u)" by (simp add: update_call_def)
  with run get have "r = Ok (Some rls)" and w': "w' = record_call (ListReleases (listOpts rel)) True ?u"
    by (auto simp: andthen_def wrap_err_def)
  moreover have "adds [] ?u w'"
    unfolding w' by (rule quiet_run [OF keeps_getRelease get]) simp
  ultimately show "\<exists>ms. adds ms w w' \<and> Q ms r" using assms adds_trans [OF rec] by fastforce
qed

lemma UpdateRelease_refused:
  "ends_if (refuses_upgrades rls) (refused_outcome rel (\<not> acc)) (UpdateRelease c rel cn ver off vals ns acc)"
  unfolding UpdateRelease_def Let_def
  by (intro ends_refused ends_quiet_then ends_cases ends_if_fail quiet_parts)
     (auto simp: refused_outcome_def update_event_def)

text \<open>Deleting: one call, and its error is the error returned.\<close>

lemma DeleteRelease_ends:
  "ends (\<lambda>ms r. ms = [delete_event rel True] \<and> r = Ok () \<or>
           (\<exists>e. ms = [delete_event rel False] \<and> r = Err (Errorf (''delete release cause an error: '' @ e))))
     (client_DeleteRelease rel)"
proof (rule endsI)
  fix w r w'
  assume run: "client_DeleteRelease rel w = (r, w')"
  have rec: "adds [delete_event rel ok] w (record_call (DeleteRelease rel deleteOpts) ok w)" for ok
    unfolding delete_event_def by (rule adds_record) simp
  show "\<exists>ms. adds ms w w' \<and> (ms = [delete_event rel True] \<and> r = Ok () \<or>
    (\<exists>e. ms = [delete_event rel False] \<and> r = Err (Errorf (''delete release cause an error: '' @ e))))"
    using run rec by (cases "ext_DeleteRelease (w_ext w) (w_hist w) rel deleteOpts")
      (auto simp: client_DeleteRelease_def call_opt_def call_sum_def wrap_err_def)
qed

lemma outcome_map:
  "install_outcome rel ns wait ms r \<Longrightarrow> install_outcome rel ns wait ms (map_result g r)"
  "update_outcome rel wait ms r \<Longrightarrow> update_outcome rel wait ms (map_result g r)"
  unfolding install_outcome_def update_outcome_def by auto

section \<open>Properties\<close>

lemma map_of_foldl_map:
  "map_of (foldl (\<lambda>d (k, v). gm_set d k (f k v)) d es) =
     map_of d ++ map_of (rev (map (\<lambda>(k, v). (k, f k v)) es))"
  by (induction es arbitrary: d) (auto simp: map_add_def fun_eq_iff split: option.splits)

lemma map_of_map_keys: "map_of (map (\<lambda>(k, v). (k, f k v)) es) k = map_option (f k) (map_of es k)"
  by (induction es) auto

lemma map_of_displayValues:
  assumes "gm_wf values"
  shows "map_of (displayValues ns values) name =
    map_option (\<lambda>v. if is_secret name then ''hidden'' else v) (map_of values name)"
proof -
  let ?f = "\<lambda>name value. if is_secret name then ''hidden'' else value"
  let ?es = "map (\<lambda>(k, v). (k, ?f k v)) (go_range ns values)"
  have "distinct (map fst (go_range ns values))" using assms by (simp flip: gm_wf_def)
  then have "gm_wf ?es" by (simp add: gm_wf_def comp_def case_prod_unfold)
  from map_of_rev_wf [OF this] show ?thesis
    using assms by (simp add: displayValues_def map_of_foldl_map map_of_map_keys)
qed

text \<open>A log line of values shows no password.\<close>

definition shows_no_secret :: "'c call \<Rightarrow> bool" where
  "shows_no_secret c = (case c of
     LogValues n values \<Rightarrow> list_all (\<lambda>(name, v). is_secret name \<longrightarrow> v = ''hidden'') values
   | _ \<Rightarrow> True)"

lemma displayValues_secret: "shows_no_secret (LogValues n (displayValues ns values))"
  unfolding shows_no_secret_def displayValues_def call.case
  by (rule foldl_gm_set_all) simp_all

lemma shows_no_secret_simps [simp]:
  "chart_call c \<Longrightarrow> shows_no_secret c" "shows_no_secret (ListReleases lo)" "shows_no_secret (ReleaseStatus n)"
  "shows_no_secret (InstallReleaseFromChart ch ns io)" "shows_no_secret (UpdateReleaseFromChart n ch uo)"
  by (auto simp: shows_no_secret_def chart_call_def repo_call_def split: call.splits)



end
