(* ===== verification/Release.thy ===== *)
theory Release
  imports Helm_Client
begin

text \<open>
  Package \<open>release\<close>: from an instance of a service to a Helm release. The name of the release,
  its chart, version, values and namespace are computed here; the operations are composed of
  those of the client. An error the code only logs is not kept.
\<close>

section \<open>Names\<close>

text \<open>The name of the release of an instance. An id too short for the slice panics.\<close>

definition getName :: "string \<Rightarrow> string result" where
  "getName value =
     (if strings_HasPrefix value ''helmi'' then Ok value
      else let name = strings_ToLower value;
               name = strings_ReplaceAll name ''-'' [];
               name = strings_ReplaceAll name ''_'' []
           in rbind (Go_Strings.slice name 0 14) (\<lambda>n. Ok (''helmi'' @ n)))"

text \<open>What remains of an id.\<close>

definition stripped :: "string \<Rightarrow> string" where
  "stripped value = filter (\<lambda>c. c \<noteq> CHR ''-'' \<and> c \<noteq> CHR ''_'') (strings_ToLower value)"

lemma getName_stripped:
  "\<not> strings_HasPrefix value ''helmi'' \<Longrightarrow> getName value =
     (if length (stripped value) < 14 then Panic SliceOutOfRange
      else Ok (''helmi'' @ take 14 (stripped value)))"
  by (simp add: getName_def stripped_def ReplaceAll_remove Go_Strings.slice_def Let_def)

section \<open>What is installed\<close>

definition release_getChart :: "Service \<Rightarrow> Plan \<Rightarrow> string result" where
  "release_getChart service plan =
     (if length (plan_Chart plan) > 0 then Ok (plan_Chart plan)
      else if length (service_Chart service) > 0 then Ok (service_Chart service)
      else Err (Errorf ''no helm chart specified''))"

definition getChartVersion :: "Service \<Rightarrow> Plan \<Rightarrow> string result" where
  "getChartVersion service plan =
     (if length (plan_ChartVersion plan) > 0 then Ok (plan_ChartVersion plan)
      else if length (service_ChartVersion service) > 0 then Ok (service_ChartVersion service)
      else Err (Errorf ''no helm chart version specified''))"

definition context_hit :: "string \<Rightarrow> string \<times> string \<Rightarrow> string option" where
  "context_hit name = (\<lambda>(key, value). if strings_EqualFold key name then Some value else None)"

definition find_context :: "nat list \<Rightarrow> string \<Rightarrow> (string, string) gomap \<Rightarrow> string option" where
  "find_context ns name context = first_hit (context_hit name) (go_range ns context)"

interpretation context_search: map_search context_hit find_context
  by unfold_locales (simp add: find_context_def)

definition getChartNamespace ::
  "nat list \<Rightarrow> nat list \<Rightarrow> (string, string) gomap \<Rightarrow> (string, string) gomap \<Rightarrow> string" where
  "getChartNamespace ns1 ns2 context parameters =
     (case find_context ns1 ''namespace'' context of
        Some value \<Rightarrow> value
      | None \<Rightarrow> (case find_context ns2 ''organization_guid'' context of
          Some value \<Rightarrow> ''cf-'' @ value
        | None \<Rightarrow> []))"

text \<open>A context in which no two keys differ only in case leaves the loop no choice.\<close>

definition keys_distinct :: "(string, string) gomap \<Rightarrow> bool" where
  "keys_distinct m \<longleftrightarrow> (\<forall>k v k' v'. (k, v) \<in> set m \<longrightarrow> (k', v') \<in> set m \<longrightarrow>
     strings_EqualFold k k' \<longrightarrow> v = v')"

lemma context_hit_SomeE:
  assumes "context_hit name e = Some v"
  obtains k where "e = (k, v)" "strings_EqualFold k name"
  using assms by (cases e) (auto simp: context_hit_def split: if_splits)

lemma keys_distinctD:
  "keys_distinct m \<Longrightarrow> (k, v) \<in> set m \<Longrightarrow> (k', v') \<in> set m \<Longrightarrow>
     strings_EqualFold k q \<Longrightarrow> strings_EqualFold k' q \<Longrightarrow> v = v'"
  unfolding keys_distinct_def strings_EqualFold_def by metis

lemma find_context_order_free:
  assumes "keys_distinct m"
  shows "find_context ns name m = find_context ns' name m"
  by (rule context_search.search_order_free) (metis context_hit_SomeE keys_distinctD [OF assms], simp)

lemma find_context_Some:
  assumes "keys_distinct m" "(k, v) \<in> set m" "strings_EqualFold k name"
  shows "find_context ns name m = Some v"
proof -
  have "context_hit name (k, v) = Some v" using assms(3) by (simp add: context_hit_def)
  then obtain ns' where "find_context ns' name m = Some v"
    using context_search.search_any_hit [OF assms(2)] by blast
  then show ?thesis by (simp add: find_context_order_free [OF assms(1), of ns name ns'])
qed

lemma find_context_None:
  "find_context ns name m = None \<longleftrightarrow> (\<forall>(k, v) \<in> set m. \<not> strings_EqualFold k name)"
  unfolding context_search.search_complete by (auto simp: context_hit_def split: if_splits)

section \<open>Lookups and values as operations\<close>

definition catalog_GetService :: "Catalog \<Rightarrow> string \<Rightarrow> ('c, 'r, Service) prog" where
  "catalog_GetService c service = andthen next_seed (\<lambda>ns. ret (GetService ns c service))"

definition catalog_GetServicePlan :: "Catalog \<Rightarrow> string \<Rightarrow> string \<Rightarrow> ('c, 'r, Plan) prog" where
  "catalog_GetServicePlan c service plan =
     andthen next_seed (\<lambda>ns. ret (GetServicePlan ns c service plan))"

definition getChartValues ::
  "Service \<Rightarrow> Plan \<Rightarrow> (string, string) gomap \<Rightarrow> ('c, 'r, (string, string) gomap) prog" where
  "getChartValues service plan parameters =
     andthen next_seed (\<lambda>ns.
     andthen (with_template (service_valuesTemplate service) (\<lambda>w.
                ChartValues (ext_execute_values (w_ext w) (w_hist w)) (ext_yaml_values (w_ext w))
                  ns service plan)) (\<lambda>chartValues.
     andthen next_seed (\<lambda>ns1.
     andthen next_seed (\<lambda>ns2.
     ret (gm_copy ns2 parameters (gm_copy ns1 chartValues []))))))"

definition chartNamespace ::
  "(string, string) gomap \<Rightarrow> (string, string) gomap \<Rightarrow> ('c, 'r, string) prog" where
  "chartNamespace context parameters =
     andthen next_seed (\<lambda>ns1. andthen next_seed (\<lambda>ns2.
     ret (getChartNamespace ns1 ns2 context parameters)))"

section \<open>Operations\<close>

text \<open>What the code makes of a version that is missing, and of values that could not be made.\<close>

definition or_else :: "'a \<Rightarrow> 'a result \<Rightarrow> 'a" where
  "or_else d r = (case r of Ok x \<Rightarrow> x | _ \<Rightarrow> d)"

definition Install ::
  "Catalog \<Rightarrow> string \<Rightarrow> string \<Rightarrow> string \<Rightarrow> bool \<Rightarrow> (string, string) gomap \<Rightarrow> (string, string) gomap
     \<Rightarrow> Client \<Rightarrow> ('c, 'r, unit) prog" where
  "Install catalog serviceId planId iid acceptsIncomplete parameters context client =
     andthen (lift (getName iid)) (\<lambda>name.
     andthen (catalog_GetService catalog serviceId) (\<lambda>service.
     andthen (catalog_GetServicePlan catalog serviceId planId) (\<lambda>plan.
     andthen (attempt (getChartValues service plan parameters)) (\<lambda>chartValues.
     andthen (chartNamespace context parameters) (\<lambda>namespace.
     andthen (lift (release_getChart service plan)) (\<lambda>chart.
     andthen (InstallRelease client name chart (or_else [] (getChartVersion service plan))
                (service_ChartOffline service)
                (case chartValues of Inr values \<Rightarrow> values | Inl _ \<Rightarrow> [])
                namespace acceptsIncomplete) (\<lambda>_.
     ret ())))))))"

definition Update ::
  "string \<Rightarrow> Catalog \<Rightarrow> string \<Rightarrow> string \<Rightarrow> Client \<Rightarrow> bool \<Rightarrow> (string, string) gomap
     \<Rightarrow> (string, string) gomap \<Rightarrow> ('c, 'r, unit) prog" where
  "Update iid catalog serviceId planId client acceptsIncomplete parameters context =
     andthen (lift (getName iid)) (\<lambda>name.
     andthen (catalog_GetService catalog serviceId) (\<lambda>service.
     andthen (catalog_GetServicePlan catalog serviceId planId) (\<lambda>plan.
     andthen (chartNamespace context parameters) (\<lambda>namespace.
     andthen (lift (release_getChart service plan)) (\<lambda>chart.
     andthen (UpdateRelease client name chart (or_else [] (getChartVersion service plan))
                (service_ChartOffline service) parameters namespace acceptsIncomplete) (\<lambda>_.
     ret ()))))))"

definition Exists :: "string \<Rightarrow> ('c, 'r, bool) prog" where
  "Exists iid = andthen (lift (getName iid)) ExistRelease"

definition Delete :: "string \<Rightarrow> ('c, 'r, unit) prog" where
  "Delete iid = andthen (lift (getName iid)) client_DeleteRelease"

record ReleaseState =
  rs_IsFailed :: bool
  rs_IsDeployed :: bool
  rs_IsAvailable :: bool
  rs_IsDeleted :: bool
  rs_IsDeleting :: bool

definition state_of_status :: "Status \<Rightarrow> ReleaseState" where
  "state_of_status st =
     \<lparr>rs_IsFailed = st_IsFailed st, rs_IsDeployed = st_IsDeployed st,
      rs_IsAvailable = (st_AvailableNodes st \<ge> st_DesiredNodes st),
      rs_IsDeleted = st_IsDeployed st, rs_IsDeleting = st_IsDeleting st\<rparr>"

definition GetStatus :: "string \<Rightarrow> ('c, 'r, ReleaseState) prog" where
  "GetStatus iid =
     andthen (lift (getName iid)) (\<lambda>name.
     andthen (attempt (client_GetStatus name)) (\<lambda>st.
     case st of
       Inl err \<Rightarrow> andthen (attempt (ExistRelease name)) (\<lambda>exists. fail err)
     | Inr st \<Rightarrow> ret (state_of_status st)))"

definition GetCredentials ::
  "Catalog \<Rightarrow> string \<Rightarrow> string \<Rightarrow> string \<Rightarrow> ('c, 'r, (string, gval) gomap option) prog" where
  "GetCredentials catalog serviceId planId iid =
     andthen (lift (getName iid)) (\<lambda>name.
     andthen (catalog_GetService catalog serviceId) (\<lambda>service.
     andthen (catalog_GetServicePlan catalog serviceId planId) (\<lambda>plan.
     andthen (attempt (client_GetStatus name)) (\<lambda>st.
     case st of
       Inl err \<Rightarrow> andthen (attempt (ExistRelease name)) (\<lambda>exists. fail err)
     | Inr st \<Rightarrow>
         andthen (call_sum ListNodes (\<lambda>x h. ext_ListNodes x h)) (\<lambda>nodes.
         andthen (ParseReleaseValues name) (\<lambda>values.
         andthen credential_seeds (\<lambda>(seeds, port_seeds).
         andthen (attempt (with_template (service_credentialsTemplate service) (\<lambda>w.
                    UserCredentials (ext_execute_credentials (w_ext w) (w_hist w))
                      (ext_yaml_credentials (w_ext w)) (w_env w) seeds port_seeds
                      service plan nodes st values))) (\<lambda>credentials.
         ret (case credentials of Inr c \<Rightarrow> c | Inl _ \<Rightarrow> None)))))))))"

section \<open>Which calls the operations make\<close>

text \<open>
  An operation on an instance speaks to Tiller about the release of its name only.
\<close>

definition about :: "string \<Rightarrow> 'c call \<Rightarrow> bool" where
  "about name c = (case c of
     ReleaseStatus n \<Rightarrow> n = name
   | InstallReleaseFromChart ch ns opts \<Rightarrow> opts_name opts = name
   | UpdateReleaseFromChart n ch opts \<Rightarrow> n = name
   | DeleteRelease n opts \<Rightarrow> n = name
   | ReleaseContent n \<Rightarrow> n = name
   | ListReleases opts \<Rightarrow> opts = listOpts name
   | LogValues n vs \<Rightarrow> n = name
   | _ \<Rightarrow> True)"

lemma about_simps [simp]:
  "about n (ReleaseStatus n)" "about n (InstallReleaseFromChart ch ns (installOpts n wait v))"
  "about n (UpdateReleaseFromChart n ch uo)" "about n (DeleteRelease n do)" "about n (ReleaseContent n)"
  "about n (ListReleases (listOpts n))" "about n (LogValues n vs)" "about n ListNodes"
  "about n (ExecuteTemplate t)" "chart_call c \<Longrightarrow> about n c"
  by (auto simp: about_def installOpts_def chart_call_def repo_call_def split: call.splits)

text \<open>After the name is known, or not.\<close>

lemma keeps_named:
  assumes "\<And>name. getName iid = Ok name \<Longrightarrow> calls.keeps P (f name)"
  shows "calls.keeps P (andthen (lift (getName iid)) f)"
proof (rule calls.keepsI)
  fix w r w'
  assume "andthen (lift (getName iid)) f w = (r, w')"
  then show "only P w w'"
    using assms by (cases "getName iid") (auto simp: calls.rel_refl dest: calls.keepsD)
qed

lemma keeps_lookups:
  "calls.keeps P (catalog_GetService c s)" "calls.keeps P (catalog_GetServicePlan c s p)"
  "calls.keeps P (chartNamespace ctx ps)"
  unfolding catalog_GetService_def catalog_GetServicePlan_def chartNamespace_def
  by (intro keeps_calls)+

lemma keeps_getChartValues:
  "(\<And>t. P (ExecuteTemplate t)) \<Longrightarrow> calls.keeps P (getChartValues s p ps)"
  unfolding getChartValues_def by (intro keeps_calls)

lemma keeps_Exists:
  "(\<And>n. getName iid = Ok n \<Longrightarrow> P (ReleaseStatus n)) \<Longrightarrow> calls.keeps P (Exists iid)"
  unfolding Exists_def by (intro keeps_named keeps_ExistRelease)

lemma keeps_Delete:
  "(\<And>n. getName iid = Ok n \<Longrightarrow> P (DeleteRelease n deleteOpts)) \<Longrightarrow> calls.keeps P (Delete iid)"
  unfolding Delete_def by (intro keeps_named keeps_DeleteRelease)

lemma keeps_release_GetStatus:
  "(\<And>n. getName iid = Ok n \<Longrightarrow> P (ReleaseStatus n)) \<Longrightarrow> calls.keeps P (GetStatus iid)"
  unfolding GetStatus_def by (intro keeps_named keeps_calls keeps_GetStatus keeps_ExistRelease)

lemma keeps_GetCredentials:
  assumes "\<And>n. getName iid = Ok n \<Longrightarrow> P (ReleaseStatus n)"
    "\<And>n. getName iid = Ok n \<Longrightarrow> P (ReleaseContent n)" "P ListNodes" "\<And>t. P (ExecuteTemplate t)"
  shows "calls.keeps P (GetCredentials c s p iid)"
  unfolding GetCredentials_def
  by (intro keeps_named keeps_calls keeps_lookups keeps_GetStatus keeps_ExistRelease
      keeps_ParseReleaseValues assms)

lemma keeps_Install:
  assumes "\<And>c. chart_call c \<Longrightarrow> P c" "\<And>t. P (ExecuteTemplate t)"
    "\<And>n vs. getName iid = Ok n \<Longrightarrow> P (LogValues n vs)"
    "\<And>n. getName iid = Ok n \<Longrightarrow> P (ListReleases (listOpts n))"
    "\<And>n ch ns v. getName iid = Ok n \<Longrightarrow> P (InstallReleaseFromChart ch ns (installOpts n (\<not> acc) v))"
  shows "calls.keeps P (Install c s p iid acc ps ctx cl)"
  unfolding Install_def
  by (intro keeps_named keeps_calls keeps_lookups keeps_getChartValues keeps_InstallRelease
      assms(2-5)) (rule assms(1))

lemma keeps_Update:
  assumes "\<And>c. chart_call c \<Longrightarrow> P c"
    "\<And>n vs. getName iid = Ok n \<Longrightarrow> P (LogValues n vs)"
    "\<And>n. getName iid = Ok n \<Longrightarrow> P (ListReleases (listOpts n))"
    "\<And>n. getName iid = Ok n \<Longrightarrow> P (ReleaseStatus n)"
    "\<And>n ch v. getName iid = Ok n \<Longrightarrow> P (UpdateReleaseFromChart n ch (updateOpts n (\<not> acc) v))"
  shows "calls.keeps P (Update iid c s p cl acc ps ctx)"
  unfolding Update_def
  by (intro keeps_named keeps_calls keeps_lookups keeps_UpdateRelease assms(2-5)) (rule assms(1))

section \<open>The changes the operations make\<close>

lemma ends_tail:
  assumes "ends_if X Q' m" and "\<And>ms r. Q' ms r \<Longrightarrow> Q ms (map_result g r)"
  shows "ends_if X Q (andthen m (\<lambda>x. ret (g x)))"
proof (rule ends_ifI)
  fix w r w'
  assume X: "X (w_ext w)" and run: "andthen m (\<lambda>x. ret (g x)) w = (r, w')"
  obtain q v where q: "m w = (q, v)" by (cases "m w")
  with run have "r = map_result g q" "w' = v" by (cases q; simp)+
  with assms q X show "\<exists>ms. adds ms w w' \<and> Q ms r" by (metis ends_ifE)
qed

lemma ends_named:
  assumes "\<And>p. getName iid = Panic p \<Longrightarrow> Q [] (Panic p)"
    and "\<And>name. getName iid = Ok name \<Longrightarrow> ends_if X Q (f name)"
  shows "ends_if X Q (andthen (lift (getName iid)) f)"
proof (cases "getName iid")
  case (Err e)
  then show ?thesis by (auto simp: getName_def Go_Strings.slice_def Let_def split: if_splits)
qed (use assms in \<open>auto simp: ends_if_def intro: adds_refl\<close>)

lemmas quiet_release = keeps_lookups keeps_getChartValues calls.keeps_attempt calls.keeps_lift

definition install_ends :: "string \<Rightarrow> bool \<Rightarrow> 'c event list \<Rightarrow> 'a result \<Rightarrow> bool" where
  "install_ends iid wait ms r \<longleftrightarrow> ms = [] \<and> (\<forall>x. r \<noteq> Ok x) \<or>
     (\<exists>name ns. getName iid = Ok name \<and> install_outcome name ns wait ms r)"

lemma Install_ends: "ends (install_ends iid (\<not> acc)) (Install c s p iid acc ps ctx cl)"
  unfolding Install_def
  by (intro ends_tail [OF InstallRelease_ends] ends_named ends_quiet_then quiet_release)
     (auto simp: install_ends_def dest: outcome_map)

text \<open>
  When the template of the values fails, the values of the plan and the parameters are lost.
\<close>

definition fails_templates :: "('c, 'r) ext \<Rightarrow> bool" where
  "fails_templates x \<longleftrightarrow> (\<forall>h t s p. \<exists>e. ext_execute_values x h t s p = Inl e)"

lemma getChartValues_Ok:
  assumes "getChartValues s p params w = (Ok m, w')"
  obtains ns ns1 ns2 w1 v where
    "ChartValues (ext_execute_values (w_ext w) (w_hist w)) (ext_yaml_values (w_ext w)) ns s p = Ok v"
    "m = gm_copy ns2 params (gm_copy ns1 v [])"
  using assms unfolding getChartValues_def
  by (auto simp: go_ok next_seed_def with_template_def)

lemma getChartValues_fails:
  assumes "fails_templates (w_ext w)"
  shows "getChartValues s p ps w \<noteq> (Ok m, w')"
proof
  assume "getChartValues s p ps w = (Ok m, w')"
  then obtain ns v where
    "ChartValues (ext_execute_values (w_ext w) (w_hist w)) (ext_yaml_values (w_ext w)) ns s p = Ok v"
    by (rule getChartValues_Ok)
  then obtain t b where "ext_execute_values (w_ext w) (w_hist w) t s p = Inr b"
    by (auto simp: ChartValues_def go_ok split: option.splits)
  with assms show False unfolding fails_templates_def by (metis sum.distinct(1))
qed

definition bare_ends :: "string + string \<Rightarrow> string \<Rightarrow> bool \<Rightarrow> 'c event list \<Rightarrow> 'a result \<Rightarrow> bool" where
  "bare_ends none iid wait ms r \<longleftrightarrow> ms = [] \<and> (\<forall>x. r \<noteq> Ok x) \<or>
     (\<exists>name. getName iid = Ok name \<and> bare_install_outcome none name wait ms r)"

lemma bare_ends_none [simp]: "\<forall>x. r \<noteq> Ok x \<Longrightarrow> bare_ends none iid wait [] r"
  by (simp add: bare_ends_def)

lemma bare_outcome_map:
  "bare_install_outcome none rel wait ms r \<Longrightarrow> bare_install_outcome none rel wait ms (map_result g r)"
  unfolding bare_install_outcome_def by auto

lemma Install_bare:
  "ends_if (\<lambda>x. fails_templates x \<and> ext_yaml_Marshal x (GMap []) = none)
     (bare_ends none iid (\<not> acc)) (Install c s p iid acc ps ctx cl)"
proof -
  let ?X = "\<lambda>x. fails_templates x \<and> ext_yaml_Marshal x (GMap []) = none"
  let ?rest = "\<lambda>name service plan chartValues. andthen (chartNamespace ctx ps) (\<lambda>namespace.
      andthen (lift (release_getChart service plan)) (\<lambda>chart.
      andthen (InstallRelease cl name chart (or_else [] (getChartVersion service plan))
                 (service_ChartOffline service)
                 (case chartValues of Inr values \<Rightarrow> values | Inl _ \<Rightarrow> [])
                 namespace acc) (\<lambda>_. ret ())))"
  have rest: "ends_if ?X (bare_ends none iid (\<not> acc))
      (andthen (attempt (getChartValues service plan ps)) (?rest name service plan))"
    if name: "getName iid = Ok name" for name service plan
  proof (rule ends_quiet_then_value [where R = "\<lambda>v. \<exists>e. v = Inl e"])
    show "calls.keeps quiet (attempt (getChartValues service plan ps))"
      by (intro quiet_release) simp
    fix v :: "goerror + (string, string) gomap"
    assume "\<exists>e. v = Inl e"
    then show "ends_if ?X (bare_ends none iid (\<not> acc)) (?rest name service plan v)"
      by (elim exE, simp only: sum.case)
         (intro ends_tail [OF InstallRelease_bare] ends_quiet_then quiet_release,
          auto simp: bare_ends_def name bare_outcome_map)
  qed (auto simp: attempt_def getChartValues_fails split: prod.splits result.splits)
  show ?thesis
    unfolding Install_def by (intro ends_named ends_quiet_then rest quiet_release) simp_all
qed

definition update_ends :: "string \<Rightarrow> bool \<Rightarrow> 'c event list \<Rightarrow> 'a result \<Rightarrow> bool" where
  "update_ends iid wait ms r \<longleftrightarrow> ms = [] \<and> (\<forall>x. r \<noteq> Ok x) \<or>
     (\<exists>name. getName iid = Ok name \<and> update_outcome name wait ms r)"

lemma Update_ends: "ends (update_ends iid (\<not> acc)) (Update iid c s p cl acc ps ctx)"
  unfolding Update_def
  by (intro ends_tail [OF UpdateRelease_ends] ends_named ends_quiet_then quiet_release)
     (auto simp: update_ends_def dest: outcome_map)

lemma Update_refused:
  "ends_if (refuses_upgrades rls)
     (\<lambda>ms r. ms = [] \<and> (\<forall>x. r \<noteq> Ok x) \<or>
        (\<exists>name. getName iid = Ok name \<and> refused_outcome name (\<not> acc) ms r))
     (Update iid c s p cl acc ps ctx)"
  unfolding Update_def
  by (intro ends_tail [OF UpdateRelease_refused] ends_named ends_quiet_then quiet_release)
     (auto simp: refused_outcome_def)

definition delete_ends :: "string \<Rightarrow> 'c event list \<Rightarrow> unit result \<Rightarrow> bool" where
  "delete_ends iid ms r \<longleftrightarrow>
     ms = [] \<and> (\<exists>p. r = Panic p) \<or>
     (\<exists>name ok. getName iid = Ok name \<and> ms = [delete_event name ok]
        \<and> (if ok then r = Ok () else \<exists>e. r = Err e))"

lemma Delete_ends: "ends (delete_ends iid) (Delete iid)"
  unfolding Delete_def
  by (rule ends_named, simp add: delete_ends_def, rule ends_mono [OF DeleteRelease_ends])
     (auto simp: delete_ends_def)

section \<open>Properties\<close>

lemma getName_Ok_iff:
  "getName iid = Ok n \<longleftrightarrow>
     (if strings_HasPrefix iid ''helmi'' then n = iid
      else 14 \<le> length (stripped iid) \<and> n = ''helmi'' @ take 14 (stripped iid))"
  by (cases "strings_HasPrefix iid ''helmi''") (auto simp: getName_stripped, auto simp: getName_def)

text \<open>
  C19: The name of the release of an instance: an id that starts with the prefix is the name
  itself; any other is put in lower case, loses its dashes and underscores, is cut to 14
  characters and gets the prefix, which makes 19 characters. An id of which fewer than 14
  characters remain makes the code panic, and nothing else does.
\<close>

theorem release_name_shape:
  "(getName iid = Ok n \<longleftrightarrow>
     (if strings_HasPrefix iid ''helmi'' then n = iid
      else 14 \<le> length (stripped iid) \<and> n = ''helmi'' @ take 14 (stripped iid) \<and> length n = 19)) \<and>
   (getName iid = Panic p \<longleftrightarrow>
     \<not> strings_HasPrefix iid ''helmi'' \<and> length (stripped iid) < 14 \<and> p = SliceOutOfRange) \<and>
   getName iid \<noteq> Err e"
  by (cases "strings_HasPrefix iid ''helmi''") (auto simp: getName_stripped, auto simp: getName_def)



text \<open>
  The name of a release is stable: taking it for an id gives the same name.
\<close>

theorem release_name_stable: "getName iid = Ok n \<Longrightarrow> getName n = Ok n"
proof -
  assume "getName iid = Ok n"
  then have "strings_HasPrefix n ''helmi''"
    by (auto simp: getName_Ok_iff strings_HasPrefix_def split: if_splits)
  then show ?thesis by (simp add: getName_Ok_iff)
qed

theorem release_name_stable_witness: "getName ''helmif9f2b0c12a3d4e'' = Ok ''helmif9f2b0c12a3d4e''"
proof (rule release_name_stable)
  show "getName ''f9f2b0c1-2a3d-4e11-8000-000000000001'' = Ok ''helmif9f2b0c12a3d4e''"
    by (simp add: getName_Ok_iff strings_HasPrefix_def stripped_def strings_ToLower_def ascii_eval)
qed

text \<open>
  C21: The namespace of a release, for a context in which no two keys differ only in case: the
  value of the key namespace if there is one; else the organization with its prefix; else none.
  The parameters of the user have no say.
\<close>

theorem namespace_choice:
  assumes "keys_distinct context"
  shows "getChartNamespace ns1 ns2 context parameters =
    (case find_context [] ''namespace'' context of
       Some value \<Rightarrow> value
     | None \<Rightarrow> (case find_context [] ''organization_guid'' context of
         Some value \<Rightarrow> ''cf-'' @ value | None \<Rightarrow> []))
    \<and> (\<forall>key value. (key, value) \<in> set context \<longrightarrow> strings_EqualFold key name \<longrightarrow>
         find_context [] name context = Some value)
    \<and> (find_context [] name context = None \<longleftrightarrow> (\<forall>(k, v) \<in> set context. \<not> strings_EqualFold k name))"
proof (intro conjI allI impI)
  show "getChartNamespace ns1 ns2 context parameters =
    (case find_context [] ''namespace'' context of
       Some value \<Rightarrow> value
     | None \<Rightarrow> (case find_context [] ''organization_guid'' context of
         Some value \<Rightarrow> ''cf-'' @ value | None \<Rightarrow> []))"
    by (simp only: getChartNamespace_def find_context_order_free [OF assms, of ns1 _ "[]"]
        find_context_order_free [OF assms, of ns2 _ "[]"])
qed (rule find_context_Some [OF assms], assumption+, rule find_context_None)

theorem namespace_choice_witness:
  "getChartNamespace [1] [] [(''platform'', ''cloudfoundry''), (''Organization_Guid'', ''o1'')] [] = ''cf-o1''"
proof -
  let ?ctx = "[(''platform'', ''cloudfoundry''), (''Organization_Guid'', ''o1'')]"
  have "keys_distinct ?ctx"
    by (auto simp: keys_distinct_def strings_EqualFold_def strings_ToLower_def ascii_eval)
  from namespace_choice [OF this, of "[1]" "[]"] show ?thesis
    by (simp add: find_context_def context_hit_def strings_EqualFold_def strings_ToLower_def ascii_eval)
qed

text \<open>
  C22: The values a release is installed with: those of the template, over them those of the
  plan, and over them the parameters of the user; whatever the order of the maps.
\<close>

theorem chart_values_override:
  assumes "getChartValues s p params w = (Ok m, w')"
    and "gm_wf (plan_ChartValues p)" "gm_wf params"
    and "\<And>b v. ext_yaml_values (w_ext w) b = Inr (Some v) \<Longrightarrow> gm_wf v"
  shows "\<exists>t b v. service_valuesTemplate s = Some t \<and>
    ext_execute_values (w_ext w) (w_hist w) t s p = Inr b \<and> ext_yaml_values (w_ext w) b = Inr v \<and>
    map_of m = map_of (or_made v) ++ map_of (plan_ChartValues p) ++ map_of params"
proof -
  from assms(1) obtain ns ns1 ns2 v0
    where v0: "ChartValues (ext_execute_values (w_ext w) (w_hist w)) (ext_yaml_values (w_ext w)) ns s p = Ok v0"
      and m: "m = gm_copy ns2 params (gm_copy ns1 v0 [])" by (rule getChartValues_Ok)
  from v0 assms(2) obtain t b v where tbv: "service_valuesTemplate s = Some t"
    "ext_execute_values (w_ext w) (w_hist w) t s p = Inr b" "ext_yaml_values (w_ext w) b = Inr v"
    "map_of v0 = map_of (or_made v) ++ map_of (plan_ChartValues p)" by (rule ChartValues_Ok)
  have "gm_wf (or_made v)" using assms(4) tbv(3) by (cases v) (auto simp: or_made_def)
  with v0 tbv(1-3) have "gm_wf v0" by (auto simp: ChartValues_def)
  with m assms(3) tbv show ?thesis by (auto simp: map_add_assoc)
qed

theorem chart_values_override_witness:
  "\<exists>m. fst (getChartValues example_catalog_service example_plan [(''size'', ''2'')] ref_world) = Ok m \<and>
     map_of m = Map.empty ++ [''size'' \<mapsto> ''1''] ++ [''size'' \<mapsto> ''2'']"
proof -
  let ?run = "getChartValues example_catalog_service example_plan [(''size'', ''2'')] ref_world"
  obtain m where m: "?run = (Ok m, snd ?run)"
    by (simp add: getChartValues_def next_seed_def with_template_def andthen_def ChartValues_def
        example_catalog_service_def ref_world_def ref_ext_def)
  have "map_of m = Map.empty ++ [''size'' \<mapsto> ''1''] ++ [''size'' \<mapsto> ''2'']"
    using chart_values_override [OF m]
    by (simp add: gm_wf_def example_plan_def ref_world_def ref_ext_def or_made_def)
  with m show ?thesis by (metis fst_conv)
qed



end
