(* ===== verification/Basic_Auth.thy ===== *)
theory Basic_Auth
  imports Go_Strings
begin

text \<open>
  The credentials of a request: what \<open>Request.BasicAuth\<close> of \<open>net/http\<close> finds in the
  header \<open>Authorization\<close>, with the decoder of \<open>encoding/base64\<close> it uses. The prefix is
  compared as it is, which is what the library of Go 1.9 does, the version the image of the
  repository is built with.
\<close>

section \<open>Base 64\<close>

definition sextet_char :: "nat \<Rightarrow> char" where
  "sextet_char n =
     (if n < 26 then char_of (n + 65) else if n < 52 then char_of (n + 71)
      else if n < 62 then char_of (n - 4) else if n = 62 then CHR ''+'' else CHR ''/'')"

definition sextet :: "char \<Rightarrow> nat option" where
  "sextet c = (let n = of_char c :: nat in
     if 65 \<le> n \<and> n \<le> 90 then Some (n - 65) else if 97 \<le> n \<and> n \<le> 122 then Some (n - 71)
     else if 48 \<le> n \<and> n \<le> 57 then Some (n + 4) else if c = CHR ''+'' then Some 62
     else if c = CHR ''/'' then Some 63 else None)"

definition byte1 :: "nat \<Rightarrow> nat \<Rightarrow> char" where "byte1 x y = char_of (x * 4 + y div 16)"
definition byte2 :: "nat \<Rightarrow> nat \<Rightarrow> char" where "byte2 y z = char_of (y mod 16 * 16 + z div 4)"
definition byte3 :: "nat \<Rightarrow> nat \<Rightarrow> char" where "byte3 z u = char_of (z mod 4 * 64 + u)"

text \<open>Four characters at a time; padding only at the end, and bits left over are not looked at.\<close>

fun decode_quanta :: "string \<Rightarrow> string option" where
  "decode_quanta [] = Some []"
| "decode_quanta (a # b # c # d # rest) =
     (case (sextet a, sextet b) of
        (Some x, Some y) \<Rightarrow>
          (if c = CHR ''='' then (if d = CHR ''='' \<and> rest = [] then Some [byte1 x y] else None)
           else case sextet c of
             None \<Rightarrow> None
           | Some z \<Rightarrow>
               (if d = CHR ''='' then (if rest = [] then Some [byte1 x y, byte2 y z] else None)
                else case sextet d of
                  None \<Rightarrow> None
                | Some u \<Rightarrow> map_option (\<lambda>bs. byte1 x y # byte2 y z # byte3 z u # bs) (decode_quanta rest)))
      | _ \<Rightarrow> None)"
| "decode_quanta _ = None"

definition base64_DecodeString :: "string \<Rightarrow> string option" where
  "base64_DecodeString s = decode_quanta (filter (\<lambda>c. c \<noteq> CHR 0x0D \<and> c \<noteq> CHR 0x0A) s)"

text \<open>The encoder, as the clients of the broker use it.\<close>

definition first6 :: "char \<Rightarrow> char" where "first6 a = sextet_char (of_char a div 4)"
definition next6 :: "char \<Rightarrow> nat \<Rightarrow> char" where "next6 a b = sextet_char (of_char a mod 4 * 16 + b div 16)"
definition third6 :: "char \<Rightarrow> nat \<Rightarrow> char" where "third6 b c = sextet_char (of_char b mod 16 * 4 + c div 64)"
definition last6 :: "char \<Rightarrow> char" where "last6 c = sextet_char (of_char c mod 64)"

fun base64_EncodeToString :: "string \<Rightarrow> string" where
  "base64_EncodeToString [] = []"
| "base64_EncodeToString [a] = [first6 a, next6 a 0, CHR ''='', CHR ''='']"
| "base64_EncodeToString [a, b] = [first6 a, next6 a (of_char b), third6 b 0, CHR ''='']"
| "base64_EncodeToString (a # b # c # rest) =
     first6 a # next6 a (of_char b) # third6 b (of_char c) # last6 c # base64_EncodeToString rest"

lemma of_char_byte: "n < 256 \<Longrightarrow> of_char (char_of n :: char) = (n :: nat)"
  by simp

lemma char_of_iff: "n < 256 \<Longrightarrow> char_of (n :: nat) = c \<longleftrightarrow> n = of_char c"
  using of_char_byte by (metis char_of_char)

lemma sextet_char [simp]:
  assumes "n < 64"
  shows "sextet (sextet_char n) = Some n" and "sextet_char n \<noteq> CHR ''=''"
    and "sextet_char n \<noteq> CHR 0x0D" and "sextet_char n \<noteq> CHR 0x0A"
proof -
  consider "n < 62" | "n = 62" | "n = 63" using assms by linarith
  then have "sextet (sextet_char n) = Some n \<and> sextet_char n \<noteq> CHR ''='' \<and> sextet_char n \<noteq> CHR 0x0D
      \<and> sextet_char n \<noteq> CHR 0x0A"
  proof cases
    case 1
    then show ?thesis
      by (auto simp: sextet_char_def sextet_def Let_def of_char_byte char_of_iff)
  qed (simp_all add: sextet_char_def sextet_def)
  then show "sextet (sextet_char n) = Some n" "sextet_char n \<noteq> CHR ''=''" "sextet_char n \<noteq> CHR 0x0D"
    "sextet_char n \<noteq> CHR 0x0A" by blast+
qed

lemma bits_above: "r < m \<Longrightarrow> (k * m + r) div m = (k :: nat)" "r < m \<Longrightarrow> (k * m + r) mod m = (r :: nat)"
  by simp_all

lemma bits_less: "a < 256 \<Longrightarrow> a div 16 < (16 :: nat)" "a < 256 \<Longrightarrow> a div 64 < (4 :: nat)"
  "a < 256 \<Longrightarrow> a div 4 < (64 :: nat)" "k < 4 \<Longrightarrow> j < 16 \<Longrightarrow> k * 16 + j < (64 :: nat)"
  "k < 16 \<Longrightarrow> j < 4 \<Longrightarrow> k * 4 + j < (64 :: nat)"
  by linarith+

lemma sextets_of:
  "of_char (a :: char) div 4 < (64 :: nat)" "m < 256 \<Longrightarrow> of_char (a :: char) mod 4 * 16 + m div 16 < (64 :: nat)"
  "m < 256 \<Longrightarrow> of_char (a :: char) mod 16 * 4 + m div 64 < (64 :: nat)" "of_char (a :: char) mod 64 < (64 :: nat)"
  by (auto intro!: bits_less)

lemma decode_bytes:
  "m < 256 \<Longrightarrow> byte1 (of_char a div 4) (of_char a mod 4 * 16 + m div 16) = a"
  "m < 256 \<Longrightarrow> byte2 (k * 16 + of_char b div 16) (of_char b mod 16 * 4 + m div 64) = b"
  "byte3 (k * 4 + of_char c div 64) (of_char c mod 64) = c"
  by (simp_all only: byte1_def byte2_def byte3_def bits_above bits_less nat_of_char_less_256
      div_mult_mod_eq char_of_char)

lemmas encode_defs = first6_def next6_def third6_def last6_def

lemma decode_encode: "decode_quanta (base64_EncodeToString s) = Some s"
proof (induction s rule: base64_EncodeToString.induct)
  case (2 a)
  show ?case
    using sextets_of(2) [of 0 a] decode_bytes(1) [of 0 a] by (simp add: encode_defs sextets_of)
next
  case (3 a b)
  show ?case
    using sextets_of(3) [of 0 b] decode_bytes(2) [of 0 _ b]
    by (simp add: encode_defs sextets_of decode_bytes)
next
  case (4 a b c rest)
  then show ?case by (simp add: encode_defs sextets_of decode_bytes)
qed simp

lemma encoded_no_newline: "c \<in> set (base64_EncodeToString s) \<Longrightarrow> c \<noteq> CHR 0x0D \<and> c \<noteq> CHR 0x0A"
proof (induction s rule: base64_EncodeToString.induct)
  case (2 a)
  then show ?case using sextets_of(2) [of 0 a] by (auto simp: encode_defs sextets_of)
next
  case (3 a b)
  then show ?case using sextets_of(3) [of 0 b] by (auto simp: encode_defs sextets_of)
next
  case (4 a b c rest)
  then show ?case by (auto simp: encode_defs sextets_of)
qed simp

lemma base64_round_trip [simp]: "base64_DecodeString (base64_EncodeToString s) = Some s"
proof -
  have "filter (\<lambda>c. c \<noteq> CHR 0x0D \<and> c \<noteq> CHR 0x0A) (base64_EncodeToString s) = base64_EncodeToString s"
    by (rule filter_True) (simp add: encoded_no_newline)
  then show ?thesis by (simp add: base64_DecodeString_def decode_encode)
qed

section \<open>The header\<close>

definition BasicAuth :: "string \<Rightarrow> (string \<times> string) option" where
  "BasicAuth auth =
     (if \<not> strings_HasPrefix auth ''Basic '' then None
      else case base64_DecodeString (drop (length ''Basic '') auth) of
        None \<Rightarrow> None
      | Some cs \<Rightarrow>
          (let s = strings_Index cs '':''
           in if s < 0 then None else Some (take (nat s) cs, drop (nat s + 1) cs)))"

definition basic_header :: "string \<Rightarrow> string \<Rightarrow> string" where
  "basic_header username password = ''Basic '' @ base64_EncodeToString (username @ '':'' @ password)"

lemma BasicAuth_no_header: "BasicAuth [] = None"
  by (simp add: BasicAuth_def strings_HasPrefix_def)

lemma Index_char: "c \<notin> set u \<Longrightarrow> strings_Index (u @ c # v) [c] = int (length u)"
  by (induction u) (auto simp: strings_Index_def strings_HasPrefix_def split: option.splits)

text \<open>The user name that is read holds no colon.\<close>

lemma before_find_sub: "find_sub s [c] = Some i \<Longrightarrow> c \<notin> set (take i s)"
  by (induction s "[c]" arbitrary: i rule: find_sub.induct) (auto simp: strings_HasPrefix_def split: if_splits)

lemma before_Index: "0 \<le> strings_Index s [c] \<Longrightarrow> c \<notin> set (take (nat (strings_Index s [c])) s)"
  by (auto simp: strings_Index_def dest: before_find_sub split: option.splits)

lemma BasicAuth_no_colon: "BasicAuth auth = Some (u, p) \<Longrightarrow> CHR '':'' \<notin> set u"
  by (auto simp: BasicAuth_def Let_def before_Index split: if_splits option.splits)

lemma BasicAuth_header: "CHR '':'' \<notin> set u \<Longrightarrow> BasicAuth (basic_header u p) = Some (u, p)"
  by (simp add: BasicAuth_def basic_header_def strings_HasPrefix_def Index_char)

end
