(* ===== verification/Broker.thy ===== *)
theory Broker
  imports Release Basic_Auth
begin

text \<open>
  Package \<open>broker\<close>: the operations of the Open Service Broker API on top of the package
  \<open>release\<close>, and the check of the credentials of a request. The package \<open>brokerapi\<close> calls
  them; its data types are the records below. The JSON reader is an argument as far as the
  syntax goes; which documents fit into a Go map, and what is stored, is written out.
\<close>

section \<open>Data\<close>

record HelmBroker =
  br_allowUserProvisionParameters :: bool
  br_allowUserUpdateParameters :: bool
  br_allowUserBindParameters :: bool
  br_catalog :: Catalog
  br_helmClient :: "Client option"
  br_config :: HelmiConfig

record ServicePlanCost =
  api_cost_Amount :: "(string, float64) gomap"
  api_cost_Unit :: string

record ServicePlanMetadata =
  api_pm_Bullets :: "string list"
  api_pm_Costs :: "ServicePlanCost list"

record ServicePlan =
  api_plan_ID :: string
  api_plan_Name :: string
  api_plan_Description :: string
  api_plan_Free :: "bool option"
  api_plan_Bindable :: "bool option"
  api_plan_Metadata :: ServicePlanMetadata

record ApiServiceMetadata =
  api_sm_DisplayName :: string
  api_sm_ImageUrl :: string
  api_sm_SupportUrl :: string
  api_sm_ProviderDisplayName :: string
  api_sm_DocumentationUrl :: string
  api_sm_LongDescription :: string

record ApiService =
  api_ID :: string
  api_Name :: string
  api_Description :: string
  api_Bindable :: bool
  api_Tags :: "string list"
  api_PlanUpdatable :: bool
  api_Metadata :: ApiServiceMetadata
  api_Plans :: "ServicePlan list"

record RequestDetails =
  rd_ServiceID :: string
  rd_PlanID :: string
  rd_RawContext :: string
  rd_RawParameters :: string

record ServiceSpec =
  spec_IsAsync :: bool

datatype LastOperationState = NoState | InProgress | Succeeded | LoFailed

definition New :: "HelmiConfig \<Rightarrow> Catalog \<Rightarrow> Client option \<Rightarrow> HelmBroker" where
  "New config catalog client =
     \<lparr>br_allowUserProvisionParameters = hc_AllowUserProvisionParameters config,
      br_allowUserUpdateParameters = hc_AllowUserUpdateParameters config,
      br_allowUserBindParameters = hc_AllowUserBindParameters config,
      br_catalog = catalog, br_helmClient = client, br_config = config\<rparr>"

text \<open>
  \<open>Run\<close> serves on the address, unless there is no client: then it logs and returns. The
  operations below get the client it has checked.
\<close>

definition Run :: "HelmBroker \<Rightarrow> string \<Rightarrow> (string \<times> Client) option" where
  "Run b address = (case br_helmClient b of None \<Rightarrow> None | Some client \<Rightarrow> Some (address, client))"

section \<open>The catalog\<close>

definition api_cost :: "Cost \<Rightarrow> ServicePlanCost" where
  "api_cost cost = \<lparr>api_cost_Amount = cost_Amount cost, api_cost_Unit = cost_Unit cost\<rparr>"

definition api_plan :: "Plan \<Rightarrow> ServicePlan" where
  "api_plan plan =
     \<lparr>api_plan_ID = plan_Id plan, api_plan_Name = plan_Name plan,
      api_plan_Description = plan_Description plan, api_plan_Free = plan_Free plan,
      api_plan_Bindable = plan_Bindable plan,
      api_plan_Metadata = \<lparr>api_pm_Bullets = pm_Bullets (plan_Metadata plan),
        api_pm_Costs = map api_cost (pm_Costs (plan_Metadata plan))\<rparr>\<rparr>"

definition api_service :: "Service \<Rightarrow> ApiService" where
  "api_service service =
     \<lparr>api_ID = service_Id service, api_Name = service_Name service,
      api_Description = service_Description service, api_Bindable = service_Bindable service,
      api_Tags = service_Tags service, api_PlanUpdatable = service_PlanUpdateable service,
      api_Metadata =
        (let m = service_Metadata service
         in \<lparr>api_sm_DisplayName = sm_DisplayName m, api_sm_ImageUrl = sm_ImageUrl m,
             api_sm_SupportUrl = sm_SupportUrl m,
             api_sm_ProviderDisplayName = sm_ProviderDisplayName m,
             api_sm_DocumentationUrl = sm_DocumentationUrl m,
             api_sm_LongDescription = sm_LongDescription m\<rparr>),
      api_Plans = map api_plan (service_Plans service)\<rparr>"

definition Services :: "nat list \<Rightarrow> HelmBroker \<Rightarrow> ApiService list" where
  "Services ns b = map (\<lambda>(k, service). api_service service)
     (go_range ns (catalog_Services (br_catalog b)))"

section \<open>JSON documents as Go maps\<close>

text \<open>The kind of a JSON value as the errors of \<open>encoding/json\<close> name it.\<close>

definition json_kind :: "gval \<Rightarrow> string" where
  "json_kind v = (case v of GNil \<Rightarrow> ''null'' | GBool _ \<Rightarrow> ''bool'' | GInt _ \<Rightarrow> ''number''
     | GFloat _ \<Rightarrow> ''number'' | GString _ \<Rightarrow> ''string'' | GList _ \<Rightarrow> ''array'' | GMap _ \<Rightarrow> ''object'')"

definition json_type_error :: "gval \<Rightarrow> string \<Rightarrow> string" where
  "json_type_error v typ = ''json: cannot unmarshal '' @ json_kind v @ '' into Go value of type '' @ typ"

text \<open>
  One member of an object stored in a map of strings: null gives the empty string, another
  value that is no string an error, of which the first is kept.
\<close>

definition key_text :: "gval \<Rightarrow> string" where
  "key_text k = (case k of GString s \<Rightarrow> s | _ \<Rightarrow> [])"

definition json_member ::
  "(string, string) gomap \<times> string option \<Rightarrow> gval \<times> gval \<Rightarrow> (string, string) gomap \<times> string option" where
  "json_member acc e = (case (acc, e) of ((m, err), (k, v)) \<Rightarrow> (case v of
       GString s \<Rightarrow> (gm_set m (key_text k) s, err)
     | GNil \<Rightarrow> (gm_set m (key_text k) [], err)
     | _ \<Rightarrow> (gm_set m (key_text k) [],
             (case err of Some x \<Rightarrow> Some x | None \<Rightarrow> Some (json_type_error v ''string'')))))"

definition json_string_map :: "string \<Rightarrow> gval \<Rightarrow> string + (string, string) gomap" where
  "json_string_map typ v = (case v of
       GNil \<Rightarrow> Inr []
     | GMap es \<Rightarrow> (case foldl json_member ([], None) es of
         (m, Some e) \<Rightarrow> Inl e
       | (m, None) \<Rightarrow> Inr m)
     | _ \<Rightarrow> Inl (json_type_error v typ))"

text \<open>A map of interfaces takes any object.\<close>

definition json_interface_map :: "string \<Rightarrow> gval \<Rightarrow> string + unit" where
  "json_interface_map typ v = (case v of
       GNil \<Rightarrow> Inr () | GMap es \<Rightarrow> Inr () | _ \<Rightarrow> Inl (json_type_error v typ))"

definition json_Unmarshal ::
  "(gval \<Rightarrow> string + 'a) \<Rightarrow> string \<Rightarrow> ('c, 'r, 'a) prog" where
  "json_Unmarshal decode raw =
     andthen (get (\<lambda>w. ext_json_object (w_ext w) raw)) (\<lambda>r.
     andthen (lift (of_sum r)) (\<lambda>v. lift (of_sum (decode v))))"

section \<open>Operations\<close>

text \<open>Provisioning, once it is known that the instance does not exist.\<close>

definition provision_new ::
  "HelmBroker \<Rightarrow> Client \<Rightarrow> string \<Rightarrow> RequestDetails \<Rightarrow> bool \<Rightarrow> ('c, 'r, ServiceSpec) prog" where
  "provision_new b client instanceID details asyncAllowed =
     andthen (if br_allowUserProvisionParameters b \<and> length (rd_RawParameters details) > 0
              then json_Unmarshal (json_string_map ''broker.ProvisionParameters'')
                     (rd_RawParameters details)
              else ret []) (\<lambda>provisionParameters.
     andthen (catalog_GetServicePlan (br_catalog b) (rd_ServiceID details) (rd_PlanID details))
       (\<lambda>servicePlan.
     andthen (if length (rd_RawContext details) > 0
              then json_Unmarshal (json_string_map ''broker.RequestContext'') (rd_RawContext details)
              else ret []) (\<lambda>requestContext.
     andthen (Install (br_catalog b) (rd_ServiceID details) (plan_Id servicePlan) instanceID
                asyncAllowed provisionParameters requestContext client) (\<lambda>_.
     ret \<lparr>spec_IsAsync = False\<rparr>))))"

definition Provision ::
  "HelmBroker \<Rightarrow> Client \<Rightarrow> string \<Rightarrow> RequestDetails \<Rightarrow> bool \<Rightarrow> ('c, 'r, ServiceSpec) prog" where
  "Provision b client instanceID details asyncAllowed =
     andthen (log_call (LogDetails instanceID (rd_RawParameters details))) (\<lambda>_.
     andthen (attempt (Exists instanceID)) (\<lambda>exist.
     if exist = Inr True then fail ErrInstanceAlreadyExists
     else provision_new b client instanceID details asyncAllowed))"

definition broker_Update ::
  "HelmBroker \<Rightarrow> Client \<Rightarrow> string \<Rightarrow> RequestDetails \<Rightarrow> bool \<Rightarrow> ('c, 'r, ServiceSpec) prog" where
  "broker_Update b client instanceID details asyncAllowed =
     andthen (log_call (LogDetails instanceID (rd_RawParameters details))) (\<lambda>_.
     andthen (if br_allowUserProvisionParameters b \<and> length (rd_RawParameters details) > 0
              then json_Unmarshal (json_string_map ''broker.ProvisionParameters'')
                     (rd_RawParameters details)
              else ret []) (\<lambda>updateParameters.
     andthen (if length (rd_RawContext details) > 0
              then json_Unmarshal (json_string_map ''broker.RequestContext'') (rd_RawContext details)
              else ret []) (\<lambda>requestContext.
     andthen (Update instanceID (br_catalog b) (rd_ServiceID details) (rd_PlanID details) client
                asyncAllowed updateParameters requestContext) (\<lambda>_.
     ret \<lparr>spec_IsAsync = False\<rparr>))))"

definition Deprovision :: "HelmBroker \<Rightarrow> string \<Rightarrow> ('c, 'r, ServiceSpec) prog" where
  "Deprovision b instanceID =
     andthen (log_call (LogDetails instanceID [])) (\<lambda>_.
     andthen (attempt (Exists instanceID)) (\<lambda>exist.
     if exist = Inr False then fail ErrInstanceDoesNotExist else
     andthen (Delete instanceID) (\<lambda>_. ret \<lparr>spec_IsAsync = False\<rparr>)))"

definition Bind ::
  "HelmBroker \<Rightarrow> string \<Rightarrow> string \<Rightarrow> RequestDetails \<Rightarrow> ('c, 'r, (string, gval) gomap option) prog" where
  "Bind b instanceID bindingID details =
     andthen (log_call (LogDetails instanceID (rd_RawParameters details))) (\<lambda>_.
     andthen (catalog_GetServicePlan (br_catalog b) (rd_ServiceID details) (rd_PlanID details))
       (\<lambda>servicePlan.
     andthen (if length (rd_RawParameters details) > 0 \<and> br_allowUserBindParameters b
              then json_Unmarshal (json_interface_map ''broker.BindParameters'')
                     (rd_RawParameters details)
              else ret ()) (\<lambda>bindParameters.
     GetCredentials (br_catalog b) (rd_ServiceID details) (plan_Id servicePlan) instanceID)))"

definition Unbind :: "HelmBroker \<Rightarrow> string \<Rightarrow> string \<Rightarrow> ('c, 'r, unit) prog" where
  "Unbind b instanceID bindingID =
     andthen (log_call (LogDetails instanceID [])) (\<lambda>_.
     andthen (Exists instanceID) (\<lambda>exists.
     if \<not> exists then ret () else ret ()))"

definition operation_state :: "ReleaseState \<Rightarrow> LastOperationState" where
  "operation_state st =
     (if rs_IsFailed st then LoFailed
      else if rs_IsAvailable st \<or> rs_IsDeleted st then Succeeded
      else if rs_IsDeployed st \<and> \<not> rs_IsAvailable st \<or> rs_IsDeleting st then InProgress
      else NoState)"

definition LastOperation :: "HelmBroker \<Rightarrow> string \<Rightarrow> ('c, 'r, LastOperationState) prog" where
  "LastOperation b instanceID =
     andthen (attempt (GetStatus instanceID)) (\<lambda>st.
     case st of
       Inl err \<Rightarrow>
         andthen (attempt (Exists instanceID)) (\<lambda>exists.
         if exists = Inr False then fail ErrInstanceDoesNotExist else fail err)
     | Inr st \<Rightarrow> ret (operation_state st))"

section \<open>Requests\<close>

record HttpResponse =
  hr_code :: nat
  hr_contentType :: string
  hr_body :: string

definition livenessHandler :: HttpResponse where
  "livenessHandler = \<lparr>hr_code = 200, hr_contentType = ''application/json'', hr_body = ''{}''\<rparr>"

text \<open>
  A request is its route and its header \<open>Authorization\<close>, empty when there is none; the routes
  that need no credentials are those of \<open>noAuthRequired\<close>.
\<close>

definition validCredentials :: "environ \<Rightarrow> ('route \<Rightarrow> bool) \<Rightarrow> 'route \<Rightarrow> string \<Rightarrow> bool" where
  "validCredentials env noAuthRequired route authorization =
     (if noAuthRequired route then True
      else let user = os_Getenv env ''USERNAME''; pass = os_Getenv env ''PASSWORD''
           in case BasicAuth authorization of
                Some (username, password) \<Rightarrow> username = user \<and> password = pass
              | None \<Rightarrow> False)"

definition authHandler ::
  "('route \<Rightarrow> bool) \<Rightarrow> 'route \<Rightarrow> string \<Rightarrow> ('c, 'r, HttpResponse) prog \<Rightarrow> ('c, 'r, HttpResponse) prog" where
  "authHandler noAuthRequired route authorization handler =
     andthen (get (\<lambda>w. validCredentials (w_env w) noAuthRequired route authorization)) (\<lambda>valid.
     if \<not> valid
     then ret \<lparr>hr_code = 401, hr_contentType = ''text/plain; charset=utf-8'',
               hr_body = ''Unauthorized'' @ [CHR 0x0A]\<rparr>
     else handler)"

section \<open>Which calls the operations make\<close>

lemma keeps_json_Unmarshal: "calls.keeps P (json_Unmarshal decode raw)"
  unfolding json_Unmarshal_def by (intro keeps_calls)

lemma keeps_provision_new:
  assumes "\<And>c. chart_call c \<Longrightarrow> P c" "\<And>t. P (ExecuteTemplate t)"
    "\<And>n vs. getName iid = Ok n \<Longrightarrow> P (LogValues n vs)"
    "\<And>n. getName iid = Ok n \<Longrightarrow> P (ListReleases (listOpts n))"
    "\<And>n ch ns v. getName iid = Ok n \<Longrightarrow> P (InstallReleaseFromChart ch ns (installOpts n (\<not> acc) v))"
  shows "calls.keeps P (provision_new b cl iid d acc)"
  unfolding provision_new_def
  by (intro keeps_calls keeps_json_Unmarshal keeps_lookups keeps_Install assms(2-5)) (rule assms(1))

text \<open>
  What every operation of the broker on an instance keeps: its calls are about the release of
  the instance; where there is no name for it, about no release.
\<close>

definition broker_call :: "string \<Rightarrow> 'c call \<Rightarrow> bool" where
  "broker_call iid c \<longleftrightarrow>
     (\<forall>name. getName iid = Ok name \<or> (\<forall>n. getName iid \<noteq> Ok n) \<longrightarrow> about name c)"

lemma broker_call_simps [simp]:
  "chart_call c \<Longrightarrow> broker_call iid c" "broker_call iid (LogDetails i d)"
  "broker_call iid (ExecuteTemplate t)" "broker_call iid ListNodes"
  "getName iid = Ok n \<Longrightarrow> broker_call iid c \<longleftrightarrow> about n c"
  by (auto simp: broker_call_def) (simp_all add: about_def)

lemma broker_calls:
  "calls.keeps (broker_call iid) (Provision b cl iid d acc)"
  "calls.keeps (broker_call iid) (broker_Update b cl iid d acc)"
  "calls.keeps (broker_call iid) (Deprovision b iid)"
  "calls.keeps (broker_call iid) (Bind b iid bid d)"
  "calls.keeps (broker_call iid) (Unbind b iid bid)"
  "calls.keeps (broker_call iid) (LastOperation b iid)"
  unfolding Provision_def broker_Update_def Deprovision_def Bind_def Unbind_def LastOperation_def
  by (intro keeps_calls keeps_Exists keeps_provision_new keeps_json_Unmarshal keeps_Update keeps_Delete
      keeps_lookups keeps_GetCredentials keeps_release_GetStatus; simp)+

lemma broker_reads:
  "calls.keeps quiet (Bind b iid bid d)"
  "calls.keeps quiet (Unbind b iid bid)"
  "calls.keeps quiet (LastOperation b iid)"
  unfolding Bind_def Unbind_def LastOperation_def
  by (intro keeps_calls keeps_Exists keeps_json_Unmarshal keeps_lookups keeps_GetCredentials
      keeps_release_GetStatus; simp)+

section \<open>The changes the operations make\<close>

lemma install_ends_map: "install_ends iid wait ms r \<Longrightarrow> install_ends iid wait ms (map_result g r)"
  unfolding install_ends_def by (auto dest: outcome_map)

lemma update_ends_map: "update_ends iid wait ms r \<Longrightarrow> update_ends iid wait ms (map_result g r)"
  unfolding update_ends_def by (auto dest: outcome_map)

lemma quiet_decode:
  "calls.keeps quiet (if b then json_Unmarshal decode raw else ret x)"
  by (intro keeps_calls keeps_json_Unmarshal)

lemma provision_new_ends: "ends (install_ends iid (\<not> acc)) (provision_new b cl iid d acc)"
  unfolding provision_new_def
  by (intro ends_tail [OF Install_ends] ends_quiet_then quiet_decode keeps_lookups)
     (simp_all add: install_ends_map, simp_all add: install_ends_def)

lemma broker_Update_ends: "ends (update_ends iid (\<not> acc)) (broker_Update b cl iid d acc)"
  unfolding broker_Update_def
  by (intro ends_tail [OF Update_ends] ends_quiet_then quiet_decode keeps_log_call)
     (simp_all add: update_ends_map, simp_all add: update_ends_def)

lemma broker_Update_refused:
  "ends_if (refuses_upgrades rls)
     (\<lambda>ms r. ms = [] \<and> (\<forall>x. r \<noteq> Ok x) \<or> (\<exists>name ch v. getName iid = Ok name \<and>
        ms = [update_event ch name (\<not> acc) v False] \<and> r = Ok \<lparr>spec_IsAsync = False\<rparr>))
     (broker_Update b cl iid d acc)"
  unfolding broker_Update_def
  by (intro ends_tail [OF Update_refused] ends_quiet_then quiet_decode keeps_log_call)
     (auto simp: refused_outcome_def)

lemma Provision_ends: "ends (install_ends iid (\<not> acc)) (Provision b cl iid d acc)"
proof -
  have "calls.keeps quiet (attempt (Exists iid))"
    by (intro calls.keeps_attempt keeps_Exists) simp
  then show ?thesis
    unfolding Provision_def
    by (intro ends_quiet_then ends_cases provision_new_ends keeps_log_call)
       (simp_all add: ends_value install_ends_def)
qed

lemma Deprovision_ends:
  "ends (\<lambda>ms r. \<forall>e \<in> set ms. \<exists>name ok. getName iid = Ok name \<and> e = delete_event name ok)
     (Deprovision b iid)"
proof -
  have "calls.keeps quiet (attempt (Exists iid))"
    by (intro calls.keeps_attempt keeps_Exists) simp
  then show ?thesis
    unfolding Deprovision_def
    by (intro ends_tail [OF Delete_ends] ends_quiet_then ends_cases keeps_log_call)
       (auto simp: delete_ends_def ends_value)
qed

text \<open>Provisioning when the template of the values fails.\<close>

lemma bare_ends_map: "bare_ends none iid wait ms r \<Longrightarrow> bare_ends none iid wait ms (map_result g r)"
  unfolding bare_ends_def by (auto dest: bare_outcome_map)

lemma Provision_bare:
  "ends_if (\<lambda>x. fails_templates x \<and> ext_yaml_Marshal x (GMap []) = none)
     (bare_ends none iid (\<not> acc)) (Provision b cl iid d acc)"
proof -
  have "calls.keeps quiet (attempt (Exists iid))"
    by (intro calls.keeps_attempt keeps_Exists) simp
  then show ?thesis
    unfolding Provision_def provision_new_def
    by (intro ends_tail [OF Install_bare] ends_quiet_then ends_cases ends_if_fail quiet_decode
          keeps_lookups keeps_log_call)
       (simp_all add: bare_ends_map)
qed

section \<open>The existence check\<close>

lemma run_ExistRelease:
  "ExistRelease n w =
     (case ext_ReleaseStatus (w_ext w) (w_hist w) n of
        Inl e \<Rightarrow> (if strings_Contains e ''not found'' then Ok False else Err (Errorf e),
                  record_call (ReleaseStatus n) False w)
      | Inr s \<Rightarrow> (Ok (s \<noteq> None), record_call (ReleaseStatus n) True w))"
  by (cases "ext_ReleaseStatus (w_ext w) (w_hist w) n")
     (auto simp: ExistRelease_def ReleaseStatus_call_def call_sum_def andthen_def attempt_def)

lemma run_Exists:
  "getName iid = Ok n \<Longrightarrow> Exists iid w = ExistRelease n w"
  by (simp add: Exists_def)

lemma run_log_call: "log_call c w = (Ok (), record_call c True w)"
  by (simp add: log_call_def)

lemma adds_quiet_record: "quiet c \<Longrightarrow> adds [] w (record_call c ok w)"
  by (simp add: adds_def record_call_def)

lemma w_ext_record [simp]: "w_ext (record_call c ok w) = w_ext w"
  "w_env (record_call c ok w) = w_env w"
  by (simp_all add: record_call_def)

lemma w_hist_record: "w_hist (record_call c ok w) = w_hist w @ [(c, ok)]"
  by (simp add: record_call_def)

section \<open>Properties\<close>

definition storable :: "gval \<Rightarrow> bool" where
  "storable v \<longleftrightarrow> v = GNil \<or> (\<exists>s. v = GString s)"

definition stored :: "gval \<times> gval \<Rightarrow> string \<times> string" where
  "stored e = (key_text (fst e), case snd e of GString s \<Rightarrow> s | _ \<Rightarrow> [])"

lemma json_member_eq:
  "json_member (m, err) e = (gm_set m (fst (stored e)) (snd (stored e)),
     case err of Some x \<Rightarrow> Some x
     | None \<Rightarrow> if storable (snd e) then None else Some (json_type_error (snd e) ''string''))"
  by (cases e; cases "snd e") (auto simp: json_member_def stored_def storable_def split: option.splits)

lemma json_members:
  "foldl json_member (m, err) es =
     (foldl (\<lambda>m (k, v). gm_set m k v) m (map stored es),
      case err of Some x \<Rightarrow> Some x
      | None \<Rightarrow> map_option (\<lambda>e. json_type_error (snd e) ''string'') (find (\<lambda>e. \<not> storable (snd e)) es))"
  by (induction es arbitrary: m err) (auto simp: json_member_eq case_prod_unfold split: option.splits)

lemma find_storable: "find (\<lambda>e. \<not> storable (snd e)) es = None \<longleftrightarrow> (\<forall>(k, v) \<in> set es. storable v)"
  by (auto simp: find_None_iff)





end
