(* ===== verification/Main_Program.thy ===== *)
theory Main_Program
  imports Broker
begin

text \<open>
  The file \<open>main.go\<close>: from the command line to the broker that serves. A \<open>log.Fatal\<close> ends the
  process with its text, which is the error here. The command line is an argument, as are the decoders,
  the walk through the catalog directory, and the connection to the cluster.
\<close>

definition set_environment :: "Config \<Rightarrow> ('c, 'r, unit) prog" where
  "set_environment config =
     andthen (setenv ''USERNAME'' (cfg_Username config)) (\<lambda>_.
     andthen (setenv ''PASSWORD'' (cfg_Password config)) (\<lambda>_.
     setenv ''CLUSTER_DNS'' (hc_ClusterDnsName (cfg_HelmiConfig config))))"

text \<open>The flags and what they are when the command line does not set them.\<close>

definition main_flags :: "(string \<Rightarrow> string option) \<Rightarrow> string \<times> string" where
  "main_flags commandLine =
     ((case commandLine ''config'' of Some v \<Rightarrow> v | None \<Rightarrow> []),
      (case commandLine ''port'' of Some v \<Rightarrow> v | None \<Rightarrow> ''8080''))"

definition main_program ::
  "(string \<Rightarrow> string + 'file) \<Rightarrow> ('file \<Rightarrow> string + string) \<Rightarrow> (string \<Rightarrow> string + Config option)
     \<Rightarrow> (string \<Rightarrow> string + Service) \<Rightarrow> (string \<Rightarrow> string \<Rightarrow> string + template)
     \<Rightarrow> (string \<Rightarrow> walk_entry list)
     \<Rightarrow> ('c, 'r, 'k) prog \<Rightarrow> ('k \<Rightarrow> string \<Rightarrow> ('c, 'r, int) prog)
     \<Rightarrow> string \<Rightarrow> string \<Rightarrow> ('c, 'r, HelmBroker \<times> (string \<times> Client) option) prog" where
  "main_program os_Open ReadAll yaml_config yaml_service tmpl_parse walk kube_client new_tunnel
       configpath port =
     andthen (wrap_err ''Error loading config file: ''
                (lift (LoadConfig os_Open ReadAll yaml_config configpath))) (\<lambda>config.
     andthen (lift (buildLogger (cfg_LogLevel config))) (\<lambda>logger.
     let helmiConfig = cfg_HelmiConfig config; dir = hc_CatalogDir helmiConfig in
     andthen (attempt (lift (ParseDir yaml_service tmpl_parse dir (walk dir)))) (\<lambda>c.
     case c of
       Inl catalogErr \<Rightarrow> fail (Errorf ''<nil>'')
     | Inr catalog \<Rightarrow>
         andthen (set_environment config) (\<lambda>_.
         andthen (NewClient kube_client new_tunnel helmiConfig) (\<lambda>helmClient.
         let helmibroker = New helmiConfig catalog helmClient
         in ret (helmibroker, Run helmibroker ('':'' @ port)))))))"

text \<open>Without a configuration on the command line the program ends at once.\<close>

lemma main_without_config:
  assumes "commandLine ''config'' = None" "main_flags commandLine = (configpath, port)"
  shows "main_program op rd yc ys tp walk kc nt configpath port w
    = (Err (Errorf ''Error loading config file: Must provide a config file''), w)"
  using assms by (simp add: main_flags_def main_program_def LoadConfig_def andthen_def wrap_err_def)

lemma keeps_NewClient:
  assumes "\<And>c. repo_call c \<Longrightarrow> P c" and "calls.keeps P kube_client"
    and "\<And>k n. calls.keeps P (new_tunnel k n)"
  shows "calls.keeps P (NewClient kube_client new_tunnel config)"
  unfolding NewClient_def Let_def getHelmClient_def
  by (intro keeps_calls keeps_handingHelmDirectors keeps_initRepos assms(2,3))
     (simp_all add: assms(1))

lemma run_set_environment:
  "set_environment config w = (Ok (), w\<lparr>w_env :=
     set_value ''CLUSTER_DNS'' (hc_ClusterDnsName (cfg_HelmiConfig config))
      (set_value ''PASSWORD'' (cfg_Password config)
       (set_value ''USERNAME'' (cfg_Username config) (w_env w)))\<rparr>)"
  by (simp add: set_environment_def)

text \<open>A successful run, step by step.\<close>

lemma main_program_Ok:
  assumes "main_program op rd yc ys tp walk kc nt path port w = (Ok (b, served), w')"
  obtains config logger c client v where
    "LoadConfig op rd yc path = Ok config" "buildLogger (cfg_LogLevel config) = Ok logger"
    "ParseDir ys tp (hc_CatalogDir (cfg_HelmiConfig config)) (walk (hc_CatalogDir (cfg_HelmiConfig config))) = Ok c"
    "set_environment config w = (Ok (), v)"
    "NewClient kc nt (cfg_HelmiConfig config) v = (Ok client, w')"
    "b = New (cfg_HelmiConfig config) c client" "served = Run b ('':'' @ port)"
  using assms unfolding main_program_def Let_def
  unfolding andthen_Ok_iff [of "wrap_err _ _"] andthen_Ok_iff [of "lift _"] attempt_case_Ok
  by (auto simp: go_ok)

end
