(* ===== verification/Lifecycle.thy ===== *)
theory Lifecycle
  imports Main_Program Tiller
begin

text \<open>
  What the broker promises to the platform: a set of instances to which provisioning adds and
  from which deprovisioning removes. The operations of the broker refine it under the contract
  of Tiller of the theory before, and the broker that serves requests is a state machine whose
  reachable states keep the releases of others.
\<close>

section \<open>What a run leaves\<close>

lemma holds_append: "holds h0 (es @ fs) = holds (holds h0 es) fs"
  by (simp add: holds_def)

lemma presence_quiet: "\<not> mutates (fst e) \<Longrightarrow> presence_step h e = h"
  by (cases e) (auto simp: presence_step_def mutates_def split: call.splits)

lemma holds_mutations: "holds h0 (filter (\<lambda>e. mutates (fst e)) es) = holds h0 es"
  by (induction es arbitrary: h0) (auto simp: holds_def presence_quiet)

text \<open>What is held after a run depends on the changes it made.\<close>

lemma holds_adds: "adds ms w w' \<Longrightarrow> holds h0 (w_hist w') = holds (holds h0 (w_hist w)) ms"
  unfolding adds_def by (elim conjE exE) (metis holds_append holds_mutations)

lemma holds_events [simp]:
  "holds h [] = h"
  "holds h [install_event ch rel ns wait v ok] = h(rel := installed ok (h rel))"
  "holds h [delete_event rel ok] = h(rel := deleted True ok (h rel))"
  "holds h [update_event ch rel wait v ok] = h"
  by (simp_all add: holds_def presence_step_def install_event_def delete_event_def update_event_def
      installOpts_def deleteOpts_def)

section \<open>Errors that the broker does not invent\<close>

text \<open>
  The two errors that the platform knows are returned by the broker alone; what is below it
  returns errors of its own, as texts.
\<close>

definition plain :: "('w, 'a) act \<Rightarrow> bool" where
  "plain m \<longleftrightarrow> (\<forall>w e w'. m w = (Err e, w') \<longrightarrow> (\<exists>s. e = Errorf s))"

lemma plainD: "plain m \<Longrightarrow> m w = (Err e, w') \<Longrightarrow> \<exists>s. e = Errorf s"
  by (auto simp: plain_def)

lemma plain_values:
  "plain (ret x)" "plain (fail (Errorf s))" "plain (get f)" "plain (lift (of_sum v))"
  "plain (lift (Panic p))" "plain (lift (Ok x))" "plain (wrap_err s m)"
  by (auto simp: plain_def go_ok) (cases v; auto)

lemma plain_calls: "plain (call_sum c f)" "plain (call_opt c g)" "plain (log_call c)"
  "plain next_seed" "plain (os_Stat p)" "plain (update_call rel ch opts)" "plain credential_seeds"
  by (auto simp: plain_def call_sum_def call_opt_def Let_def log_call_def next_seed_def os_Stat_def
      update_call_def credential_seeds_def of_sum_def split: prod.splits sum.splits option.splits)

lemma plain_andthen: "plain m \<Longrightarrow> (\<And>x. plain (f x)) \<Longrightarrow> plain (andthen m f)"
  unfolding plain_def by (auto simp: go_ok; blast)

lemma plain_attempt: "plain (attempt m)"
  by (simp add: plain_def)

lemma plain_attempt_then:
  assumes "plain m" "\<And>s. plain (f (Inl (Errorf s)))" "\<And>x. plain (f (Inr x))"
  shows "plain (andthen (attempt m) f)"
  unfolding plain_def
proof (intro allI impI)
  fix w e w'
  assume run: "andthen (attempt m) f w = (Err e, w')"
  obtain q v where q: "m w = (q, v)" by (cases "m w")
  show "\<exists>s. e = Errorf s"
  proof (cases q)
    case (Ok x)
    with q run have "f (Inr x) v = (Err e, w')" by simp
    then show ?thesis by (rule plainD [OF assms(3)])
  next
    case (Err e')
    with q obtain s where "e' = Errorf s" using plainD [OF assms(1)] by blast
    with Err q run have "f (Inl (Errorf s)) v = (Err e, w')" by simp
    then show ?thesis by (rule plainD [OF assms(2)])
  next
    case (Panic p)
    with q run show ?thesis by simp
  qed
qed

lemma plain_fold_act: "(\<And>x s. plain (f x s)) \<Longrightarrow> plain (fold_act f xs s)"
  by (induction xs arbitrary: s) (auto intro: plain_values plain_andthen)

lemma plain_each: "(\<And>x. plain (f x)) \<Longrightarrow> plain (each f xs)"
  by (induction xs) (auto intro: plain_values plain_andthen)

lemma plain_splits:
  "plain m \<Longrightarrow> plain n \<Longrightarrow> plain (if b then m else n)"
  "plain n \<Longrightarrow> (\<And>x. plain (g x)) \<Longrightarrow> plain (case o' of None \<Rightarrow> n | Some x \<Rightarrow> g x)"
  "(\<And>e. plain (h e)) \<Longrightarrow> (\<And>x. plain (g x)) \<Longrightarrow> plain (case s of Inl e \<Rightarrow> h e | Inr x \<Rightarrow> g x)"
  "(\<And>x y. plain (k x y)) \<Longrightarrow> plain (case t of (x, y) \<Rightarrow> k x y)"
  "(\<And>x y. plain (k' x y u)) \<Longrightarrow> plain ((case t of (x, y) \<Rightarrow> k' x y) u)"
  by (auto split: option.splits sum.splits prod.splits)

lemmas plain_intros = plain_attempt_then plain_values plain_calls plain_andthen plain_fold_act
  plain_each plain_splits

lemma plain_below:
  "plain (catalog_GetService c s)" "plain (catalog_GetServicePlan c s p)"
  "plain (chartNamespace ctx ps)" "plain (ReleaseStatus_call n)"
  "plain (ConvertInterfaceToByte vals)" "plain (json_Unmarshal decode raw)"
  unfolding catalog_GetService_def catalog_GetServicePlan_def chartNamespace_def
    ReleaseStatus_call_def ConvertInterfaceToByte_def json_Unmarshal_def
  by (intro plain_intros)+

lemma plain_ExistRelease: "plain (ExistRelease n)"
  by (auto simp: plain_def run_ExistRelease split: sum.splits if_splits)

lemma plain_getRelease: "plain (getRelease n)"
  unfolding getRelease_def
  by (intro plain_intros) (auto simp: plain_def index_at_def)

lemma plain_InstallRelease: "plain (InstallRelease c rel cn ver off vals ns acc)"
  unfolding InstallRelease_def Let_def by (intro plain_intros plain_getRelease)

lemma plain_getName: "plain (lift (getName iid))"
  by (auto simp: plain_def getName_def Go_Strings.slice_def Let_def split: if_splits)

lemma plain_getChart: "plain (lift (release_getChart s p))"
  by (auto simp: plain_def release_getChart_def split: if_splits)

lemma plain_Install: "plain (Install c s p iid acc ps ctx cl)"
  unfolding Install_def
  by (rule plain_andthen [OF plain_getName], (rule plain_andthen, rule plain_below)+,
      rule plain_andthen, rule plain_attempt)
     (intro plain_intros plain_below plain_getChart plain_InstallRelease)

lemma plain_provision_new: "plain (provision_new b cl iid d acc)"
  unfolding provision_new_def by (intro plain_intros plain_below plain_Install)

lemma plain_Delete: "plain (Delete iid)"
  unfolding Delete_def client_DeleteRelease_def by (intro plain_andthen plain_getName plain_values)

section \<open>The contract of the broker\<close>

text \<open>
  What provisioning and deprovisioning promise about the instance: its presence before, its
  presence after, and the outcome.
\<close>

definition spec_Provision :: "presence \<Rightarrow> presence \<Rightarrow> 'a result \<Rightarrow> bool" where
  "spec_Provision p p' r = (case r of
       Ok _ \<Rightarrow> p' = Present
     | Err e \<Rightarrow> (if e = ErrInstanceAlreadyExists then p \<noteq> Absent \<and> p' = p
                else p' \<in> {p, installed False p, Present})
     | Panic _ \<Rightarrow> p' \<in> {p, Present})"

definition spec_Deprovision :: "presence \<Rightarrow> presence \<Rightarrow> 'a result \<Rightarrow> bool" where
  "spec_Deprovision p p' r = (case r of
       Ok _ \<Rightarrow> p' = Absent
     | Err e \<Rightarrow> (if e = ErrInstanceDoesNotExist then p \<noteq> Present \<and> p' = p
                else p' \<in> {p, deleted True False p})
     | Panic _ \<Rightarrow> p' = p)"

text \<open>Provisioning never makes a release less certain to be there, deprovisioning never more.\<close>

lemma spec_mono:
  "spec_Provision p p' r \<Longrightarrow> p \<le> p'" "spec_Deprovision p p' r \<Longrightarrow> p' \<le> p"
  using installed_mono [of p False] deleted_mono [of True False p]
  by (auto simp: spec_Provision_def spec_Deprovision_def less_eq_presence_def
      split: result.splits if_splits)

text \<open>The run of provisioning, by what the status request answered.\<close>

lemma run_Provision:
  assumes "getName iid = Ok n"
  shows "Provision b cl iid d acc w =
     (let w1 = record_call (LogDetails iid (rd_RawParameters d)) True w
      in case ext_ReleaseStatus (w_ext w) (w_hist w1) n of
           Inr (Some s) \<Rightarrow> (Err ErrInstanceAlreadyExists, record_call (ReleaseStatus n) True w1)
         | Inr None \<Rightarrow> provision_new b cl iid d acc (record_call (ReleaseStatus n) True w1)
         | Inl e \<Rightarrow> provision_new b cl iid d acc (record_call (ReleaseStatus n) False w1))"
  unfolding Provision_def Let_def
  by (auto simp: andthen_def [of "log_call _"] run_log_call attempt_def run_Exists [OF assms]
      run_ExistRelease andthen_def split: sum.splits option.splits)

lemma run_Deprovision:
  assumes "getName iid = Ok n"
  shows "Deprovision b iid w =
     (let w1 = record_call (LogDetails iid []) True w;
          delete = andthen (Delete iid) (\<lambda>_. ret \<lparr>spec_IsAsync = False\<rparr>)
      in case ext_ReleaseStatus (w_ext w) (w_hist w1) n of
           Inr (Some s) \<Rightarrow> delete (record_call (ReleaseStatus n) True w1)
         | Inr None \<Rightarrow> (Err ErrInstanceDoesNotExist, record_call (ReleaseStatus n) True w1)
         | Inl e \<Rightarrow> (if strings_Contains e ''not found''
                     then (Err ErrInstanceDoesNotExist, record_call (ReleaseStatus n) False w1)
                     else delete (record_call (ReleaseStatus n) False w1)))"
  unfolding Deprovision_def Let_def
  by (auto simp: run_log_call attempt_def run_Exists [OF assms]
      run_ExistRelease andthen_def split: sum.splits option.splits)

lemma adds_check: "adds [] w (record_call (ReleaseStatus n) ok (record_call (LogDetails i d) True w))"
  by (rule adds_trans [where a = "[]" and b = "[]", simplified]; rule adds_quiet_record; simp)

text \<open>What a status request says of the presence, when Tiller keeps its contract.\<close>

lemma tiller_ok_status:
  assumes "tiller_ok h0 x"
  shows "ext_ReleaseStatus x es n = Inr (Some s) \<Longrightarrow> holds h0 es n \<noteq> Absent"
    and "ext_ReleaseStatus x es n = Inr None \<Longrightarrow> holds h0 es n \<noteq> Present"
    and "ext_ReleaseStatus x es n = Inl e \<Longrightarrow> strings_Contains e ''not found'' \<Longrightarrow> holds h0 es n \<noteq> Present"
proof -
  note status = assms [unfolded tiller_ok_def, rule_format, of es n]
  show "ext_ReleaseStatus x es n = Inr (Some s) \<Longrightarrow> holds h0 es n \<noteq> Absent"
    "ext_ReleaseStatus x es n = Inr None \<Longrightarrow> holds h0 es n \<noteq> Present"
    "ext_ReleaseStatus x es n = Inl e \<Longrightarrow> strings_Contains e ''not found'' \<Longrightarrow> holds h0 es n \<noteq> Present"
    using status by simp_all
qed

lemma holds_checked:
  "holds h0 (w_hist (record_call (LogDetails i d) True w)) = holds h0 (w_hist w)"
  "holds h0 (w_hist (record_call (ReleaseStatus n) ok (record_call (LogDetails i d) True w)))
     = holds h0 (w_hist w)"
  using holds_adds [OF adds_check] holds_adds [OF adds_quiet_record [of "LogDetails i d"]]
  by simp_all

lemma spec_Provision_new:
  assumes new: "provision_new b cl iid d acc v = (r, w')" and n: "getName iid = Ok n"
  shows "\<exists>p'. holds h0 (w_hist w') = (holds h0 (w_hist v))(n := p')
    \<and> spec_Provision (holds h0 (w_hist v) n) p' r"
proof -
  let ?h = "holds h0 (w_hist v)"
  from provision_new_ends new obtain ms where ms: "adds ms v w'" "install_ends iid (\<not> acc) ms r"
    by (rule endsE)
  have h: "holds h0 (w_hist w') = holds ?h ms" by (rule holds_adds [OF ms(1)])
  have plain: "r = Err e \<Longrightarrow> e \<noteq> ErrInstanceAlreadyExists" for e
    using plainD [OF plain_provision_new] new by blast
  from ms(2) consider (none) "ms = []" "\<forall>x. r \<noteq> Ok x"
    | (one) ch ns v ok where "ms = [install_event ch n ns (\<not> acc) v ok]" "ok \<or> (\<exists>e. r = Err e)"
    using n by (auto simp: install_ends_def install_outcome_def)
  then show ?thesis
  proof cases
    case none
    with h plain show ?thesis
      by (intro exI [of _ "?h n"]) (auto simp: spec_Provision_def split: result.splits)
  next
    case one
    with h plain show ?thesis
      by (intro exI [of _ "installed ok (?h n)"])
         (auto simp: spec_Provision_def installed_def split: result.splits if_splits)
  qed
qed

lemma spec_Delete:
  assumes run: "andthen (Delete iid) (\<lambda>_. ret (x :: ServiceSpec)) v = (r, w')" and n: "getName iid = Ok n"
  shows "\<exists>p'. holds h0 (w_hist w') = (holds h0 (w_hist v))(n := p')
    \<and> spec_Deprovision (holds h0 (w_hist v) n) p' r"
proof -
  let ?h = "holds h0 (w_hist v)"
  obtain q u where q: "Delete iid v = (q, u)" by (cases "Delete iid v")
  with run have r: "r = map_result (\<lambda>_. x) q" "w' = u" by (cases q; simp)+
  from Delete_ends q obtain ms where ms: "adds ms v u" "delete_ends iid ms q" by (rule endsE)
  have h: "holds h0 (w_hist w') = holds ?h ms" using holds_adds [OF ms(1)] r(2) by simp
  have plain: "q = Err e \<Longrightarrow> e \<noteq> ErrInstanceDoesNotExist" for e
    using plainD [OF plain_Delete] q by blast
  from ms(2) n consider (none) p where "ms = []" "q = Panic p"
    | (one) ok where "ms = [delete_event n ok]" "if ok then q = Ok () else \<exists>e. q = Err e"
    by (auto simp: delete_ends_def)
  then show ?thesis
  proof cases
    case none
    with h r show ?thesis by (intro exI [of _ "?h n"]) (simp add: spec_Deprovision_def)
  next
    case one
    with h r plain show ?thesis
      by (intro exI [of _ "deleted True ok (?h n)"])
         (auto simp: spec_Deprovision_def deleted_def split: if_splits)
  qed
qed

lemma Provision_spec:
  assumes tiller: "tiller_ok h0 (w_ext w)" and n: "getName iid = Ok n"
    and run: "Provision b cl iid d acc w = (r, w')"
  shows "\<exists>p'. holds h0 (w_hist w') = (holds h0 (w_hist w))(n := p')
    \<and> spec_Provision (holds h0 (w_hist w) n) p' r"
proof -
  define w1 where "w1 = record_call (LogDetails iid (rd_RawParameters d)) True w"
  note same = holds_checked [where i = iid and d = "rd_RawParameters d" and w = w, folded w1_def]
  note run = run [unfolded run_Provision [OF n] Let_def, folded w1_def]
  show ?thesis
  proof (cases "ext_ReleaseStatus (w_ext w) (w_hist w1) n")
    case (Inl e)
    with run have "provision_new b cl iid d acc (record_call (ReleaseStatus n) False w1) = (r, w')"
      by simp
    from spec_Provision_new [OF this n, of h0] show ?thesis by (simp add: same)
  next
    case (Inr s)
    show ?thesis
    proof (cases s)
      case None
      with Inr run have "provision_new b cl iid d acc (record_call (ReleaseStatus n) True w1) = (r, w')"
        by simp
      from spec_Provision_new [OF this n, of h0] show ?thesis by (simp add: same)
    next
      case (Some t)
      with Inr have "holds h0 (w_hist w1) n \<noteq> Absent" using tiller_ok_status(1) [OF tiller] by blast
      moreover from Some Inr run have "r = Err ErrInstanceAlreadyExists"
        "w' = record_call (ReleaseStatus n) True w1" by simp_all
      ultimately show ?thesis
        by (intro exI [of _ "holds h0 (w_hist w) n"]) (simp add: spec_Provision_def same)
    qed
  qed
qed

lemma Deprovision_spec:
  assumes tiller: "tiller_ok h0 (w_ext w)" and n: "getName iid = Ok n"
    and run: "Deprovision b iid w = (r, w')"
  shows "\<exists>p'. holds h0 (w_hist w') = (holds h0 (w_hist w))(n := p')
    \<and> spec_Deprovision (holds h0 (w_hist w) n) p' r"
proof -
  define w1 where "w1 = record_call (LogDetails iid []) True w"
  note same = holds_checked [where i = iid and d = "[]" and w = w, folded w1_def]
  note run = run [unfolded run_Deprovision [OF n] Let_def, folded w1_def]
  have gone: "holds h0 (w_hist w) n \<noteq> Present \<Longrightarrow> w' = record_call (ReleaseStatus n) ok w1 \<Longrightarrow>
      r = Err ErrInstanceDoesNotExist \<Longrightarrow> ?thesis" for ok
    using same by (intro exI [of _ "holds h0 (w_hist w) n"]) (simp add: spec_Deprovision_def)
  show ?thesis
  proof (cases "ext_ReleaseStatus (w_ext w) (w_hist w1) n")
    case (Inl e)
    show ?thesis
    proof (cases "strings_Contains e ''not found''")
      case True
      with Inl have "holds h0 (w_hist w) n \<noteq> Present"
        using tiller_ok_status(3) [OF tiller] same(1) by metis
      with True Inl run gone [of False] show ?thesis by auto
    next
      case False
      with Inl run have "andthen (Delete iid) (\<lambda>_. ret \<lparr>spec_IsAsync = False\<rparr>)
          (record_call (ReleaseStatus n) False w1) = (r, w')" by simp
      from spec_Delete [OF this n, of h0] show ?thesis by (simp add: same)
    qed
  next
    case (Inr s)
    show ?thesis
    proof (cases s)
      case None
      with Inr have "holds h0 (w_hist w) n \<noteq> Present"
        using tiller_ok_status(2) [OF tiller] same(1) by metis
      with None Inr run gone [of True] show ?thesis by auto
    next
      case (Some t)
      with Inr run have "andthen (Delete iid) (\<lambda>_. ret \<lparr>spec_IsAsync = False\<rparr>)
          (record_call (ReleaseStatus n) True w1) = (r, w')" by simp
      from spec_Delete [OF this n, of h0] show ?thesis by (simp add: same)
    qed
  qed
qed

section \<open>The broker as a state machine\<close>

datatype request =
    ProvisionRequest string RequestDetails bool
  | UpdateRequest string RequestDetails bool
  | DeprovisionRequest string
  | BindRequest string string RequestDetails
  | UnbindRequest string string
  | LastOperationRequest string

text \<open>Serving one request; the answer is left out.\<close>

definition serve :: "HelmBroker \<Rightarrow> Client \<Rightarrow> request \<Rightarrow> ('c, 'r) world \<Rightarrow> ('c, 'r) world" where
  "serve b cl q w = (case q of
       ProvisionRequest iid d async \<Rightarrow> snd (Provision b cl iid d async w)
     | UpdateRequest iid d async \<Rightarrow> snd (broker_Update b cl iid d async w)
     | DeprovisionRequest iid \<Rightarrow> snd (Deprovision b iid w)
     | BindRequest iid bid d \<Rightarrow> snd (Bind b iid bid d w)
     | UnbindRequest iid bid \<Rightarrow> snd (Unbind b iid bid w)
     | LastOperationRequest iid \<Rightarrow> snd (LastOperation b iid w))"

inductive served :: "HelmBroker \<Rightarrow> Client \<Rightarrow> ('c, 'r) world \<Rightarrow> ('c, 'r) world \<Rightarrow> bool"
  for b cl w where
  start: "served b cl w w"
| request: "served b cl w u \<Longrightarrow> v = serve b cl q u \<Longrightarrow> served b cl w v"

inductive_simps served_iff: "served b cl w v"

definition request_instance :: "request \<Rightarrow> string" where
  "request_instance q = (case q of
       ProvisionRequest iid d async \<Rightarrow> iid | UpdateRequest iid d async \<Rightarrow> iid
     | DeprovisionRequest iid \<Rightarrow> iid | BindRequest iid bid d \<Rightarrow> iid
     | UnbindRequest iid bid \<Rightarrow> iid | LastOperationRequest iid \<Rightarrow> iid)"

text \<open>Every request makes only calls about the release of its instance.\<close>

lemma serve_calls: "only (broker_call (request_instance q)) w (serve b cl q w)"
  using broker_calls [where iid = "request_instance q"]
  by (cases q) (auto simp: serve_def request_instance_def intro!: calls.keepsD [OF _ prod.collapse [symmetric]])

text \<open>The name of a release of the broker starts with its prefix.\<close>

lemma getName_prefix: "getName iid = Ok n \<Longrightarrow> strings_HasPrefix n ''helmi''"
  by (cases "strings_HasPrefix iid ''helmi''")
     (auto simp: getName_stripped split: if_splits, auto simp: getName_def strings_HasPrefix_def)

text \<open>A call that is about one release leaves the presence of the others alone.\<close>

lemma presence_about: "about n c \<Longrightarrow> m \<noteq> n \<Longrightarrow> presence_step h (c, ok) m = h m"
  by (auto simp: presence_step_def about_def split: call.splits)

lemma holds_broker_calls:
  assumes "list_all (\<lambda>e. broker_call iid (fst e)) es" and "getName iid \<noteq> Ok m"
  shows "holds h es m = h m"
  using assms(1)
proof (induction es arbitrary: h)
  case (Cons e es)
  have "\<exists>n. n \<noteq> m \<and> about n (fst e)"
  proof (cases "\<exists>k. getName iid = Ok k")
    case True
    with Cons.prems assms(2) show ?thesis by (auto simp: broker_call_def)
  next
    case False
    with Cons.prems have "about (CHR ''x'' # m) (fst e)" by (auto simp: broker_call_def)
    then show ?thesis by (metis not_Cons_self)
  qed
  then have "presence_step h e m = h m" by (metis presence_about prod.collapse)
  with Cons show ?case by (simp add: holds_def)
qed (simp add: holds_def)

lemma serve_other:
  assumes "getName (request_instance q) \<noteq> Ok m"
  shows "holds h0 (w_hist (serve b cl q w)) m = holds h0 (w_hist w) m"
proof -
  from serve_calls [of q w b cl] obtain es where es: "w_hist (serve b cl q w) = w_hist w @ es"
    "list_all (\<lambda>e. broker_call (request_instance q) (fst e)) es"
    by (auto simp: only_def)
  with holds_broker_calls [OF es(2) assms] show ?thesis by (simp add: holds_append)
qed

lemma serve_frame: "w_ext (serve b cl q w) = w_ext w" "w_env (serve b cl q w) = w_env w"
  using serve_calls [of q w b cl] by (simp_all add: only_def)

lemma Provision_ext [simp]: "w_ext (snd (Provision b cl iid d async w)) = w_ext w"
  using serve_frame(1) [of b cl "ProvisionRequest iid d async" w] by (simp add: serve_def)

lemma Deprovision_ext [simp]: "w_ext (snd (Deprovision b iid w)) = w_ext w"
  using serve_frame(1) [of b undefined "DeprovisionRequest iid" w] by (simp add: serve_def)

text \<open>What the contract says of single answers.\<close>

lemma provisioned_present:
  assumes "tiller_ok h0 (w_ext w)" "getName iid = Ok n" "fst (Provision b cl iid d async w) = Ok spec"
  shows "holds h0 (w_hist (snd (Provision b cl iid d async w))) n = Present"
proof -
  from assms(3) have "Provision b cl iid d async w = (Ok spec, snd (Provision b cl iid d async w))"
    by (metis prod.collapse)
  from Provision_spec [OF assms(1,2) this] show ?thesis by (auto simp: spec_Provision_def)
qed

lemma deprovisioned_absent:
  assumes "tiller_ok h0 (w_ext w)" "getName iid = Ok n" "fst (Deprovision b iid w) = Ok spec"
  shows "holds h0 (w_hist (snd (Deprovision b iid w))) n = Absent"
proof -
  from assms(3) have "Deprovision b iid w = (Ok spec, snd (Deprovision b iid w))"
    by (metis prod.collapse)
  from Deprovision_spec [OF assms(1,2) this] show ?thesis by (auto simp: spec_Deprovision_def)
qed

lemma present_found:
  assumes "tiller_ok h0 (w_ext w)" "getName iid = Ok n" "holds h0 (w_hist w) n = Present"
  shows "fst (Deprovision b iid w) \<noteq> Err ErrInstanceDoesNotExist"
  using Deprovision_spec [OF assms(1,2) prod.collapse [symmetric], of b] assms(3)
  by (auto simp: spec_Deprovision_def)

lemma absent_free:
  assumes "tiller_ok h0 (w_ext w)" "getName iid = Ok n" "holds h0 (w_hist w) n = Absent"
  shows "fst (Provision b cl iid d async w) \<noteq> Err ErrInstanceAlreadyExists"
  using Provision_spec [OF assms(1,2) prod.collapse [symmetric], of b cl d async] assms(3)
  by (auto simp: spec_Provision_def)

text \<open>Deprovisioning while Tiller accepts the deletion of the release.\<close>

lemma Deprovision_grows: "length (w_hist w) < length (w_hist (snd (Deprovision b iid w)))"
proof -
  let ?u = "record_call (LogDetails iid []) True w"
  let ?rest = "andthen (attempt (Exists iid)) (\<lambda>exist.
      if exist = Inr False then fail ErrInstanceDoesNotExist
      else andthen (Delete iid) (\<lambda>_. ret \<lparr>spec_IsAsync = False\<rparr>))"
  have "calls.keeps (\<lambda>_. True) ?rest" by (intro keeps_calls keeps_Exists keeps_Delete) simp_all
  then have "only (\<lambda>_. True) ?u (snd (?rest ?u))" by (rule calls.keepsD) (rule prod.collapse [symmetric])
  then have "length (w_hist ?u) \<le> length (w_hist (snd (?rest ?u)))" by (auto simp: only_def)
  then show ?thesis by (simp add: Deprovision_def log_call_def andthen_def record_call_def)
qed

lemma Delete_accepted:
  assumes "getName iid = Ok n" and "ext_DeleteRelease (w_ext w) (w_hist w) n deleteOpts = None"
  shows "Delete iid w = (Ok (), record_call (DeleteRelease n deleteOpts) True w)"
  by (simp add: Delete_def client_DeleteRelease_def call_opt_def call_sum_def andthen_def assms
      wrap_err_def record_call_def)

lemma Deprovision_accepted:
  assumes "getName iid = Ok n"
    and "\<And>h. length (w_hist w) \<le> length h \<Longrightarrow> ext_DeleteRelease (w_ext w) h n deleteOpts = None"
  shows "fst (Deprovision b iid w) \<in> {Ok \<lparr>spec_IsAsync = False\<rparr>, Err ErrInstanceDoesNotExist}"
  by (auto simp: run_Deprovision [OF assms(1)] Let_def Delete_accepted [OF assms(1)] andthen_def assms(2)
      record_call_def split: sum.splits option.splits)

lemma Deprovision_not_present:
  assumes "tiller_ok h0 (w_ext w)" "getName iid = Ok n"
    and "fst (Deprovision b iid w) \<in> {Ok spec, Err ErrInstanceDoesNotExist}"
  shows "holds h0 (w_hist (snd (Deprovision b iid w))) n \<noteq> Present"
  using Deprovision_spec [OF assms(1,2) prod.collapse [symmetric], of b] assms(3)
  by (auto simp: spec_Deprovision_def)

section \<open>The state of an operation\<close>

lemma operation_state_cases:
  "operation_state (state_of_status st) =
     (if st_IsFailed st then LoFailed
      else if st_AvailableNodes st \<ge> st_DesiredNodes st \<or> st_IsDeployed st then Succeeded
      else if st_IsDeleting st then InProgress else NoState)"
  by (simp add: operation_state_def state_of_status_def)

lemma run_LastOperation:
  assumes "getName iid = Ok n" and "client_GetStatus n w = (Ok st, w')"
  shows "LastOperation b iid w = (Ok (operation_state (state_of_status st)), w')"
  using assms by (simp add: LastOperation_def GetStatus_def)

lemma run_GetStatus_Err:
  "ext_ReleaseStatus (w_ext w) (w_hist w) n = Inl e \<Longrightarrow>
     client_GetStatus n w = (Err (Errorf e), record_call (ReleaseStatus n) False w)"
  by (simp add: client_GetStatus_def ReleaseStatus_call_def call_sum_def andthen_def)

end
