(* ===== verification/Call_Bounds.thy ===== *)
theory Call_Bounds
  imports Lifecycle
begin

text \<open>
  How many requests to Tiller the broker makes while it serves one request: every operation
  makes a bounded number of them, whatever they answer. The bounds are proved along the
  program, as the sum of the bounds of its parts.
\<close>

definition tiller_call :: "'c call \<Rightarrow> bool" where
  "tiller_call c = (case c of ReleaseStatus _ \<Rightarrow> True | InstallReleaseFromChart _ _ _ \<Rightarrow> True
     | UpdateReleaseFromChart _ _ _ \<Rightarrow> True | DeleteRelease _ _ \<Rightarrow> True | ReleaseContent _ \<Rightarrow> True
     | ListReleases _ \<Rightarrow> True | _ \<Rightarrow> False)"

abbreviation no_tiller :: "'c call \<Rightarrow> bool" where "no_tiller c \<equiv> \<not> tiller_call c"

lemma tiller_call_simps [simp]:
  "no_tiller (LogValues n vs)" "no_tiller (LogDetails n d)" "no_tiller (ExecuteTemplate t)"
  "no_tiller ListNodes" "chart_call c \<Longrightarrow> no_tiller c"
  by (auto simp: tiller_call_def chart_call_def repo_call_def split: call.splits)

text \<open>The requests to Tiller between two worlds.\<close>

definition tiller_calls :: "('c, 'r) world \<Rightarrow> ('c, 'r) world \<Rightarrow> nat" where
  "tiller_calls w w' = length (filter (\<lambda>e. tiller_call (fst e)) (drop (length (w_hist w)) (w_hist w')))"

definition costs :: "nat \<Rightarrow> ('c, 'r, 'a) prog \<Rightarrow> bool" where
  "costs k m \<longleftrightarrow> (\<forall>w r w'. m w = (r, w') \<longrightarrow>
     (\<exists>es. w_hist w' = w_hist w @ es \<and> length (filter (\<lambda>e. tiller_call (fst e)) es) \<le> k))"

lemma costs_tiller_calls: "costs k m \<Longrightarrow> tiller_calls w (snd (m w)) \<le> k"
  unfolding costs_def tiller_calls_def by (metis append_eq_conv_conj prod.collapse)

lemma costs_mono: "costs k m \<Longrightarrow> k \<le> l \<Longrightarrow> costs l m"
  unfolding costs_def by (meson order_trans)

lemma costs_free: "calls.keeps no_tiller m \<Longrightarrow> costs 0 m"
  unfolding costs_def
  by (auto dest!: calls.keepsD simp: only_def list_all_iff filter_empty_conv)

lemma costs_andthen:
  assumes "costs a m" "\<And>x. costs b (f x)"
  shows "costs (a + b) (andthen m f)"
  unfolding costs_def
proof (intro allI impI)
  fix w r w'
  assume run: "andthen m f w = (r, w')"
  obtain q v where q: "m w = (q, v)" by (cases "m w")
  with assms(1) obtain es where es: "w_hist v = w_hist w @ es"
    "length (filter (\<lambda>e. tiller_call (fst e)) es) \<le> a" unfolding costs_def by blast
  show "\<exists>es. w_hist w' = w_hist w @ es \<and> length (filter (\<lambda>e. tiller_call (fst e)) es) \<le> a + b"
  proof (cases q)
    case (Ok x)
    with run q have "f x v = (r, w')" by simp
    with assms(2) [of x] obtain fs where "w_hist w' = w_hist v @ fs"
      "length (filter (\<lambda>e. tiller_call (fst e)) fs) \<le> b" unfolding costs_def by blast
    with es show ?thesis by (intro exI [of _ "es @ fs"]) simp
  qed (use run q es in auto)
qed

lemma costs_free_then: "calls.keeps no_tiller m \<Longrightarrow> (\<And>x. costs b (f x)) \<Longrightarrow> costs b (andthen m f)"
  using costs_andthen [OF costs_free, of m b f] by simp

lemma costs_record:
  "\<exists>es. w_hist (record_call c ok w) = w_hist w @ es \<and> length (filter (\<lambda>e. tiller_call (fst e)) es) \<le> 1"
  by (simp add: record_call_def)

lemma costs_calls: "costs 1 (call_sum c f)" "costs 1 (call_opt c g)" "costs 1 (update_call rel ch opts)"
  unfolding costs_def call_opt_def call_sum_def update_call_def
  using costs_record by (auto simp: Let_def simp del: One_nat_def split: prod.splits)

lemma costs_attempt: "costs k m \<Longrightarrow> costs k (attempt m)"
  unfolding costs_def attempt_def by (auto split: prod.splits result.splits)

lemma costs_wrap_err: "costs k m \<Longrightarrow> costs k (wrap_err s m)"
  unfolding costs_def wrap_err_def by (auto split: prod.splits result.splits)

lemma costs_if: "costs k m \<Longrightarrow> costs k n \<Longrightarrow> costs k (if b then m else n)"
  by simp

lemma costs_option:
  "costs k m \<Longrightarrow> (\<And>x. costs k (f x)) \<Longrightarrow> costs k (case x of None \<Rightarrow> m | Some x \<Rightarrow> f x)"
  by (cases x) auto

lemma costs_sum:
  "(\<And>x. costs k (f x)) \<Longrightarrow> (\<And>x. costs k (g x)) \<Longrightarrow> costs k (case x of Inl x \<Rightarrow> f x | Inr x \<Rightarrow> g x)"
  by (cases x) auto

lemma costs_value: "costs k (ret x)" "costs k (fail e)" "costs k (lift r)"
  by (simp_all add: costs_def)

text \<open>The operations on releases.\<close>

lemmas free_parts = keeps_ConvertInterfaceToByte keeps_getChart keeps_next_seed keeps_log_call
  calls.keeps_wrap_err calls.keeps_lift calls.keeps_get calls.keeps_attempt keeps_lookups
  keeps_getChartValues keeps_credential_seeds keeps_with_template

lemma costs_call_then:
  "(\<And>x. costs k (g x)) \<Longrightarrow> costs (Suc k) (andthen (call_sum c f) g)"
  "(\<And>x. costs k (u x)) \<Longrightarrow> costs (Suc k) (andthen (update_call rel ch opts) u)"
  using costs_andthen [OF costs_calls(1), of k g c f] costs_andthen [OF costs_calls(3), of k u rel ch opts]
  by simp_all

lemma costs_release:
  "costs 1 (ExistRelease n)" "costs 1 (getRelease n)" "costs 1 (client_DeleteRelease n)"
  "costs 1 (client_GetStatus n)" "costs 1 (ParseReleaseValues n)"
proof -
  show "costs 1 (ExistRelease n)"
    by (auto simp: costs_def run_ExistRelease record_call_def split: sum.splits if_splits)
  show "costs 1 (getRelease n)"
    unfolding getRelease_def One_nat_def
    by (rule costs_call_then) (auto intro!: costs_if costs_value costs_free_then free_parts)
  show "costs 1 (client_DeleteRelease n)"
    unfolding client_DeleteRelease_def by (rule costs_wrap_err [OF costs_calls(2)])
  show "costs 1 (client_GetStatus n)"
    unfolding client_GetStatus_def ReleaseStatus_call_def One_nat_def
    by (rule costs_call_then) (simp add: costs_def)
  show "costs 1 (ParseReleaseValues n)"
    unfolding ParseReleaseValues_def One_nat_def
    by (rule costs_call_then)
       (auto intro!: costs_option costs_sum costs_value costs_free_then free_parts split: option.splits sum.splits)
qed

lemmas costs_release_Suc = costs_release [unfolded One_nat_def]

text \<open>A part that makes one request, and the rest.\<close>

lemma costs_one_then:
  "costs (Suc 0) m \<Longrightarrow> (\<And>x. costs k (f x)) \<Longrightarrow> costs (Suc k) (andthen m f)"
  using costs_andthen [of "Suc 0" m k f] by simp

lemma costs_InstallRelease: "costs (Suc (Suc 0)) (InstallRelease c rel cn ver off vals ns acc)"
  unfolding InstallRelease_def Let_def
  by (intro costs_call_then costs_free_then free_parts)
     (auto split: option.splits intro!: costs_release_Suc costs_value)

lemma costs_UpdateRelease: "costs (Suc (Suc (Suc 0))) (UpdateRelease c rel cn ver off vals ns acc)"
  unfolding UpdateRelease_def Let_def
  by (intro costs_call_then costs_one_then [OF costs_release_Suc(1)] costs_if costs_value costs_free_then free_parts)
     (auto split: option.splits prod.splits
       intro!: costs_value costs_one_then costs_wrap_err costs_release_Suc)

section \<open>The operations of the broker\<close>

lemma costs_tail: "costs k m \<Longrightarrow> (\<And>x. costs 0 (f x)) \<Longrightarrow> costs k (andthen m f)"
  using costs_andthen [of k m 0 f] by simp

lemma costs_Install: "costs (Suc (Suc 0)) (Install c s p iid acc ps ctx cl)"
  unfolding Install_def
  by (intro costs_tail [OF costs_InstallRelease] costs_free_then free_parts costs_value) simp_all

lemma costs_Update: "costs (Suc (Suc (Suc 0))) (Update iid c s p cl acc ps ctx)"
  unfolding Update_def
  by (intro costs_tail [OF costs_UpdateRelease] costs_free_then free_parts costs_value)

lemma costs_Exists: "costs (Suc 0) (Exists iid)"
  unfolding Exists_def by (intro costs_free_then free_parts costs_release_Suc)

lemma costs_Delete: "costs (Suc 0) (Delete iid)"
  unfolding Delete_def by (intro costs_free_then free_parts costs_release_Suc)

lemma costs_GetStatus: "costs (Suc (Suc 0)) (GetStatus iid)"
  unfolding GetStatus_def
  by (intro costs_free_then free_parts costs_one_then costs_attempt costs_release_Suc costs_sum
      costs_value costs_tail)

lemma costs_GetCredentials: "costs (Suc (Suc 0)) (GetCredentials c s p iid)"
  unfolding GetCredentials_def case_prod_unfold
  by (intro costs_free_then free_parts costs_one_then [OF costs_attempt [OF costs_release_Suc(4)]]
      costs_sum costs_tail [OF costs_attempt [OF costs_release_Suc(1)]] costs_value
      costs_tail [OF costs_release_Suc(5)] keeps_call_sum) simp_all

lemma free_decode: "calls.keeps P (if b then json_Unmarshal decode raw else ret x)"
  by (intro keeps_calls keeps_json_Unmarshal)

lemma costs_Provision: "costs (Suc (Suc (Suc 0))) (Provision b cl iid d acc)"
  unfolding Provision_def provision_new_def
  by (intro costs_tail [OF costs_Install] costs_free_then free_parts free_decode
      costs_one_then [OF costs_attempt [OF costs_Exists]] costs_if costs_value) simp

lemma costs_broker_Update: "costs (Suc (Suc (Suc 0))) (broker_Update b cl iid d acc)"
  unfolding broker_Update_def
  by (intro costs_tail [OF costs_Update] costs_free_then free_parts free_decode costs_value) simp

lemma costs_Deprovision: "costs (Suc (Suc 0)) (Deprovision b iid)"
  unfolding Deprovision_def
  by (intro costs_tail [OF costs_Delete] costs_free_then free_parts
      costs_one_then [OF costs_attempt [OF costs_Exists]] costs_if costs_value) simp

lemma costs_Bind: "costs (Suc (Suc 0)) (Bind b iid bid d)"
  unfolding Bind_def
  by (intro costs_GetCredentials costs_free_then free_parts free_decode) simp

lemma costs_Unbind: "costs (Suc 0) (Unbind b iid bid)"
  unfolding Unbind_def
  by (intro costs_tail [OF costs_Exists] costs_free_then free_parts costs_if costs_value) simp

lemma costs_LastOperation: "costs (Suc (Suc (Suc 0))) (LastOperation b iid)"
proof -
  have "costs (Suc (Suc 0) + Suc 0) (LastOperation b iid)"
    unfolding LastOperation_def
    by (intro costs_andthen [OF costs_attempt [OF costs_GetStatus]] costs_sum costs_value
        costs_tail [OF costs_attempt [OF costs_Exists]] costs_if)
  then show ?thesis by simp
qed

lemmas request_costs = costs_Provision costs_broker_Update costs_Deprovision costs_Bind costs_Unbind
  costs_LastOperation

lemmas request_calls = request_costs [THEN costs_tiller_calls]

section \<open>Properties\<close>

primrec max_calls :: "request \<Rightarrow> nat" where
  "max_calls (ProvisionRequest iid d async) = 3"
| "max_calls (UpdateRequest iid d async) = 3"
| "max_calls (DeprovisionRequest iid) = 2"
| "max_calls (BindRequest iid bid d) = 2"
| "max_calls (UnbindRequest iid bid) = 1"
| "max_calls (LastOperationRequest iid) = 3"

text \<open>
  C15: Serving a request makes a bounded number of requests to Tiller, whatever Tiller and the
  cluster answer: three for provisioning, updating and the last operation, two for
  deprovisioning and binding, one for unbinding.
\<close>

theorem tiller_calls_bounded: "tiller_calls w (serve b cl q w) \<le> max_calls q"
proof (cases q)
  case ProvisionRequest
  then show ?thesis using request_calls(1) by (simp add: serve_def numeral_3_eq_3)
next
  case UpdateRequest
  then show ?thesis using request_calls(2) by (simp add: serve_def numeral_3_eq_3)
next
  case DeprovisionRequest
  then show ?thesis using request_calls(3) by (simp add: serve_def numeral_2_eq_2)
next
  case BindRequest
  then show ?thesis using request_calls(4) by (simp add: serve_def numeral_2_eq_2)
next
  case UnbindRequest
  then show ?thesis using request_calls(5) by (simp add: serve_def)
next
  case LastOperationRequest
  then show ?thesis using request_calls(6) by (simp add: serve_def numeral_3_eq_3)
qed

end
