(* ===== verification/Interleaving.thy ===== *)
theory Interleaving
  imports Call_Bounds
begin

text \<open>
  Requests that are served at the same time. The server of \<open>broker.go\<close> runs a handler for each
  request, and nothing in the broker orders their calls. What a handler does depends on the
  others only through the answers it gets, and the answers of the model may depend on
  everything: a run of one request against any world is a run among others. So the history of
  requests served together is a shuffle of the histories of single runs, each in a world of its
  own; the converse need not hold, which makes what is proved here of all shuffles true of all
  executions.
\<close>

section \<open>Interleaved runs\<close>

text \<open>The calls of one request in the world it sees.\<close>

definition events :: "HelmBroker \<Rightarrow> Client \<Rightarrow> request \<Rightarrow> ('c, 'r) world \<Rightarrow> 'c history" where
  "events b cl q w = drop (length (w_hist w)) (w_hist (serve b cl q w))"

lemma serve_events: "w_hist (serve b cl q w) = w_hist w @ events b cl q w"
proof -
  from serve_calls [of q w b cl] obtain es where "w_hist (serve b cl q w) = w_hist w @ es"
    by (auto simp: only_def)
  then show ?thesis by (simp add: events_def)
qed

inductive interleaved ::
  "HelmBroker \<Rightarrow> Client \<Rightarrow> (request \<times> ('c, 'r) world) list \<Rightarrow> 'c history \<Rightarrow> bool" for b cl where
  idle: "interleaved b cl [] []"
| more: "interleaved b cl runs H \<Longrightarrow> K \<in> shuffles (events b cl q w) H \<Longrightarrow>
    interleaved b cl ((q, w) # runs) K"

inductive_simps interleaved_simps:
  "interleaved b cl [] H" "interleaved b cl (run # runs) H"

text \<open>What every call of every single run satisfies, every call of the interleaving does.\<close>

lemma interleaved_calls:
  assumes "interleaved b cl runs H"
    and "\<And>q w e. (q, w) \<in> set runs \<Longrightarrow> e \<in> set (events b cl q w) \<Longrightarrow> P e"
  shows "\<forall>e \<in> set H. P e"
  using assms
proof (induction rule: interleaved.induct)
  case (more runs H K q w)
  have "\<forall>e \<in> set H. P e" by (rule more.IH) (meson more.prems list.set_intros(2))
  moreover have "\<forall>e \<in> set (events b cl q w). P e" by (meson more.prems list.set_intros(1))
  ultimately show ?case using set_shuffles [OF more(2)] by auto
qed simp

section \<open>The calls of one request\<close>

lemma events_broker_call: "e \<in> set (events b cl q w) \<Longrightarrow> broker_call (request_instance q) (fst e)"
  using serve_calls [of q w b cl] by (auto simp: only_def events_def list_all_iff)

lemma filter_events:
  "adds ms w (serve b cl q w) \<Longrightarrow> filter (\<lambda>e. mutates (fst e)) (events b cl q w) = ms"
  by (auto simp: adds_def events_def)

text \<open>A release is deleted only for a request to deprovision.\<close>

definition deletes :: "string \<Rightarrow> 'c event \<Rightarrow> bool" where
  "deletes n e \<longleftrightarrow> (case fst e of DeleteRelease m opts \<Rightarrow> m = n | _ \<Rightarrow> False)"

lemma not_deletes [simp]:
  "\<not> deletes n (install_event ch rel ns wait v ok)" "\<not> deletes n (update_event ch rel wait v ok)"
  by (simp_all add: deletes_def install_event_def update_event_def)

lemma deletes_mutates: "deletes n e \<Longrightarrow> mutates (fst e)"
  by (cases "fst e") (auto simp: deletes_def)

lemma deletes_event [simp]: "deletes n (delete_event rel ok) \<longleftrightarrow> rel = n"
  by (simp add: deletes_def delete_event_def)

text \<open>A release is installed only for a request to provision.\<close>

definition asks_install :: "string \<Rightarrow> 'c event \<Rightarrow> bool" where
  "asks_install n e \<longleftrightarrow> (case fst e of InstallReleaseFromChart ch ns opts \<Rightarrow> opts_name opts = n | _ \<Rightarrow> False)"

lemma asks_install_event [simp]:
  "\<not> asks_install n (update_event ch rel wait v ok)" "\<not> asks_install n (delete_event rel ok)"
  "asks_install n (install_event ch rel ns wait v ok) \<longleftrightarrow> rel = n"
  by (simp_all add: asks_install_def install_event_def update_event_def delete_event_def installOpts_def)

lemma asks_install_mutates: "asks_install n e \<Longrightarrow> mutates (fst e)"
  by (cases "fst e") (auto simp: asks_install_def)

text \<open>The changes a request may ask for.\<close>

fun change_for :: "request \<Rightarrow> 'c event \<Rightarrow> bool" where
  "change_for (ProvisionRequest iid d async) e =
     (\<exists>n ch ns v ok. getName iid = Ok n \<and> e = install_event ch n ns (\<not> async) v ok)"
| "change_for (UpdateRequest iid d async) e =
     (\<exists>n ch v ok. getName iid = Ok n \<and> e = update_event ch n (\<not> async) v ok)"
| "change_for (DeprovisionRequest iid) e = (\<exists>n ok. getName iid = Ok n \<and> e = delete_event n ok)"
| "change_for (BindRequest iid bid d) e = False"
| "change_for (UnbindRequest iid bid) e = False"
| "change_for (LastOperationRequest iid) e = False"

lemma ends_changes:
  "ends Q m \<Longrightarrow> (\<And>ms r. Q ms r \<Longrightarrow> \<forall>e \<in> set ms. P e) \<Longrightarrow>
   \<exists>ms. adds ms w (snd (m w)) \<and> (\<forall>e \<in> set ms. P e)"
  by (metis endsE prod.collapse)

lemma quiet_changes:
  "calls.keeps quiet m \<Longrightarrow> \<exists>ms. adds ms w (snd (m w)) \<and> (\<forall>e \<in> set ms. P e)"
  by (rule ends_changes [OF ends_quiet, where Q = "\<lambda>ms r. ms = []"]) simp_all

lemma serve_changes: "\<exists>ms. adds ms w (serve b cl q w) \<and> (\<forall>e \<in> set ms. change_for q e)"
proof (cases q)
  case (ProvisionRequest iid d async)
  show ?thesis
    unfolding ProvisionRequest serve_def request.case
    by (rule ends_changes [OF Provision_ends]) (fastforce simp: install_ends_def install_outcome_def)
next
  case (UpdateRequest iid d async)
  show ?thesis
    unfolding UpdateRequest serve_def request.case
    by (rule ends_changes [OF broker_Update_ends]) (fastforce simp: update_ends_def update_outcome_def)
next
  case (DeprovisionRequest iid)
  show ?thesis
    unfolding DeprovisionRequest serve_def request.case
    by (rule ends_changes [OF Deprovision_ends]) simp
next
  case (BindRequest iid bid d)
  show ?thesis
    unfolding BindRequest serve_def request.case by (rule quiet_changes [OF broker_reads(1)])
next
  case (UnbindRequest iid bid)
  show ?thesis
    unfolding UnbindRequest serve_def request.case by (rule quiet_changes [OF broker_reads(2)])
next
  case (LastOperationRequest iid)
  show ?thesis
    unfolding LastOperationRequest serve_def request.case by (rule quiet_changes [OF broker_reads(3)])
qed

lemma events_changes:
  assumes "e \<in> set (events b cl q w)" and "mutates (fst e)"
  shows "change_for q e"
proof -
  obtain ms where ms: "adds ms w (serve b cl q w)" "\<forall>e \<in> set ms. change_for q e"
    using serve_changes by blast
  have "e \<in> set (filter (\<lambda>e. mutates (fst e)) (events b cl q w))" using assms by simp
  with ms show ?thesis by (simp add: filter_events)
qed

lemma events_deletes:
  "e \<in> set (events b cl q w) \<Longrightarrow> deletes n e \<Longrightarrow> \<exists>iid. q = DeprovisionRequest iid \<and> getName iid = Ok n"
  using events_changes [of e b cl q w] deletes_mutates [of n e] by (cases q) auto

lemma events_installs:
  "e \<in> set (events b cl q w) \<Longrightarrow> asks_install n e \<Longrightarrow>
   \<exists>iid d async. q = ProvisionRequest iid d async \<and> getName iid = Ok n"
  using events_changes [of e b cl q w] asks_install_mutates [of n e] by (cases q) auto

section \<open>What is held\<close>

lemma presence_step_mono:
  assumes "\<not> deletes n e"
  shows "h n \<le> presence_step h e n"
  using assms installed_mono by (cases e) (auto simp: presence_step_def deletes_def split: call.splits)

lemma holds_Cons: "holds h (e # es) = holds (presence_step h e) es"
  by (simp add: holds_def)

lemma holds_mono:
  "\<forall>e \<in> set es. \<not> deletes n e \<Longrightarrow> h n \<le> holds h es n"
proof (induction es arbitrary: h)
  case (Cons e es)
  then have "h n \<le> presence_step h e n" "presence_step h e n \<le> holds (presence_step h e) es n"
    by (simp_all add: presence_step_mono)
  then show ?case by (simp add: holds_Cons)
qed (simp add: holds_def)

text \<open>An installation that Tiller accepted, and the documented refusal of a name in use.\<close>

definition accepts_install :: "string \<Rightarrow> 'c event \<Rightarrow> bool" where
  "accepts_install n e \<longleftrightarrow> snd e \<and>
     (case fst e of InstallReleaseFromChart ch ns opts \<Rightarrow> opts_name opts = n | _ \<Rightarrow> False)"

fun refuses_reuse :: "(string \<Rightarrow> presence) \<Rightarrow> 'c history \<Rightarrow> bool" where
  "refuses_reuse h [] = True"
| "refuses_reuse h ((c, ok) # es) =
     ((case c of InstallReleaseFromChart ch ns opts \<Rightarrow> ok \<longrightarrow> h (opts_name opts) \<noteq> Present | _ \<Rightarrow> True)
      \<and> refuses_reuse (presence_step h (c, ok)) es)"

lemma accepted_present: "accepts_install n e \<Longrightarrow> presence_step h e n = Present"
  by (cases e) (auto simp: accepts_install_def presence_step_def installed_def split: call.splits)

lemma refused_when_present:
  assumes "refuses_reuse h es" "\<forall>e \<in> set es. \<not> deletes n e" "h n = Present"
  shows "filter (accepts_install n) es = []"
  using assms
proof (induction h es rule: refuses_reuse.induct)
  case (2 h c ok es)
  have "\<not> accepts_install n (c, ok)"
    using 2(2,4) by (auto simp: accepts_install_def split: call.splits)
  moreover have "presence_step h (c, ok) n = Present"
    using presence_step_mono [of n "(c, ok)" h] 2(3,4) by (auto simp: less_eq_presence_def)
  ultimately show ?case using 2 by simp
qed simp

lemma accepted_once:
  assumes "refuses_reuse h es" "\<forall>e \<in> set es. \<not> deletes n e"
  shows "length (filter (accepts_install n) es) \<le> 1"
  using assms
proof (induction h es rule: refuses_reuse.induct)
  case (2 h c ok es)
  show ?case
  proof (cases "accepts_install n (c, ok)")
    case True
    then have "presence_step h (c, ok) n = Present" by (rule accepted_present)
    with refused_when_present [of "presence_step h (c, ok)" es n] 2 True show ?thesis by simp
  next
    case False
    with 2 show ?thesis by simp
  qed
qed simp

lemma accepted_held:
  assumes "\<forall>e \<in> set es. \<not> deletes n e" "filter (accepts_install n) es \<noteq> []"
  shows "holds h es n = Present"
  using assms
proof (induction es arbitrary: h)
  case (Cons e es)
  show ?case
  proof (cases "accepts_install n e")
    case True
    then have "presence_step h e n = Present" by (rule accepted_present)
    with holds_mono [of es n "presence_step h e"] Cons(2) show ?thesis
      by (auto simp: holds_Cons less_eq_presence_def)
  next
    case False
    with Cons show ?thesis by (simp add: holds_Cons)
  qed
qed simp

lemma interleaved_foreign:
  assumes "interleaved b cl runs H" "\<not> strings_HasPrefix m ''helmi''"
  shows "holds h H m = h m"
proof -
  have "\<forall>e \<in> set H. \<exists>iid. broker_call iid (fst e)"
    by (rule interleaved_calls [OF assms(1)]) (blast dest: events_broker_call)
  then show ?thesis
  proof (induction H arbitrary: h)
    case (Cons e H)
    then obtain iid where "list_all (\<lambda>e. broker_call iid (fst e)) [e]" by auto
    moreover have "getName iid \<noteq> Ok m" using assms(2) getName_prefix by blast
    ultimately have "holds h [e] m = h m" by (rule holds_broker_calls)
    with Cons show ?case by (simp add: holds_def)
  qed (simp add: holds_def)
qed

lemma append_in_shuffles: "xs @ ys \<in> shuffles xs ys"
  by (induction xs) (auto intro: Cons_in_shuffles_leftI)

lemma shuffles_append:
  "p \<in> shuffles a c \<Longrightarrow> q \<in> shuffles b d \<Longrightarrow> p @ q \<in> shuffles (a @ b) (c @ d)"
proof (induction p arbitrary: a c)
  case (Cons z p)
  then show ?case
    by (auto simp: Cons_in_shuffles_iff neq_Nil_conv intro: Cons_in_shuffles_leftI Cons_in_shuffles_rightI)
qed simp

section \<open>Requests one after the other\<close>

definition serve_all :: "HelmBroker \<Rightarrow> Client \<Rightarrow> request list \<Rightarrow> ('c, 'r) world \<Rightarrow> ('c, 'r) world" where
  "serve_all b cl qs w = foldl (\<lambda>w q. serve b cl q w) w qs"

lemma serve_all_simps [simp]:
  "serve_all b cl [] w = w" "serve_all b cl (q # qs) w = serve_all b cl qs (serve b cl q w)"
  by (simp_all add: serve_all_def)

lemma serve_all_ext [simp]: "w_ext (serve_all b cl qs w) = w_ext w"
  by (induction qs arbitrary: w) (simp_all add: serve_frame)

text \<open>Only a request to deprovision makes a release less certain, only one to provision more.\<close>

lemma serve_all_keeps_present:
  "\<forall>iid. DeprovisionRequest iid \<in> set qs \<longrightarrow> getName iid \<noteq> Ok n \<Longrightarrow>
   holds h0 (w_hist w) n \<le> holds h0 (w_hist (serve_all b cl qs w)) n"
proof (induction qs arbitrary: w)
  case (Cons q qs)
  have "\<not> deletes n e" if "e \<in> set (events b cl q w)" for e
    using events_deletes [OF that, of n] Cons.prems by auto
  then have "holds h0 (w_hist w) n \<le> holds h0 (w_hist (serve b cl q w)) n"
    by (simp add: serve_events holds_append holds_mono)
  also have "\<dots> \<le> holds h0 (w_hist (serve_all b cl qs (serve b cl q w))) n"
    by (rule Cons.IH) (simp add: Cons.prems)
  finally show ?case by simp
qed simp

lemma presence_step_antimono: "\<not> asks_install n e \<Longrightarrow> presence_step h e n \<le> h n"
  using deleted_mono by (cases e) (auto simp: presence_step_def asks_install_def split: call.splits)

lemma holds_antimono: "\<forall>e \<in> set es. \<not> asks_install n e \<Longrightarrow> holds h es n \<le> h n"
proof (induction es arbitrary: h)
  case (Cons e es)
  then have "holds (presence_step h e) es n \<le> presence_step h e n" "presence_step h e n \<le> h n"
    by (simp_all add: presence_step_antimono)
  then show ?case by (simp add: holds_Cons)
qed (simp add: holds_def)

lemma serve_all_keeps_absent:
  "\<forall>iid d async. ProvisionRequest iid d async \<in> set qs \<longrightarrow> getName iid \<noteq> Ok n \<Longrightarrow>
   holds h0 (w_hist (serve_all b cl qs w)) n \<le> holds h0 (w_hist w) n"
proof (induction qs arbitrary: w)
  case (Cons q qs)
  have "holds h0 (w_hist (serve_all b cl qs (serve b cl q w))) n \<le> holds h0 (w_hist (serve b cl q w)) n"
    by (rule Cons.IH) (metis Cons.prems list.set_intros(2))
  also have "\<not> asks_install n e" if "e \<in> set (events b cl q w)" for e
    using events_installs [OF that, of n] Cons.prems by (metis list.set_intros(1))
  then have "holds h0 (w_hist (serve b cl q w)) n \<le> holds h0 (w_hist w) n"
    by (simp add: serve_events holds_append holds_antimono)
  finally show ?case by simp
qed simp

text \<open>Every request to deprovision leaves a trace, and no request removes one.\<close>

lemma serve_all_grows:
  "length (w_hist w) + length (filter (\<lambda>q. q = DeprovisionRequest iid) qs) \<le> length (w_hist (serve_all b cl qs w))"
proof (induction qs arbitrary: w)
  case (Cons q qs)
  have "length (w_hist w) + (if q = DeprovisionRequest iid then 1 else 0) \<le> length (w_hist (serve b cl q w))"
  proof (cases "q = DeprovisionRequest iid")
    case True
    with Deprovision_grows [of w b iid] show ?thesis by (simp add: serve_def)
  qed (simp add: serve_events)
  with Cons [of "serve b cl q w"] show ?case by (auto split: if_splits)
qed simp

end
