(* ===== verification/Resource_Tables.thy ===== *)
theory Resource_Tables
  imports Helm_Status
begin

text \<open>
  What the status parser of \<open>status.go\<close> is for: reading back a table whose cells are words
  padded to the column widths of its header, the form in which Helm prints resources. The
  table is written by \<open>align\<close>; the lemmas say that the parser finds the column of a label,
  reads the cell of a column and cuts the text between two columns, whatever the widths.
\<close>

section \<open>Words and fields\<close>

definition is_word :: "string \<Rightarrow> bool" where
  "is_word c \<longleftrightarrow> c \<noteq> [] \<and> (\<forall>x \<in> set c. \<not> is_space x)"

abbreviation spaces :: "nat \<Rightarrow> string" where
  "spaces n \<equiv> replicate n CHR '' ''"

lemma is_space_space [simp]: "is_space CHR '' ''"
  by (simp add: is_space_def)

lemma FieldsFunc_dropWhile: "strings_FieldsFunc p (dropWhile p s) = strings_FieldsFunc p s"
proof (cases "dropWhile p s")
  case Nil
  then show ?thesis by (simp add: FieldsFunc_none)
next
  case (Cons c cs)
  then have "dropWhile p (c # cs) = c # cs" by (metis dropWhile_idem)
  with Cons show ?thesis by (simp only: FieldsFunc_some)
qed

lemma Fields_spaces: "strings_Fields (spaces n @ s) = strings_Fields s"
proof -
  have "dropWhile is_space (spaces n @ s) = dropWhile is_space s" by (induction n) auto
  then show ?thesis unfolding strings_Fields_def by (metis FieldsFunc_dropWhile)
qed

lemma Fields_word_space:
  assumes "is_word c" and "n > 0"
  shows "strings_Fields (c @ spaces n @ s) = c # strings_Fields s"
proof -
  from assms(1) obtain x xs where c: "c = x # xs" and w: "\<forall>x \<in> set c. \<not> is_space x"
    by (cases c) (auto simp: is_word_def)
  from assms(2) obtain k where n: "n = Suc k" by (cases n) auto
  have d: "dropWhile is_space (c @ spaces n @ s) = x # xs @ spaces n @ s"
    using w by (simp add: c)
  have t: "takeWhile (\<lambda>x. \<not> is_space x) (c @ spaces n @ s) = c"
    using w by (simp add: n takeWhile_append)
  have r: "dropWhile (\<lambda>x. \<not> is_space x) (c @ spaces n @ s) = spaces n @ s"
    using w by (simp add: n dropWhile_append)
  have "strings_Fields (c @ spaces n @ s) = c # strings_Fields (spaces n @ s)"
    unfolding strings_Fields_def FieldsFunc_some [OF d] using t r by (simp add: c)
  then show ?thesis by (simp add: Fields_spaces)
qed

lemma Fields_Nil [simp]: "strings_Fields [] = []"
  by (simp add: strings_Fields_def FieldsFunc_none)

lemma Fields_word: "is_word c \<Longrightarrow> strings_Fields c = [c]"
proof -
  assume "is_word c"
  then obtain x xs where c: "c = x # xs" and w: "\<forall>x \<in> set c. \<not> is_space x"
    by (cases c) (auto simp: is_word_def)
  have d: "dropWhile is_space c = x # xs" using w by (simp add: c)
  have "takeWhile (\<lambda>x. \<not> is_space x) c = c" "dropWhile (\<lambda>x. \<not> is_space x) c = []"
    using w by (simp_all add: takeWhile_eq_all_conv)
  then show ?thesis
    unfolding strings_Fields_def FieldsFunc_some [OF d] by (simp add: c FieldsFunc_none)
qed

lemma Fields_word_spaces: "is_word c \<Longrightarrow> strings_Fields (c @ spaces n) = [c]"
  using Fields_word_space [of c n "[]"] Fields_word [of c] by (cases n) simp_all

section \<open>Aligned rows\<close>

fun align :: "nat list \<Rightarrow> string list \<Rightarrow> string" where
  "align ws [] = []"
| "align ws [c] = c"
| "align [] (c # d # cs) = c @ spaces 1 @ align [] (d # cs)"
| "align (w # ws) (c # d # cs) = c @ spaces (w - length c) @ align ws (d # cs)"

fun aligned :: "nat list \<Rightarrow> string list \<Rightarrow> bool" where
  "aligned ws [] = False"
| "aligned ws [c] = is_word c"
| "aligned [] (c # d # cs) = False"
| "aligned (w # ws) (c # d # cs) = (is_word c \<and> length c < w \<and> aligned ws (d # cs))"

definition offset :: "nat list \<Rightarrow> nat \<Rightarrow> nat" where
  "offset ws j = sum_list (take j ws)"

lemma offset_simps [simp]:
  "offset ws 0 = 0" "offset (w # ws) (Suc j) = w + offset ws j"
  by (simp_all add: offset_def)

lemma aligned_cell: "aligned ws cells \<Longrightarrow> c \<in> set cells \<Longrightarrow> is_word c"
  by (induction ws cells rule: aligned.induct) auto

lemma align_drop:
  "aligned ws cells \<Longrightarrow> j < length cells \<Longrightarrow>
     offset ws j \<le> length (align ws cells)
     \<and> drop (offset ws j) (align ws cells) = align (drop j ws) (drop j cells)
     \<and> aligned (drop j ws) (drop j cells)"
proof (induction ws cells arbitrary: j rule: aligned.induct)
  case (4 w ws c d cs)
  then show ?case by (cases j) auto
qed auto

lemma Fields_align: "aligned ws cells \<Longrightarrow> strings_Fields (align ws cells) = cells"
  by (induction ws cells rule: aligned.induct) (auto simp: Fields_word Fields_word_space)

text \<open>The parser reads the cell of a column, whatever stands in the other cells.\<close>

lemma field_at_align:
  assumes "aligned ws cells" and "j < length cells"
  shows "field_at (align ws cells) (int (offset ws j)) = Ok (cells ! j)"
proof -
  from align_drop [OF assms] have le: "offset ws j \<le> length (align ws cells)"
    and d: "drop (offset ws j) (align ws cells) = align (drop j ws) (drop j cells)"
    and a: "aligned (drop j ws) (drop j cells)" by auto
  from le have "slice_from (align ws cells) (int (offset ws j)) = Ok (align (drop j ws) (drop j cells))"
    by (simp add: slice_from_def d)
  then show ?thesis
    using assms(2) by (simp add: field_at_def Fields_align [OF a] index_at_def)
qed

lemma aligned_Cons_Cons:
  "aligned ws (c # d # cs) \<Longrightarrow> \<exists>v vs. ws = v # vs \<and> is_word c \<and> length c < v \<and> aligned vs (d # cs)"
  by (cases ws) auto

lemma slice_align:
  assumes "aligned ws cells" and "Suc j < length cells"
  shows "slice (align ws cells) (int (offset ws j)) (int (offset ws (Suc j)))
    = Ok (cells ! j @ spaces (ws ! j - length (cells ! j)))"
proof -
  let ?s = "align ws cells"
  have j: "j < length cells" using assms(2) by simp
  from align_drop [OF assms(1) j] have d: "drop (offset ws j) ?s = align (drop j ws) (drop j cells)"
    and a: "aligned (drop j ws) (drop j cells)" by auto
  from align_drop [OF assms] have le: "offset ws (Suc j) \<le> length ?s" by simp
  obtain e cs where cells: "drop j cells = cells ! j # e # cs"
    using assms(2) by (metis Cons_nth_drop_Suc j)
  from a [unfolded cells] obtain v vs where ws: "drop j ws = v # vs" "length (cells ! j) < v"
    by (blast dest: aligned_Cons_Cons)
  then have v: "ws ! j = v" "j < length ws" by (metis drop_eq_Nil hd_drop_conv_nth leI list.distinct(1) list.sel(1))
      (metis ws(1) drop_eq_Nil leI list.distinct(1))
  then have off: "offset ws (Suc j) = offset ws j + v"
    by (simp add: offset_def take_Suc_conv_app_nth)
  have "drop (offset ws j) (take (offset ws (Suc j)) ?s) = take v (align (drop j ws) (drop j cells))"
    by (simp add: off drop_take flip: d)
  also have "\<dots> = cells ! j @ spaces (v - length (cells ! j))"
    using ws by (simp add: cells)
  finally show ?thesis
    using le by (simp add: slice_def v off flip: of_nat_add)
qed

section \<open>Finding a label\<close>

lemma HasPrefix_spaces: "L \<noteq> [] \<Longrightarrow> CHR '' '' \<notin> set L \<Longrightarrow> \<not> strings_HasPrefix (CHR '' '' # s) L"
  by (cases L) (auto simp: strings_HasPrefix_def)

lemma HasPrefix_word:
  assumes "strings_HasPrefix (w @ CHR '' '' # s) L" and "CHR '' '' \<notin> set L"
  shows "strings_HasPrefix w L"
proof (cases "length L \<le> length w")
  case True
  with assms show ?thesis by (simp add: strings_HasPrefix_def)
next
  case False
  then have "CHR '' '' \<in> set (take (length L) (w @ CHR '' '' # s))"
    by (cases "length L - length w") auto
  with assms show ?thesis by (simp add: strings_HasPrefix_def)
qed

lemma find_sub_spaces:
  "L \<noteq> [] \<Longrightarrow> CHR '' '' \<notin> set L \<Longrightarrow>
     find_sub (spaces n @ s) L = map_option (\<lambda>i. n + i) (find_sub s L)"
  by (induction n; cases "find_sub s L") (auto simp: HasPrefix_spaces)

lemma find_sub_skip_word:
  assumes "L \<noteq> []" and "CHR '' '' \<notin> set L" and "find_sub w L = None" and "n > 0"
  shows "find_sub (w @ spaces n @ s) L = map_option (\<lambda>i. length w + n + i) (find_sub s L)"
  using assms(3)
proof (induction w)
  case Nil
  with assms show ?case by (simp add: find_sub_spaces)
next
  case (Cons c w)
  obtain k where n: "n = Suc k" using assms(4) by (cases n) auto
  from Cons.prems have "\<not> strings_HasPrefix (c # w) L" and w: "find_sub w L = None"
    by (auto split: if_splits)
  then have "\<not> strings_HasPrefix (c # w @ spaces n @ s) L"
    using HasPrefix_word [of "c # w" "spaces k @ s" L] assms(2) by (auto simp: n)
  with Cons.IH [OF w] show ?case by (simp add: option.map_comp comp_def)
qed

lemma find_sub_here: "strings_HasPrefix s L \<Longrightarrow> find_sub s L = Some 0"
  by (cases s) (auto simp: strings_HasPrefix_def)

lemma HasPrefix_append: "strings_HasPrefix w L \<Longrightarrow> strings_HasPrefix (w @ s) L"
  by (auto simp: strings_HasPrefix_def) (metis append_take_drop_id length_take min_def order_refl take_all_iff nle_le)

lemma find_label_absent:
  assumes "aligned ws cells" and "L \<noteq> []" and "CHR '' '' \<notin> set L"
    and "\<forall>c \<in> set cells. find_sub c L = None"
  shows "find_sub (align ws cells) L = None"
  using assms(1,4)
  by (induction ws cells rule: aligned.induct) (auto simp: find_sub_skip_word [OF assms(2,3)])

lemma find_label_first:
  assumes "aligned ws cells" and "j < length cells" and "L \<noteq> []" and "CHR '' '' \<notin> set L"
    and "strings_HasPrefix (cells ! j) L" and "\<forall>i < j. find_sub (cells ! i) L = None"
  shows "find_sub (align ws cells) L = Some (offset ws j)"
  using assms(1,2,5,6)
proof (induction ws cells arbitrary: j rule: aligned.induct)
  case (2 ws c)
  then show ?case by (simp add: find_sub_here)
next
  case (4 w ws c d cs)
  show ?case
  proof (cases j)
    case 0
    with 4 show ?thesis by (simp add: find_sub_here HasPrefix_append)
  next
    case (Suc i)
    then have "find_sub c L = None" using "4.prems"(4) by fastforce
    moreover have "find_sub (align ws (d # cs)) L = Some (offset ws i)"
      using "4.prems" Suc by (intro "4.IH") auto
    ultimately show ?thesis
      using "4.prems"(1) Suc by (simp add: find_sub_skip_word assms(3,4))
  qed
qed auto

lemma Index_absent:
  "aligned ws cells \<Longrightarrow> L \<noteq> [] \<Longrightarrow> CHR '' '' \<notin> set L \<Longrightarrow> \<forall>c \<in> set cells. find_sub c L = None \<Longrightarrow>
     strings_Index (align ws cells) L = -1"
  by (simp add: strings_Index_def find_label_absent)

lemma Index_first:
  "aligned ws cells \<Longrightarrow> j < length cells \<Longrightarrow> L \<noteq> [] \<Longrightarrow> CHR '' '' \<notin> set L \<Longrightarrow>
     strings_HasPrefix (cells ! j) L \<Longrightarrow> \<forall>i < j. find_sub (cells ! i) L = None \<Longrightarrow>
     strings_Index (align ws cells) L = int (offset ws j)"
  by (simp add: strings_Index_def find_label_first)

text \<open>An aligned row is one line of the scanner.\<close>

lemma align_chars: "aligned ws cells \<Longrightarrow> x \<in> set (align ws cells) \<Longrightarrow> x = CHR '' '' \<or> \<not> is_space x"
  by (induction ws cells rule: aligned.induct) (auto simp: is_word_def)

lemma align_plain:
  "aligned ws cells \<Longrightarrow> length (align ws cells) < max_scan_token \<Longrightarrow> plain_line (align ws cells)"
  using align_chars [of ws cells "CHR 0x0A"] align_chars [of ws cells "CHR 0x0D"]
  by (auto simp: plain_line_def is_space_def)

lemma align_nonempty: "aligned ws cells \<Longrightarrow> align ws cells \<noteq> []"
  by (induction ws cells rule: aligned.induct) (auto simp: is_word_def)

text \<open>The state of the parser after the line that names a resource.\<close>

abbreviation started :: "string \<Rightarrow> scan_state" where
  "started r \<equiv> init_scan\<lparr>lastResource := r\<rparr>"

lemma started_empty: "started [] = init_scan"
  by (simp add: init_scan_def)

section \<open>A table of services\<close>

definition service_header :: "string list" where
  "service_header = [NameLabel, TypeLabel, ClusterIPLabel, ExternalIPLabel, PortsLabel, AgeLabel]"

text \<open>A row is data when none of its cells can be taken for a label of a header.\<close>

definition data_row :: "string list \<Rightarrow> bool" where
  "data_row cells \<longleftrightarrow> (\<forall>c \<in> set cells. find_sub c DesiredLabel = None
     \<and> find_sub c IngressHostsLabel = None \<and> find_sub c PortsLabel = None)"

definition service_of_row :: "string list \<Rightarrow> StatusService" where
  "service_of_row cells = \<lparr>svc_Name = cells ! 0, svc_ServiceType = cells ! 1,
     svc_NodePorts = snd (parse_ports (cells ! 4)),
     svc_ClusterPorts = fst (parse_ports (cells ! 4)), svc_ExternalIP = cells ! 3\<rparr>"

definition in_services :: "nat list \<Rightarrow> scan_state \<Rightarrow> bool" where
  "in_services ws s \<longleftrightarrow> columnName s = 0 \<and> columnType s = int (offset ws 1)
     \<and> columnClusterIP s = int (offset ws 2) \<and> columnExternalIP s = int (offset ws 3)
     \<and> columnPort s = int (offset ws 4) \<and> columnAge s = int (offset ws 5)
     \<and> columnDesired s = -1 \<and> columnIngressHosts s = -1"

lemma service_header_index:
  assumes "aligned ws service_header"
  shows "strings_Index (align ws service_header) NameLabel = 0"
    "strings_Index (align ws service_header) TypeLabel = int (offset ws 1)"
    "strings_Index (align ws service_header) ClusterIPLabel = int (offset ws 2)"
    "strings_Index (align ws service_header) ExternalIPLabel = int (offset ws 3)"
    "strings_Index (align ws service_header) PortsLabel = int (offset ws 4)"
    "strings_Index (align ws service_header) AgeLabel = int (offset ws 5)"
    "strings_Index (align ws service_header) DesiredLabel = -1"
    "strings_Index (align ws service_header) IngressHostsLabel = -1"
  using Index_first [OF assms, of 0 NameLabel] Index_first [OF assms, of 1 TypeLabel]
    Index_first [OF assms, of 2 ClusterIPLabel] Index_first [OF assms, of 3 ExternalIPLabel]
    Index_first [OF assms, of 4 PortsLabel] Index_first [OF assms, of 5 AgeLabel]
    Index_absent [OF assms, of DesiredLabel] Index_absent [OF assms, of IngressHostsLabel]
  by (simp_all add: service_header_def label_defs strings_HasPrefix_def less_Suc_eq numeral_eq_Suc)

lemma align_label_not_blank: "aligned ws cells \<Longrightarrow> length (align ws cells) \<noteq> 0"
  using align_nonempty by auto

lemma parse_service_header:
  assumes "aligned ws service_header"
  shows "\<exists>s. parse_line (align ws service_header) (started r) = Ok s
    \<and> in_services ws s \<and> status s = zero_status"
  using align_label_not_blank [OF assms]
  by (simp add: parse_line_def step_blank_def step_resource_def step_nodes_def step_ingresses_def
      step_services_def service_header_index [OF assms] init_scan_def in_services_def Let_def)

lemma data_row_index:
  assumes "aligned ws cells" and "data_row cells"
  shows "strings_Index (align ws cells) DesiredLabel = -1"
    "strings_Index (align ws cells) IngressHostsLabel = -1"
    "strings_Index (align ws cells) PortsLabel = -1"
  using assms(2) by (simp_all add: Index_absent [OF assms(1)] data_row_def label_defs)

lemma parse_service_row:
  assumes a: "aligned ws cells" and len: "length cells = 6" and data: "data_row cells"
    and s: "in_services ws s"
  shows "\<exists>s'. parse_line (align ws cells) s = Ok s' \<and> in_services ws s'
    \<and> status s' = (status s)\<lparr>st_Services := st_Services (status s) @ [service_of_row cells]\<rparr>"
proof -
  define l where "l = align ws cells"
  define t where "t = step_resource l s"
  have t: "in_services ws t" "status t = status s"
    using s by (auto simp: t_def step_resource_def in_services_def)
  have blank: "step_blank l s = s"
    using align_label_not_blank [OF a] by (simp add: l_def step_blank_def)
  note idx = data_row_index [OF a data, folded l_def]
  have nodes: "step_nodes l t = Ok t"
    using t(1) by (simp add: step_nodes_def idx in_services_def)
  have ingresses: "step_ingresses l t = Ok t"
    using t(1) by (simp add: step_ingresses_def idx in_services_def)
  have cut: "slice l (int (offset ws j)) (int (offset ws (Suc j)))
      = Ok (cells ! j @ spaces (ws ! j - length (cells ! j)))" if "Suc j < 6" for j
    using slice_align [OF a] that len by (simp add: l_def)
  have word: "is_word (cells ! j)" if "j < 6" for j
    using aligned_cell [OF a] that len by simp
  have services: "step_services l t = Ok (t\<lparr>status := (status t)\<lparr>st_Services :=
      st_Services (status t) @ [service_of_row cells]\<rparr>\<rparr>)"
    using t(1) cut [of 0] cut [of 1] cut [of 3] cut [of 4] word
    by (simp add: step_services_def idx in_services_def Fields_word_spaces add_service_def
        index_at_def service_of_row_def numeral_eq_Suc)
  show ?thesis
    using t services unfolding l_def [symmetric]
    by (simp add: parse_line_def blank nodes ingresses in_services_def flip: t_def)
qed

lemma parse_service_rows:
  assumes "\<forall>cells \<in> set rows. aligned ws cells \<and> length cells = 6 \<and> data_row cells"
    and "in_services ws s"
  shows "\<exists>s'. rfold parse_line (map (align ws) rows) s = Ok s'
    \<and> status s' = (status s)\<lparr>st_Services := st_Services (status s) @ map service_of_row rows\<rparr>"
  using assms
proof (induction rows arbitrary: s)
  case (Cons r rows)
  then obtain s1 where s1: "parse_line (align ws r) s = Ok s1" "in_services ws s1"
    "status s1 = (status s)\<lparr>st_Services := st_Services (status s) @ [service_of_row r]\<rparr>"
    using parse_service_row [of ws r s] by auto
  with Cons.IH [of s1] Cons.prems(1) show ?case by auto
qed simp

lemma parse_service_table:
  assumes "aligned ws service_header"
    and "\<forall>cells \<in> set rows. aligned ws cells \<and> length cells = 6 \<and> data_row cells"
  shows "\<exists>s. rfold parse_line (map (align ws) (service_header # rows)) (started r) = Ok s
    \<and> status s = zero_status\<lparr>st_Services := map service_of_row rows\<rparr>"
proof -
  obtain s where s: "parse_line (align ws service_header) (started r) = Ok s" "in_services ws s"
    "status s = zero_status" using parse_service_header [OF assms(1)] by blast
  from parse_service_rows [OF assms(2) s(2)] s show ?thesis by (auto simp: zero_status_def)
qed

section \<open>A table of nodes\<close>

text \<open>The table of a deployment; its rows carry the wanted, current and available pods.\<close>

definition deployment_header :: "string list" where
  "deployment_header = [NameLabel, DesiredLabel, CurrentLabel, ''UP-TO-DATE'', AvailableLabel, AgeLabel]"

definition in_deployments :: "nat list \<Rightarrow> scan_state \<Rightarrow> bool" where
  "in_deployments ws s \<longleftrightarrow> columnDesired s = int (offset ws 1) \<and> columnCurrent s = int (offset ws 2)
     \<and> columnAvailable s = int (offset ws 4) \<and> columnPort s = -1 \<and> columnIngressHosts s = -1"

definition deployment_row :: "string \<times> int \<times> int \<times> int \<times> int \<times> string \<Rightarrow> string list" where
  "deployment_row r = (case r of (name, desired, current, upToDate, available, age) \<Rightarrow>
     [name, strconv_Itoa desired, strconv_Itoa current, strconv_Itoa upToDate,
      strconv_Itoa available, age])"

definition deployment_counts :: "string \<times> int \<times> int \<times> int \<times> int \<times> string \<Rightarrow> int \<times> int" where
  "deployment_counts r = (case r of (name, desired, current, upToDate, available, age) \<Rightarrow>
     (desired, available))"

lemma deployment_header_index:
  assumes "aligned ws deployment_header"
  shows "strings_Index (align ws deployment_header) DesiredLabel = int (offset ws 1)"
    "strings_Index (align ws deployment_header) CurrentLabel = int (offset ws 2)"
    "strings_Index (align ws deployment_header) AvailableLabel = int (offset ws 4)"
    "strings_Index (align ws deployment_header) IngressHostsLabel = -1"
    "strings_Index (align ws deployment_header) PortsLabel = -1"
  using Index_first [OF assms, of 1 DesiredLabel] Index_first [OF assms, of 2 CurrentLabel]
    Index_first [OF assms, of 4 AvailableLabel]
    Index_absent [OF assms, of IngressHostsLabel] Index_absent [OF assms, of PortsLabel]
  by (simp_all add: deployment_header_def label_defs strings_HasPrefix_def less_Suc_eq numeral_eq_Suc)

lemma parse_deployment_header:
  assumes "aligned ws deployment_header"
  shows "\<exists>s. parse_line (align ws deployment_header) (started r) = Ok s
    \<and> in_deployments ws s \<and> status s = zero_status"
  using align_label_not_blank [OF assms]
  by (simp add: parse_line_def step_blank_def step_resource_def step_nodes_def step_ingresses_def
      step_services_def deployment_header_index [OF assms] init_scan_def in_deployments_def Let_def)

lemma int_or_Itoa [simp]: "fits_int i \<Longrightarrow> int_or d (strconv_Itoa i) = i"
  by (simp add: int_or_def)

lemma parse_deployment_row:
  assumes a: "aligned ws (deployment_row r)" and data: "data_row (deployment_row r)"
    and fits: "fits_int (fst (deployment_counts r))" "fits_int (snd (deployment_counts r))"
    and s: "in_deployments ws s"
  shows "\<exists>s'. parse_line (align ws (deployment_row r)) s = Ok s' \<and> in_deployments ws s'
    \<and> status s' = add_nodes (fst (deployment_counts r)) (snd (deployment_counts r)) (status s)"
proof -
  obtain name desired current upToDate available age
    where r: "r = (name, desired, current, upToDate, available, age)" by (cases r)
  define l where "l = align ws (deployment_row r)"
  define t where "t = step_resource l s"
  have t: "in_deployments ws t" "status t = status s"
    using s by (auto simp: t_def step_resource_def in_deployments_def)
  have blank: "step_blank l s = s"
    using align_label_not_blank [OF a] by (simp add: l_def step_blank_def)
  note idx = data_row_index [OF a data, folded l_def]
  have cell: "field_at l (int (offset ws j)) = Ok (deployment_row r ! j)" if "j < 6" for j
    using field_at_align [OF a] that by (simp add: l_def r deployment_row_def)
  have nodes: "step_nodes l t = Ok (t\<lparr>status := add_nodes desired available (status t)\<rparr>)"
    using t(1) fits cell [of 1] cell [of 2] cell [of 4]
    by (simp add: step_nodes_def idx in_deployments_def r deployment_row_def deployment_counts_def
        numeral_eq_Suc)
  let ?t = "t\<lparr>status := add_nodes desired available (status t)\<rparr>"
  have "step_ingresses l ?t = Ok ?t" "step_services l ?t = Ok ?t"
    using t(1) by (simp_all add: step_ingresses_def step_services_def idx in_deployments_def)
  then show ?thesis
    using t nodes unfolding l_def [symmetric]
    by (simp add: parse_line_def blank in_deployments_def r deployment_counts_def flip: t_def)
qed

definition total_nodes :: "(int \<times> int) list \<Rightarrow> Status \<Rightarrow> Status" where
  "total_nodes ns st = foldl (\<lambda>st (d, a). add_nodes d a st) st ns"

lemma parse_deployment_rows:
  assumes "\<forall>r \<in> set rows. aligned ws (deployment_row r) \<and> data_row (deployment_row r)
      \<and> fits_int (fst (deployment_counts r)) \<and> fits_int (snd (deployment_counts r))"
    and "in_deployments ws s"
  shows "\<exists>s'. rfold parse_line (map (\<lambda>r. align ws (deployment_row r)) rows) s = Ok s'
    \<and> status s' = total_nodes (map deployment_counts rows) (status s)"
  using assms
proof (induction rows arbitrary: s)
  case (Cons r rows)
  then obtain s1 where s1: "parse_line (align ws (deployment_row r)) s = Ok s1" "in_deployments ws s1"
    "status s1 = add_nodes (fst (deployment_counts r)) (snd (deployment_counts r)) (status s)"
    using parse_deployment_row [of ws r s] by auto
  with Cons.IH [of s1] Cons.prems(1) show ?case by (auto simp: total_nodes_def split: prod.splits)
qed (simp add: total_nodes_def)

lemma parse_deployment_table:
  assumes "aligned ws deployment_header"
    and "\<forall>r \<in> set rows. aligned ws (deployment_row r) \<and> data_row (deployment_row r)
      \<and> fits_int (fst (deployment_counts r)) \<and> fits_int (snd (deployment_counts r))"
  shows "\<exists>s. rfold parse_line (map (align ws) (deployment_header # map deployment_row rows)) (started r)
      = Ok s \<and> status s = total_nodes (map deployment_counts rows) zero_status"
proof -
  obtain s where s: "parse_line (align ws deployment_header) (started r) = Ok s" "in_deployments ws s"
    "status s = zero_status" using parse_deployment_header [OF assms(1)] by blast
  from parse_deployment_rows [OF assms(2) s(2)] s show ?thesis by (auto simp: comp_def)
qed

section \<open>Properties\<close>

text \<open>
  A table of services as Helm prints it, with columns of any widths, is read back: each row
  gives the service with its name, type, external address and ports, in the order of the rows,
  and nothing else is recorded.
\<close>

theorem services_table_read_back:
  assumes "aligned ws service_header" "length (align ws service_header) < max_scan_token"
    and "\<forall>cells \<in> set rows. aligned ws cells \<and> length cells = 6 \<and> data_row cells
      \<and> length (align ws cells) < max_scan_token"
  shows "parse_resources (unlines (map (align ws) (service_header # rows)))
    = Ok (zero_status\<lparr>st_Services := map service_of_row rows\<rparr>)"
proof -
  have "\<forall>l \<in> set (map (align ws) (service_header # rows)). plain_line l"
    using assms align_plain by auto
  then have lines: "scan_lines (unlines (map (align ws) (service_header # rows)))
      = map (align ws) (service_header # rows)" by (rule scan_unlines)
  have "\<forall>cells \<in> set rows. aligned ws cells \<and> length cells = 6 \<and> data_row cells" using assms(3) by blast
  from parse_service_table [OF assms(1) this, of "[]"] show ?thesis
    unfolding parse_resources_def lines started_empty by auto
qed

definition example_rows :: "string list list" where
  "example_rows = [[''web'', ''NodePort'', ''10.0.0.1'', ''none'', ''80:30080/TCP,443/TCP'', ''5m''],
     [''db'', ''ClusterIP'', ''10.0.0.2'', ''none'', ''5432/TCP'', ''5m'']]"

theorem services_table_read_back_witness:
  "parse_resources (unlines (map (align [6, 12, 12, 13, 24]) (service_header # example_rows)))
    = Ok (zero_status\<lparr>st_Services := map service_of_row example_rows\<rparr>)"
proof (rule services_table_read_back)
  show "aligned [6, 12, 12, 13, 24] service_header"
    by (simp add: service_header_def label_defs is_word_def is_space_def)
  show "length (align [6, 12, 12, 13, 24] service_header) < max_scan_token"
    by (simp add: service_header_def label_defs max_scan_token_def)
  show "\<forall>cells \<in> set example_rows. aligned [6, 12, 12, 13, 24] cells \<and> length cells = 6
      \<and> data_row cells \<and> length (align [6, 12, 12, 13, 24] cells) < max_scan_token"
    by (simp add: example_rows_def is_word_def is_space_def data_row_def label_defs
        strings_HasPrefix_def max_scan_token_def)
qed

text \<open>
  A table of deployments is summed up: the desired and the available pods of its rows are
  added to the counts, in the order of the rows and with the wrap-around of 64 bits; the current
  and up-to-date columns do not matter where there is an available one.
\<close>

theorem deployments_table_counts:
  assumes "aligned ws deployment_header" "length (align ws deployment_header) < max_scan_token"
    and "\<forall>r \<in> set rows. aligned ws (deployment_row r) \<and> data_row (deployment_row r)
      \<and> fits_int (fst (deployment_counts r)) \<and> fits_int (snd (deployment_counts r))
      \<and> length (align ws (deployment_row r)) < max_scan_token"
  shows "parse_resources (unlines (align ws deployment_header # map (\<lambda>r. align ws (deployment_row r)) rows))
    = Ok (total_nodes (map deployment_counts rows) zero_status)"
proof -
  let ?lines = "align ws deployment_header # map (\<lambda>r. align ws (deployment_row r)) rows"
  have "\<forall>l \<in> set ?lines. plain_line l" using assms align_plain by auto
  then have lines: "scan_lines (unlines ?lines) = ?lines" by (rule scan_unlines)
  have "\<forall>r \<in> set rows. aligned ws (deployment_row r) \<and> data_row (deployment_row r)
      \<and> fits_int (fst (deployment_counts r)) \<and> fits_int (snd (deployment_counts r))"
    using assms(3) by blast
  from parse_deployment_table [OF assms(1) this, of "[]"] show ?thesis
    unfolding parse_resources_def lines started_empty by (auto simp: comp_def)
qed

definition example_deployments :: "(string \<times> int \<times> int \<times> int \<times> int \<times> string) list" where
  "example_deployments = [(''web'', 3, 3, 3, 1, ''5m''), (''db'', 1, 1, 1, 1, ''5m'')]"

theorem deployments_table_counts_witness:
  "parse_resources (unlines (align [6, 9, 9, 12, 11] deployment_header
       # map (\<lambda>r. align [6, 9, 9, 12, 11] (deployment_row r)) example_deployments))
    = Ok (total_nodes (map deployment_counts example_deployments) zero_status)"
proof (rule deployments_table_counts)
  show "aligned [6, 9, 9, 12, 11] deployment_header"
    by (simp add: deployment_header_def label_defs is_word_def is_space_def)
  show "length (align [6, 9, 9, 12, 11] deployment_header) < max_scan_token"
    by (simp add: deployment_header_def label_defs max_scan_token_def)
  show "\<forall>r \<in> set example_deployments. aligned [6, 9, 9, 12, 11] (deployment_row r)
      \<and> data_row (deployment_row r) \<and> fits_int (fst (deployment_counts r))
      \<and> fits_int (snd (deployment_counts r))
      \<and> length (align [6, 9, 9, 12, 11] (deployment_row r)) < max_scan_token"
    by (simp add: example_deployments_def deployment_row_def deployment_counts_def strconv_Itoa_def
        nat_digits.simps digit_char_def char_of_def bit_iff_odd is_word_def is_space_def data_row_def
        label_defs strings_HasPrefix_def max_scan_token_def fits_int_def int_min_def int_max_def)
qed

end
