(* ===== verification/Resource_Kinds.thy ===== *)
theory Resource_Kinds
  imports Resource_Tables
begin

text \<open>
  The other tables that the status parser of \<open>status.go\<close> meets: stateful sets, whose header has
  no column of available pods; ingresses, whose rows may lack the address; tables without any
  of its labels; and the line that names the kind of a table.
\<close>

section \<open>Stateful sets\<close>

definition statefulset_header :: "string list" where
  "statefulset_header = [NameLabel, DesiredLabel, CurrentLabel, AgeLabel]"

definition in_statefulsets :: "nat list \<Rightarrow> scan_state \<Rightarrow> bool" where
  "in_statefulsets ws s \<longleftrightarrow> columnDesired s = int (offset ws 1) \<and> columnCurrent s = int (offset ws 2)
     \<and> columnAvailable s = -1 \<and> columnPort s = -1 \<and> columnIngressHosts s = -1"

definition statefulset_row :: "string \<times> int \<times> int \<times> string \<Rightarrow> string list" where
  "statefulset_row r = (case r of (name, desired, current, age) \<Rightarrow>
     [name, strconv_Itoa desired, strconv_Itoa current, age])"

definition statefulset_counts :: "string \<times> int \<times> int \<times> string \<Rightarrow> int \<times> int" where
  "statefulset_counts r = (case r of (name, desired, current, age) \<Rightarrow> (desired, current))"

lemma statefulset_header_index:
  assumes "aligned ws statefulset_header"
  shows "strings_Index (align ws statefulset_header) DesiredLabel = int (offset ws 1)"
    "strings_Index (align ws statefulset_header) CurrentLabel = int (offset ws 2)"
    "strings_Index (align ws statefulset_header) AvailableLabel = -1"
    "strings_Index (align ws statefulset_header) IngressHostsLabel = -1"
    "strings_Index (align ws statefulset_header) PortsLabel = -1"
  using Index_first [OF assms, of 1 DesiredLabel] Index_first [OF assms, of 2 CurrentLabel]
    Index_absent [OF assms, of AvailableLabel]
    Index_absent [OF assms, of IngressHostsLabel] Index_absent [OF assms, of PortsLabel]
  by (simp_all add: statefulset_header_def label_defs strings_HasPrefix_def less_Suc_eq numeral_eq_Suc)

lemma parse_statefulset_header:
  assumes "aligned ws statefulset_header"
  shows "\<exists>s. parse_line (align ws statefulset_header) (started r) = Ok s
    \<and> in_statefulsets ws s \<and> status s = zero_status"
  using align_label_not_blank [OF assms]
  by (simp add: parse_line_def step_blank_def step_resource_def step_nodes_def step_ingresses_def
      step_services_def statefulset_header_index [OF assms] init_scan_def in_statefulsets_def Let_def)

lemma parse_statefulset_row:
  assumes a: "aligned ws (statefulset_row r)" and data: "data_row (statefulset_row r)"
    and fits: "fits_int (fst (statefulset_counts r))" "fits_int (snd (statefulset_counts r))"
    and s: "in_statefulsets ws s"
  shows "\<exists>s'. parse_line (align ws (statefulset_row r)) s = Ok s' \<and> in_statefulsets ws s'
    \<and> status s' = add_nodes (fst (statefulset_counts r)) (snd (statefulset_counts r)) (status s)"
proof -
  obtain name desired current age where r: "r = (name, desired, current, age)" by (cases r)
  define l where "l = align ws (statefulset_row r)"
  define t where "t = step_resource l s"
  have t: "in_statefulsets ws t" "status t = status s"
    using s by (auto simp: t_def step_resource_def in_statefulsets_def)
  have blank: "step_blank l s = s"
    using align_label_not_blank [OF a] by (simp add: l_def step_blank_def)
  note idx = data_row_index [OF a data, folded l_def]
  have cell: "field_at l (int (offset ws j)) = Ok (statefulset_row r ! j)" if "j < 4" for j
    using field_at_align [OF a] that by (simp add: l_def r statefulset_row_def)
  let ?t = "t\<lparr>status := add_nodes desired current (status t)\<rparr>"
  have nodes: "step_nodes l t = Ok ?t"
    using t(1) fits cell [of 1] cell [of 2]
    by (simp add: step_nodes_def idx in_statefulsets_def r statefulset_row_def statefulset_counts_def
        numeral_eq_Suc)
  have "step_ingresses l ?t = Ok ?t" "step_services l ?t = Ok ?t"
    using t(1) by (simp_all add: step_ingresses_def step_services_def idx in_statefulsets_def)
  then show ?thesis
    using t nodes unfolding l_def [symmetric]
    by (simp add: parse_line_def blank in_statefulsets_def r statefulset_counts_def flip: t_def)
qed

lemma parse_statefulset_rows:
  assumes "\<forall>r \<in> set rows. aligned ws (statefulset_row r) \<and> data_row (statefulset_row r)
      \<and> fits_int (fst (statefulset_counts r)) \<and> fits_int (snd (statefulset_counts r))"
    and "in_statefulsets ws s"
  shows "\<exists>s'. rfold parse_line (map (\<lambda>r. align ws (statefulset_row r)) rows) s = Ok s'
    \<and> status s' = total_nodes (map statefulset_counts rows) (status s)"
  using assms
proof (induction rows arbitrary: s)
  case (Cons r rows)
  then obtain s1 where s1: "parse_line (align ws (statefulset_row r)) s = Ok s1" "in_statefulsets ws s1"
    "status s1 = add_nodes (fst (statefulset_counts r)) (snd (statefulset_counts r)) (status s)"
    using parse_statefulset_row [of ws r s] by auto
  with Cons.IH [of s1] Cons.prems(1) show ?case by (auto simp: total_nodes_def split: prod.splits)
qed (simp add: total_nodes_def)

lemma parse_statefulset_table:
  assumes "aligned ws statefulset_header"
    and "\<forall>r \<in> set rows. aligned ws (statefulset_row r) \<and> data_row (statefulset_row r)
      \<and> fits_int (fst (statefulset_counts r)) \<and> fits_int (snd (statefulset_counts r))"
  shows "\<exists>s. rfold parse_line (map (align ws) (statefulset_header # map statefulset_row rows)) (started r)
      = Ok s \<and> status s = total_nodes (map statefulset_counts rows) zero_status"
proof -
  obtain s where s: "parse_line (align ws statefulset_header) (started r) = Ok s" "in_statefulsets ws s"
    "status s = zero_status" using parse_statefulset_header [OF assms(1)] by blast
  from parse_statefulset_rows [OF assms(2) s(2)] s show ?thesis by (auto simp: comp_def)
qed

section \<open>Ingresses\<close>

text \<open>
  The parser takes the port of an ingress from the column of the addresses: in a row without an
  address the ports stand there, in a row with one they do not. Rows of different lengths have
  the first columns in common: \<open>ws\<close> are the widths that all lines start with.
\<close>

definition ingress_header :: "string list" where
  "ingress_header = [NameLabel, IngressHostsLabel, AddressLable, IngressPortsLabel, AgeLabel]"

definition ingress_of_row :: "string list \<Rightarrow> StatusIngress" where
  "ingress_of_row cells = \<lparr>ing_Name = cells ! 0, ing_IngressHosts = strings_Split (cells ! 1) '','',
     ing_IngressPort = int_or 0 (strings_Split (cells ! 2) '','' ! 0)\<rparr>"

definition in_ingresses :: "nat list \<Rightarrow> scan_state \<Rightarrow> bool" where
  "in_ingresses ws s \<longleftrightarrow> columnName s = 0 \<and> columnIngressHosts s = int (offset ws 1)
     \<and> columnAddress s = int (offset ws 2) \<and> columnIngressPorts s \<ge> 0 \<and> columnAge s \<ge> 0
     \<and> columnDesired s = -1 \<and> columnPort s = -1"

lemma offset_common: "j \<le> length ws \<Longrightarrow> offset (ws @ vs) j = offset ws j"
  by (simp add: offset_def)

lemma ingress_header_index:
  assumes "aligned ws ingress_header"
  shows "strings_Index (align ws ingress_header) NameLabel = 0"
    "strings_Index (align ws ingress_header) IngressHostsLabel = int (offset ws 1)"
    "strings_Index (align ws ingress_header) AddressLable = int (offset ws 2)"
    "strings_Index (align ws ingress_header) IngressPortsLabel = int (offset ws 3)"
    "strings_Index (align ws ingress_header) AgeLabel = int (offset ws 4)"
    "strings_Index (align ws ingress_header) DesiredLabel = -1"
    "strings_Index (align ws ingress_header) PortsLabel = -1"
  using Index_first [OF assms, of 0 NameLabel] Index_first [OF assms, of 1 IngressHostsLabel]
    Index_first [OF assms, of 2 AddressLable] Index_first [OF assms, of 3 IngressPortsLabel]
    Index_first [OF assms, of 4 AgeLabel]
    Index_absent [OF assms, of DesiredLabel] Index_absent [OF assms, of PortsLabel]
  by (simp_all add: ingress_header_def label_defs strings_HasPrefix_def less_Suc_eq numeral_eq_Suc)

lemma parse_ingress_header:
  assumes "aligned (ws @ vs) ingress_header" and "2 \<le> length ws"
  shows "\<exists>s. parse_line (align (ws @ vs) ingress_header) (started r) = Ok s
    \<and> in_ingresses ws s \<and> status s = zero_status"
  using align_label_not_blank [OF assms(1)] assms(2)
  by (simp add: parse_line_def step_blank_def step_resource_def step_nodes_def step_ingresses_def
      step_services_def ingress_header_index [OF assms(1)] init_scan_def in_ingresses_def Let_def
      offset_common)

lemma parse_ingress_row:
  assumes a: "aligned (ws @ vs) cells" and len: "2 \<le> length ws" "3 \<le> length cells"
    and data: "data_row cells" and s: "in_ingresses ws s"
  shows "\<exists>s'. parse_line (align (ws @ vs) cells) s = Ok s' \<and> in_ingresses ws s'
    \<and> status s' = (status s)\<lparr>st_Ingresses := st_Ingresses (status s) @ [ingress_of_row cells]\<rparr>"
proof -
  define l where "l = align (ws @ vs) cells"
  define t where "t = step_resource l s"
  have t: "in_ingresses ws t" "status t = status s"
    using s by (auto simp: t_def step_resource_def in_ingresses_def)
  have blank: "step_blank l s = s"
    using align_label_not_blank [OF a] by (simp add: l_def step_blank_def)
  note idx = data_row_index [OF a data, folded l_def]
  have nodes: "step_nodes l t = Ok t"
    using t(1) by (simp add: step_nodes_def idx in_ingresses_def)
  have cell: "field_at l (int (offset ws j)) = Ok (cells ! j)" if "j < 3" for j
    using field_at_align [OF a, of j] that len by (simp add: l_def offset_common)
  have split: "strings_Split c '','' \<noteq> []" for c
    by (rule strings_Split_nonempty) simp
  let ?t = "t\<lparr>status := (status t)\<lparr>st_Ingresses :=
      st_Ingresses (status t) @ [ingress_of_row cells]\<rparr>\<rparr>"
  have ingresses: "step_ingresses l t = Ok ?t"
    using t(1) cell [of 0] cell [of 1] cell [of 2] split
    by (simp add: step_ingresses_def idx in_ingresses_def index_at_def ingress_of_row_def)
  have "step_services l ?t = Ok ?t"
    using t(1) by (simp add: step_services_def idx in_ingresses_def)
  then show ?thesis
    using t nodes ingresses unfolding l_def [symmetric]
    by (simp add: parse_line_def blank in_ingresses_def flip: t_def)
qed

lemma parse_ingress_rows:
  assumes "list_all2 (\<lambda>l cells. (\<exists>vs. l = align (ws @ vs) cells \<and> aligned (ws @ vs) cells)
      \<and> 3 \<le> length cells \<and> data_row cells) ls rows"
    and "2 \<le> length ws" "in_ingresses ws s"
  shows "\<exists>s'. rfold parse_line ls s = Ok s'
    \<and> status s' = (status s)\<lparr>st_Ingresses := st_Ingresses (status s) @ map ingress_of_row rows\<rparr>"
  using assms(1,3)
proof (induction arbitrary: s rule: list_all2_induct)
  case (Cons l ls cells rows)
  then obtain s1 where s1: "parse_line l s = Ok s1" "in_ingresses ws s1"
    "status s1 = (status s)\<lparr>st_Ingresses := st_Ingresses (status s) @ [ingress_of_row cells]\<rparr>"
    using parse_ingress_row [of ws _ cells s] assms(2) by blast
  from Cons.IH [OF s1(2)] s1 show ?case by auto
qed simp

section \<open>Lines without labels\<close>

text \<open>A state in which no table that the parser reads has begun.\<close>

definition idle :: "scan_state \<Rightarrow> bool" where
  "idle s \<longleftrightarrow> columnDesired s = -1 \<and> columnIngressHosts s = -1 \<and> columnPort s = -1"

definition unlabelled :: "string \<Rightarrow> bool" where
  "unlabelled l \<longleftrightarrow> l \<noteq> [] \<and> strings_Index l DesiredLabel = -1
     \<and> strings_Index l IngressHostsLabel = -1 \<and> strings_Index l PortsLabel = -1"

lemma parse_unlabelled:
  assumes "unlabelled l" and "idle s"
  shows "parse_line l s = Ok (step_resource l s) \<and> idle (step_resource l s)
    \<and> status (step_resource l s) = status s"
proof -
  have t: "idle (step_resource l s)" "status (step_resource l s) = status s"
    using assms(2) by (auto simp: step_resource_def idle_def)
  then have "step_nodes l (step_resource l s) = Ok (step_resource l s)"
    "step_ingresses l (step_resource l s) = Ok (step_resource l s)"
    "step_services l (step_resource l s) = Ok (step_resource l s)"
    using assms(1) by (simp_all add: unlabelled_def idle_def step_nodes_def step_ingresses_def step_services_def)
  with t assms(1) show ?thesis by (simp add: parse_line_def step_blank_def unlabelled_def)
qed

lemma parse_unlabelled_lines:
  assumes "\<forall>l \<in> set ls. unlabelled l" and "idle s"
  shows "\<exists>s'. rfold parse_line ls s = Ok s' \<and> status s' = status s"
  using assms
proof (induction ls arbitrary: s)
  case (Cons l ls)
  with parse_unlabelled [of l s] Cons.IH [of "step_resource l s"] show ?case by auto
qed simp

lemma unlabelled_align:
  "aligned ws cells \<Longrightarrow> data_row cells \<Longrightarrow> unlabelled (align ws cells)"
  by (simp add: unlabelled_def data_row_index align_nonempty)

lemma parse_other_table:
  assumes "list_all2 (\<lambda>l cells. (\<exists>ws. l = align ws cells \<and> aligned ws cells) \<and> data_row cells) ls rows"
  shows "\<exists>s. rfold parse_line ls (started r) = Ok s \<and> status s = zero_status"
proof -
  have "\<forall>l \<in> set ls. unlabelled l"
    using assms by (induction rule: list_all2_induct) (auto simp: unlabelled_align)
  moreover have "idle (started r)" by (simp add: idle_def init_scan_def)
  ultimately show ?thesis using parse_unlabelled_lines [of ls "started r"] by (simp add: init_scan_def)
qed

text \<open>The line that names the kind of a table.\<close>

definition title_line :: "string \<Rightarrow> string" where
  "title_line kind = ResourcePrefix @ kind"

lemma unlabelled_title:
  assumes "is_word kind" and "data_row [kind]"
  shows "unlabelled (title_line kind)"
proof -
  have "aligned [4] [''==>'', kind]" using assms(1) by (simp add: is_word_def is_space_def)
  moreover have "data_row [''==>'', kind]" using assms(2) by (simp add: data_row_def label_defs strings_HasPrefix_def)
  moreover have "align [4] [''==>'', kind] = title_line kind" by (simp add: title_line_def label_defs)
  ultimately show ?thesis using unlabelled_align by metis
qed

lemma parse_title:
  assumes "is_word kind" and "data_row [kind]"
  shows "parse_line (title_line kind) init_scan = Ok (started kind)"
proof -
  have "step_resource (title_line kind) init_scan = started kind"
    by (simp add: step_resource_def title_line_def strings_HasPrefix_def strings_TrimPrefix_def)
  with parse_unlabelled [OF unlabelled_title [OF assms], of init_scan] show ?thesis
    by (simp add: idle_def init_scan_def)
qed

end
