(* ===== verification/Formatted_Tables.thy ===== *)
theory Formatted_Tables
  imports Resource_Kinds Helm_Client Tiller
begin

text \<open>
  The way of the resources of a release from Tiller to the status: Tiller prints the table of
  each kind of resource under a line that names it, each object on its own, so that the columns
  are apart by two spaces or more but not aligned; \<open>formatResources\<close> of \<open>client.go\<close> lays the
  tables out again; the parser of \<open>status.go\<close> reads them by the columns of the header.
\<close>

section \<open>What Tiller prints\<close>

text \<open>
  A row as it is printed: \<open>gaps\<close> says by how much the spaces between two cells exceed two.
\<close>

fun raw_row :: "nat list \<Rightarrow> string list \<Rightarrow> string" where
  "raw_row gaps [] = []"
| "raw_row gaps [c] = c"
| "raw_row [] (c # d # cs) = c @ spaces 2 @ raw_row [] (d # cs)"
| "raw_row (g # gaps) (c # d # cs) = c @ spaces (g + 2) @ raw_row gaps (d # cs)"

text \<open>
  The bounds keep every formatted line below the limit of the scanner of the parser.
\<close>

definition printable :: "string list \<Rightarrow> bool" where
  "printable cells \<longleftrightarrow> 2 \<le> length cells \<and> length cells \<le> 16
     \<and> (\<forall>c \<in> set cells. is_word c \<and> ascii c \<and> length c \<le> 4000)"

section \<open>From spaces to tabs\<close>

lemma replace_word: "\<forall>c \<in> set w. \<not> is_space c \<Longrightarrow> replace_spaces (w @ s) = w @ replace_spaces s"
  by (induction w) auto

lemma replace_newline: "replace_spaces (CHR 0x0A # s) = CHR 0x0A # replace_spaces s"
  by simp

lemma replace_gap:
  assumes "\<not> strings_HasPrefix s '' ''"
  shows "replace_spaces (spaces (g + 2) @ s) = CHR 0x09 # replace_spaces s"
proof -
  have "dropWhile (\<lambda>c. c = CHR '' '') (spaces n @ s) = s" for n
    using assms by (induction n; cases s) (auto simp: strings_HasPrefix_def)
  from this [of "Suc g"] show ?thesis by (simp add: strings_HasPrefix_def)
qed

lemmas replace_two_spaces = replace_gap [where g = 0, unfolded add_0]

lemma word_no_space:
  "is_word c \<Longrightarrow> \<not> strings_HasPrefix (c @ s) '' ''"
  by (cases c) (auto simp: is_word_def strings_HasPrefix_def)

lemma raw_row_no_space:
  "is_word c \<Longrightarrow> \<not> strings_HasPrefix (raw_row gaps (c # cs) @ s) '' ''"
  by (cases cs; cases gaps) (simp_all add: word_no_space)

lemma word_chars: "is_word c \<Longrightarrow> \<forall>x \<in> set c. \<not> is_space x"
  by (simp add: is_word_def)

lemma replace_raw_row:
  assumes "\<forall>c \<in> set cells. is_word c"
  shows "replace_spaces (raw_row gaps cells @ CHR 0x0A # s)
    = strings_Join cells [CHR 0x09] @ CHR 0x0A # replace_spaces s"
  using assms
proof (induction gaps cells rule: raw_row.induct)
  case (3 c d cs)
  then show ?case
    using replace_two_spaces [OF raw_row_no_space [of d "[]" cs "CHR 0x0A # s"]]
    by (simp add: replace_word [OF word_chars])
next
  case (4 g gaps c d cs)
  then show ?case
    using replace_gap [OF raw_row_no_space [of d gaps cs "CHR 0x0A # s"], of g]
    by (simp add: replace_word [OF word_chars])
qed (simp_all add: replace_word [OF word_chars])

section \<open>From tabs to cells\<close>

definition cell_char :: "char \<Rightarrow> bool" where
  "cell_char c \<longleftrightarrow> c \<notin> {CHR 0x09, CHR 0x0A, CHR 0x0B, CHR 0x0C, CHR 0xFF}"

lemma tab_lines_text:
  "\<forall>c \<in> set t. cell_char c \<Longrightarrow> tab_lines False cell line (t @ s) = tab_lines False (cell @ t) line s"
  by (induction t arbitrary: cell) (auto simp: cell_char_def)

lemma word_cell_chars: "is_word c \<Longrightarrow> ascii c \<Longrightarrow> \<forall>x \<in> set c. cell_char x"
  by (fastforce simp: is_word_def ascii_def cell_char_def is_space_def)

lemma tab_lines_row:
  assumes "cells \<noteq> []" "\<forall>c \<in> set cells. is_word c \<and> ascii c"
  shows "tab_lines False [] line (strings_Join cells [CHR 0x09] @ CHR 0x0A # s)
    = (line @ cells, False) # tab_lines False [] [] s"
  using assms
proof (induction cells arbitrary: line rule: list_nonempty_induct)
  case (single c)
  then show ?case by (simp add: tab_lines_text [OF word_cell_chars])
next
  case (cons c cs)
  then show ?case by (simp add: strings_Join_Cons tab_lines_text [OF word_cell_chars])
qed

text \<open>A printed line, once its spaces are replaced, is a line of cells for the writer.\<close>

definition line_cells :: "string \<Rightarrow> string list \<Rightarrow> bool" where
  "line_cells l cells \<longleftrightarrow> (\<forall>s. tab_lines False [] [] (replace_spaces (l @ CHR 0x0A # s))
     = (cells, False) # tab_lines False [] [] (replace_spaces s))"

lemma line_cells_row: "printable cells \<Longrightarrow> line_cells (raw_row gaps cells) cells"
  unfolding line_cells_def printable_def
  by (auto simp: replace_raw_row intro!: tab_lines_row [of cells "[]", simplified])

lemma line_cells_blank: "line_cells [] [[]]"
  by (simp add: line_cells_def)

lemma line_cells_title:
  assumes "is_word kind" "ascii kind"
  shows "line_cells (title_line kind) [title_line kind]"
proof -
  have "replace_spaces (kind @ CHR 0x0A # s) = kind @ CHR 0x0A # replace_spaces s" for s
    using replace_word [OF word_chars [OF assms(1)]] by simp
  then have "replace_spaces (title_line kind @ CHR 0x0A # s) = title_line kind @ CHR 0x0A # replace_spaces s" for s
    using word_no_space [OF assms(1)] by (simp add: title_line_def label_defs)
  moreover have "\<forall>c \<in> set (title_line kind). cell_char c"
    using word_cell_chars [OF assms] by (auto simp: title_line_def label_defs cell_char_def)
  ultimately show ?thesis by (simp add: line_cells_def tab_lines_text)
qed

lemma tab_lines_unlines:
  assumes "list_all2 line_cells ls cs"
  shows "tab_lines False [] [] (replace_spaces (unlines ls)) = map (\<lambda>c. (c, False)) cs @ [([], False)]"
  using assms by (induction rule: list_all2_induct) (simp_all add: unlines_def line_cells_def)

lemma formatResources_lines:
  assumes "list_all2 line_cells ls cs"
  shows "formatResources (unlines ls) = tab_format cs"
proof -
  have "formatResources (unlines ls) = butlast (tab_format (cs @ [[]]))"
    by (simp add: formatResources_def tabwriter_def tab_lines_unlines [OF assms] tab_write_format comp_def)
  moreover have "tab_format (cs @ [[]]) = tab_format cs @ [CHR 0x0A]"
    using tab_format_separated [of "[]" cs "[]"] by (simp add: write_line_def)
  ultimately show ?thesis by simp
qed

section \<open>From cells to aligned lines\<close>

lemma write_aligned:
  "aligned ws cells \<Longrightarrow> \<forall>c \<in> set cells. ascii c \<Longrightarrow> Suc (length ws) = length cells \<Longrightarrow>
     write_cells u ws cells = align ws cells"
  by (induction ws cells arbitrary: u rule: aligned.induct) (auto simp: is_word_def)

lemma fits_aligned:
  assumes "fits ws cells" "length ws = length cells - 1" "\<forall>c \<in> set cells. is_word c \<and> ascii c"
  shows "aligned ws cells"
  using assms
proof (induction ws cells rule: aligned.induct)
  case (4 w ws c d cs)
  then have "fits ws (d # cs)" by (force simp: fits_def)
  moreover have "length c < w" using 4(2,4) by (auto simp: fits_def dest: spec [of _ 0])
  ultimately show ?case using 4 by simp
qed (auto simp: fits_def)

definition formatted_rows :: "string list list \<Rightarrow> string list" where
  "formatted_rows rows = map2 align (tab_layout [] rows) rows"

lemma layout_aligned:
  assumes "\<forall>cells \<in> set rows. printable cells \<and> fits ws cells"
  shows "list_all2 (\<lambda>v cells. aligned v cells \<and> prefix ws v \<and> Suc (length v) = length cells \<and> printable cells)
    (tab_layout ws rows) rows"
proof -
  have "list_all2 (\<lambda>v cells. prefix ws v \<and> fits v cells \<and> length v = length cells - 1) (tab_layout ws rows) rows"
    by (rule tab_layout_fits) (use assms in blast)
  moreover have "list_all2 (\<lambda>v cells. printable cells) (tab_layout ws rows) rows"
    using assms by (auto simp: list_all2_conv_all_nth)
  ultimately show ?thesis
    unfolding list_all2_conv_all_nth by (auto simp: printable_def fits_aligned)
qed

lemma layout_aligned_start:
  "\<forall>cells \<in> set rows. printable cells \<Longrightarrow>
    list_all2 (\<lambda>v cells. aligned v cells \<and> prefix [] v \<and> Suc (length v) = length cells \<and> printable cells)
      (tab_layout [] rows) rows"
  by (rule layout_aligned) (auto simp: fits_def printable_def)

lemma tab_format_rows:
  assumes "\<forall>cells \<in> set rows. printable cells"
  shows "tab_format rows = unlines (formatted_rows rows)"
proof -
  have "map2 write_line vs rows = map (\<lambda>l. l @ [CHR 0x0A]) (map2 align vs rows)"
    if "list_all2 (\<lambda>v cells. aligned v cells \<and> prefix [] v \<and> Suc (length v) = length cells \<and> printable cells) vs rows"
    for vs using that
    by (induction rule: list_all2_induct) (auto simp: write_line_def write_aligned printable_def)
  from this [OF layout_aligned_start [OF assms]] show ?thesis
    by (simp only: tab_format_def unlines_def formatted_rows_def)
qed

text \<open>A formatted line is short enough for the scanner.\<close>

lemma length_align:
  "aligned ws cells \<Longrightarrow> \<forall>w \<in> set ws. w \<le> k \<Longrightarrow> \<forall>c \<in> set cells. length c \<le> k \<Longrightarrow>
     length (align ws cells) \<le> k * length cells"
proof (induction ws cells rule: aligned.induct)
  case (4 w ws c d cs)
  then have "length (align ws (d # cs)) \<le> k * length (d # cs)" "w \<le> k" "length c < w" by simp_all
  then show ?case by simp
qed auto

lemma formatted_plain:
  assumes "\<forall>cells \<in> set rows. printable cells"
  shows "\<forall>l \<in> set (formatted_rows rows). plain_line l"
proof -
  have bound: "\<forall>v \<in> set (tab_layout [] rows). \<forall>w \<in> set v. w \<le> 4002"
    by (rule tab_layout_bound) (use assms in \<open>auto simp: printable_def\<close>)
  have "plain_line (align v cells)"
    if "v \<in> set (tab_layout [] rows)" "aligned v cells" "printable cells" for v cells
  proof (rule align_plain [OF that(2)])
    have "length (align v cells) \<le> 4002 * length cells"
      using that bound by (intro length_align) (auto simp: printable_def intro: order_trans [of _ 4000])
    also have "\<dots> < max_scan_token" using that(3) by (simp add: printable_def max_scan_token_def)
    finally show "length (align v cells) < max_scan_token" .
  qed
  with layout_aligned_start [OF assms] show ?thesis
    unfolding formatted_rows_def list_all2_iff by (fastforce dest: set_zip_leftD)
qed

section \<open>The tables of a release\<close>

datatype table =
    ServiceTable "string list list"
  | DeploymentTable "(string \<times> int \<times> int \<times> int \<times> int \<times> string) list"
  | StatefulSetTable "(string \<times> int \<times> int \<times> string) list"
  | IngressTable "string list list"
  | OtherTable "string list list"

primrec table_rows :: "table \<Rightarrow> string list list" where
  "table_rows (ServiceTable rows) = service_header # rows"
| "table_rows (DeploymentTable rows) = deployment_header # map deployment_row rows"
| "table_rows (StatefulSetTable rows) = statefulset_header # map statefulset_row rows"
| "table_rows (IngressTable rows) = ingress_header # rows"
| "table_rows (OtherTable rows) = rows"

text \<open>The counts, services and ingresses that a table stands for.\<close>

primrec table_counts :: "table \<Rightarrow> (int \<times> int) list" where
  "table_counts (ServiceTable rows) = []"
| "table_counts (DeploymentTable rows) = map deployment_counts rows"
| "table_counts (StatefulSetTable rows) = map statefulset_counts rows"
| "table_counts (IngressTable rows) = []"
| "table_counts (OtherTable rows) = []"

primrec table_services :: "table \<Rightarrow> StatusService list" where
  "table_services (ServiceTable rows) = map service_of_row rows"
| "table_services (DeploymentTable rows) = []"
| "table_services (StatefulSetTable rows) = []"
| "table_services (IngressTable rows) = []"
| "table_services (OtherTable rows) = []"

primrec table_ingresses :: "table \<Rightarrow> StatusIngress list" where
  "table_ingresses (ServiceTable rows) = []"
| "table_ingresses (DeploymentTable rows) = []"
| "table_ingresses (StatefulSetTable rows) = []"
| "table_ingresses (IngressTable rows) = map ingress_of_row rows"
| "table_ingresses (OtherTable rows) = []"

text \<open>
  The rows of data do not look like headers; those of services have six cells; those of
  ingresses have four (without an address) or five.
\<close>

primrec table_shape :: "table \<Rightarrow> bool" where
  "table_shape (ServiceTable rows) \<longleftrightarrow> (\<forall>cells \<in> set rows. length cells = 6 \<and> data_row cells)"
| "table_shape (DeploymentTable rows) \<longleftrightarrow> (\<forall>r \<in> set rows. data_row (deployment_row r)
     \<and> fits_int (fst (deployment_counts r)) \<and> fits_int (snd (deployment_counts r)))"
| "table_shape (StatefulSetTable rows) \<longleftrightarrow> (\<forall>r \<in> set rows. data_row (statefulset_row r)
     \<and> fits_int (fst (statefulset_counts r)) \<and> fits_int (snd (statefulset_counts r)))"
| "table_shape (IngressTable rows) \<longleftrightarrow> (\<forall>cells \<in> set rows. length cells \<in> {4, 5} \<and> data_row cells)"
| "table_shape (OtherTable rows) \<longleftrightarrow> (\<forall>cells \<in> set rows. data_row cells)"

definition table_ok :: "string \<times> (nat \<Rightarrow> nat list) \<times> table \<Rightarrow> bool" where
  "table_ok t = (case t of (kind, gaps, t) \<Rightarrow> is_word kind \<and> ascii kind \<and> length kind \<le> 4000
     \<and> data_row [kind] \<and> table_shape t \<and> (\<forall>cells \<in> set (table_rows t). printable cells))"

text \<open>A table as it is printed, as it is laid out in cells, and as it is formatted.\<close>

definition printed_table :: "string \<times> (nat \<Rightarrow> nat list) \<times> table \<Rightarrow> string list" where
  "printed_table t = (case t of (kind, gaps, t) \<Rightarrow>
     title_line kind # map2 (\<lambda>i. raw_row (gaps i)) [0..<length (table_rows t)] (table_rows t) @ [[]])"

definition table_cells :: "string \<times> (nat \<Rightarrow> nat list) \<times> table \<Rightarrow> string list list" where
  "table_cells t = (case t of (kind, gaps, t) \<Rightarrow> [title_line kind] # table_rows t @ [[[]]])"

definition formatted_table :: "string \<times> (nat \<Rightarrow> nat list) \<times> table \<Rightarrow> string list" where
  "formatted_table t = (case t of (kind, gaps, t) \<Rightarrow>
     title_line kind # formatted_rows (table_rows t) @ [[]])"

definition printed_tables :: "(string \<times> (nat \<Rightarrow> nat list) \<times> table) list \<Rightarrow> string" where
  "printed_tables ts = unlines (concat (map printed_table ts))"

lemma printed_table_cells:
  assumes "table_ok t"
  shows "list_all2 line_cells (printed_table t) (table_cells t)"
proof -
  obtain kind gaps u where t: "t = (kind, gaps, u)" by (cases t)
  have "list_all2 line_cells (map2 (\<lambda>i. raw_row (gaps i)) [0..<length (table_rows u)] (table_rows u)) (table_rows u)"
    using assms by (auto simp: t table_ok_def list_all2_conv_all_nth intro: line_cells_row)
  then show ?thesis
    using assms by (auto simp: t printed_table_def table_cells_def table_ok_def line_cells_title
        line_cells_blank intro: list_all2_appendI)
qed

lemma tab_format_table:
  assumes "table_ok t"
  shows "tab_format (table_cells t @ cs) = unlines (formatted_table t) @ tab_format cs"
proof -
  obtain kind gaps u where t: "t = (kind, gaps, u)" by (cases t)
  have rows: "tab_format (table_rows u) = unlines (formatted_rows (table_rows u))"
    by (rule tab_format_rows) (use assms in \<open>simp add: t table_ok_def\<close>)
  have "tab_format (table_cells t @ cs)
      = write_line [] [title_line kind] @ tab_format (table_rows u @ [[]] # cs)"
    using tab_format_separated [of "[title_line kind]" "[]" "table_rows u @ [[]] # cs"]
    by (simp add: t table_cells_def)
  also have "tab_format (table_rows u @ [[]] # cs)
      = tab_format (table_rows u) @ write_line [] [[]] @ tab_format cs"
    by (rule tab_format_separated) simp
  finally show ?thesis
    by (simp add: rows t formatted_table_def unlines_def write_line_def)
qed

lemma format_tables:
  assumes "\<forall>t \<in> set ts. table_ok t"
  shows "formatResources (printed_tables ts) = unlines (concat (map formatted_table ts))"
proof -
  have "list_all2 line_cells (concat (map printed_table ts)) (concat (map table_cells ts))"
    using assms by (induction ts) (auto intro: list_all2_appendI printed_table_cells)
  from formatResources_lines [OF this]
  have "formatResources (printed_tables ts) = tab_format (concat (map table_cells ts))"
    by (simp add: printed_tables_def)
  also have "\<dots> = unlines (concat (map formatted_table ts))"
    using assms by (induction ts) (simp_all add: tab_format_table unlines_def)
  finally show ?thesis .
qed

section \<open>Reading the tables\<close>

text \<open>The status a table gives.\<close>

definition table_status :: "table \<Rightarrow> Status" where
  "table_status t = (total_nodes (table_counts t) zero_status)
     \<lparr>st_Services := table_services t, st_Ingresses := table_ingresses t\<rparr>"

lemma total_nodes_lists [simp]:
  "st_Services (total_nodes ns st) = st_Services st" "st_Ingresses (total_nodes ns st) = st_Ingresses st"
  unfolding total_nodes_def by (induction ns arbitrary: st) (auto simp: add_nodes_def)

lemma total_nodes_same:
  "(total_nodes ns zero_status)\<lparr>st_Services := [], st_Ingresses := []\<rparr> = total_nodes ns zero_status"
proof -
  have "st_Services x = [] \<Longrightarrow> st_Ingresses x = [] \<Longrightarrow> x\<lparr>st_Services := [], st_Ingresses := []\<rparr> = x"
    for x :: Status by (cases x) simp
  then show ?thesis by (simp add: zero_status_def)
qed

text \<open>Rows that all have the same number of cells get the same widths.\<close>

lemma layout_uniform:
  assumes "\<forall>cells \<in> set rows. length cells = Suc n"
  shows "\<exists>ws. tab_layout [] rows = map (\<lambda>_. ws) rows"
proof (cases "rows = []")
  case False
  let ?ws = "map (\<lambda>j. column_width j rows) [0..<n]"
  have "tab_layout [] rows = tab_layout ?ws rows"
    using tab_layout_common [of rows n "[]"] assms False by simp
  also have "\<dots> = map (\<lambda>_. ?ws) rows" by (rule tab_layout_done) (use assms in simp)
  finally show ?thesis by blast
qed simp

lemma formatted_uniform:
  assumes "\<forall>cells \<in> set rows. printable cells \<and> length cells = n"
  obtains ws where "formatted_rows rows = map (align ws) rows" "\<forall>cells \<in> set rows. aligned ws cells"
proof (cases "rows = []")
  case True
  then show ?thesis using that by (simp add: formatted_rows_def)
next
  case False
  then have "n \<noteq> 0" using assms by (cases rows) (auto simp: printable_def)
  then obtain m where "n = Suc m" by (cases n) auto
  with assms obtain ws where ws: "tab_layout [] rows = map (\<lambda>_. ws) rows"
    using layout_uniform [of rows m] by auto
  have "\<forall>cells \<in> set rows. aligned ws cells"
    using layout_aligned_start [of rows] assms unfolding ws by (auto simp: list_all2_map1 list_all2_same)
  moreover have "formatted_rows rows = map (align ws) rows"
    unfolding formatted_rows_def ws by (simp add: zip_map1 zip_same_conv_map comp_def)
  ultimately show ?thesis using that by blast
qed

lemma parse_ingress_table:
  assumes "\<forall>cells \<in> set (ingress_header # rows). printable cells"
    and "\<forall>cells \<in> set rows. length cells \<in> {4, 5} \<and> data_row cells"
  shows "\<exists>s. rfold parse_line (formatted_rows (ingress_header # rows)) (started r) = Ok s
    \<and> status s = zero_status\<lparr>st_Ingresses := map ingress_of_row rows\<rparr>"
proof -
  let ?rows = "ingress_header # rows"
  let ?ws = "map (\<lambda>j. column_width j ?rows) [0..<3]"
  have long: "\<forall>cells \<in> set ?rows. 3 < length cells"
    using assms(2) by (auto simp: ingress_header_def)
  then have layout: "tab_layout [] ?rows = tab_layout ?ws ?rows"
    using tab_layout_common [of ?rows 3 "[]"] by simp
  have "fits ?ws cells" if "cells \<in> set ?rows" for cells
    using column_width_mem [OF that] long that by (auto simp: fits_def less_Suc_eq numeral_eq_Suc)
  then have "list_all2 (\<lambda>v cells. aligned v cells \<and> prefix ?ws v \<and> Suc (length v) = length cells \<and> printable cells)
      (tab_layout ?ws ?rows) ?rows" using assms(1) by (intro layout_aligned) blast
  then obtain v vs where vs: "tab_layout ?ws ?rows = v # vs" "aligned v ingress_header" "prefix ?ws v"
    "list_all2 (\<lambda>v cells. aligned v cells \<and> prefix ?ws v \<and> Suc (length v) = length cells \<and> printable cells) vs rows"
    by (auto simp: list_all2_Cons2)
  obtain u where u: "v = ?ws @ u" using vs(3) by (auto simp: prefix_def)
  have lines: "formatted_rows ?rows = align v ingress_header # map2 align vs rows"
    by (simp add: formatted_rows_def layout vs(1))
  have "(\<exists>u. align (vs ! i) (rows ! i) = align (?ws @ u) (rows ! i) \<and> aligned (?ws @ u) (rows ! i))
      \<and> 3 \<le> length (rows ! i) \<and> data_row (rows ! i)" if "i < length rows" for i
  proof -
    from vs(4) that have "aligned (vs ! i) (rows ! i)" "prefix ?ws (vs ! i)"
      by (simp_all add: list_all2_conv_all_nth)
    moreover have "length (rows ! i) \<in> {4, 5} \<and> data_row (rows ! i)" using assms(2) that by simp
    ultimately show ?thesis by (auto simp: prefix_def)
  qed
  then have "list_all2 (\<lambda>l cells. (\<exists>u. l = align (?ws @ u) cells \<and> aligned (?ws @ u) cells)
      \<and> 3 \<le> length cells \<and> data_row cells) (map2 align vs rows) rows"
    using list_all2_lengthD [OF vs(4)] by (simp add: list_all2_conv_all_nth)
  moreover obtain s where "parse_line (align v ingress_header) (started r) = Ok s" "in_ingresses ?ws s"
    "status s = zero_status"
    using parse_ingress_header [of ?ws u r] vs(2) by (auto simp: u)
  ultimately show ?thesis
    using parse_ingress_rows [of ?ws "map2 align vs rows" rows s]
    unfolding lines by (auto simp: zero_status_def)
qed

lemma parse_table_rows:
  assumes "table_shape t" "\<forall>cells \<in> set (table_rows t). printable cells"
  shows "\<exists>s. rfold parse_line (formatted_rows (table_rows t)) (started r) = Ok s \<and> status s = table_status t"
proof (cases t)
  case (ServiceTable rows)
  from assms have "\<forall>cells \<in> set (service_header # rows). printable cells \<and> length cells = 6"
    by (simp add: ServiceTable service_header_def)
  then obtain ws where "formatted_rows (service_header # rows) = map (align ws) (service_header # rows)"
    "\<forall>cells \<in> set (service_header # rows). aligned ws cells" by (rule formatted_uniform)
  with parse_service_table [of ws rows r] assms(1) show ?thesis
    by (simp add: ServiceTable table_status_def total_nodes_def zero_status_def)
next
  case (DeploymentTable rows)
  from assms have "\<forall>cells \<in> set (deployment_header # map deployment_row rows). printable cells \<and> length cells = 6"
    by (auto simp: DeploymentTable deployment_header_def deployment_row_def)
  then obtain ws where "formatted_rows (deployment_header # map deployment_row rows)
      = map (align ws) (deployment_header # map deployment_row rows)"
    "\<forall>cells \<in> set (deployment_header # map deployment_row rows). aligned ws cells"
    by (rule formatted_uniform)
  with parse_deployment_table [of ws rows r] assms(1) show ?thesis
    by (simp add: DeploymentTable table_status_def total_nodes_same)
next
  case (StatefulSetTable rows)
  from assms have "\<forall>cells \<in> set (statefulset_header # map statefulset_row rows). printable cells \<and> length cells = 4"
    by (auto simp: StatefulSetTable statefulset_header_def statefulset_row_def)
  then obtain ws where "formatted_rows (statefulset_header # map statefulset_row rows)
      = map (align ws) (statefulset_header # map statefulset_row rows)"
    "\<forall>cells \<in> set (statefulset_header # map statefulset_row rows). aligned ws cells"
    by (rule formatted_uniform)
  with parse_statefulset_table [of ws rows r] assms(1) show ?thesis
    by (simp add: StatefulSetTable table_status_def total_nodes_same)
next
  case (IngressTable rows)
  with parse_ingress_table [of rows r] assms show ?thesis
    by (simp add: table_status_def total_nodes_def zero_status_def)
next
  case (OtherTable rows)
  have "list_all2 (\<lambda>l cells. (\<exists>ws. l = align ws cells \<and> aligned ws cells) \<and> data_row cells)
      (formatted_rows rows) rows"
    using layout_aligned_start [of rows] assms
    by (auto simp: OtherTable formatted_rows_def list_all2_conv_all_nth)
  from parse_other_table [OF this, of r] show ?thesis
    by (simp add: OtherTable table_status_def total_nodes_def zero_status_def)
qed

definition tables_status :: "(string \<times> (nat \<Rightarrow> nat list) \<times> table) list \<Rightarrow> Status" where
  "tables_status ts = foldr (\<lambda>(kind, gaps, t). merge_status (table_status t)) ts zero_status"

lemma parse_tables:
  assumes "\<forall>t \<in> set ts. table_ok t"
  shows "\<exists>s. rfold parse_line (concat (map formatted_table ts)) init_scan = Ok s \<and> status s = tables_status ts"
  using assms
proof (induction ts)
  case Nil
  then show ?case by (simp add: tables_status_def init_scan_def)
next
  case (Cons x ts)
  obtain kind gaps t where x: "x = (kind, gaps, t)" by (cases x)
  let ?rows = "title_line kind # formatted_rows (table_rows t)"
  from Cons.prems have ok: "table_ok (kind, gaps, t)" by (simp add: x)
  then obtain s where s: "rfold parse_line (formatted_rows (table_rows t)) (started kind) = Ok s"
    "status s = table_status t" using parse_table_rows [of t kind] by (auto simp: table_ok_def)
  then have "rfold parse_line ?rows init_scan = Ok s"
    using ok by (simp add: parse_title table_ok_def)
  from parse_lines_joined [OF this, of "concat (map formatted_table ts)"]
  have "rfold parse_line (concat (map formatted_table (x # ts))) init_scan
      = map_result (after_status (table_status t)) (rfold parse_line (concat (map formatted_table ts)) init_scan)"
    by (simp add: x formatted_table_def [of "(kind, gaps, t)"] s(2))
  with Cons show ?case by (auto simp: x tables_status_def)
qed

lemma formatted_tables_plain:
  assumes "table_ok t" "l \<in> set (formatted_table t)"
  shows "plain_line l"
proof -
  obtain kind gaps u where t: "t = (kind, gaps, u)" by (cases t)
  have "aligned [4] [''==>'', kind]" "align [4] [''==>'', kind] = title_line kind"
    using assms(1) by (simp_all add: t table_ok_def is_word_def is_space_def title_line_def label_defs)
  then have "plain_line (title_line kind)"
    using align_plain [of "[4]" "[''==>'', kind]"] assms(1)
    by (simp add: t table_ok_def title_line_def label_defs max_scan_token_def)
  then show ?thesis
    using assms formatted_plain [of "table_rows u"]
    by (auto simp: t table_ok_def formatted_table_def plain_line_def max_scan_token_def)
qed

lemma parse_printed_tables:
  assumes "\<forall>t \<in> set ts. table_ok t"
  shows "parse_resources (formatResources (printed_tables ts)) = Ok (tables_status ts)"
proof -
  have "\<forall>l \<in> set (concat (map formatted_table ts)). plain_line l"
    using assms formatted_tables_plain by auto
  from scan_unlines [OF this] parse_tables [OF assms] show ?thesis
    by (auto simp: parse_resources_def format_tables [OF assms])
qed

text \<open>The sums and lists of the merged status.\<close>

definition tables_counts :: "(string \<times> (nat \<Rightarrow> nat list) \<times> table) list \<Rightarrow> (int \<times> int) list" where
  "tables_counts ts = concat (map (\<lambda>(kind, gaps, t). table_counts t) ts)"

definition tables_services :: "(string \<times> (nat \<Rightarrow> nat list) \<times> table) list \<Rightarrow> StatusService list" where
  "tables_services ts = concat (map (\<lambda>(kind, gaps, t). table_services t) ts)"

definition tables_ingresses :: "(string \<times> (nat \<Rightarrow> nat list) \<times> table) list \<Rightarrow> StatusIngress list" where
  "tables_ingresses ts = concat (map (\<lambda>(kind, gaps, t). table_ingresses t) ts)"

lemma wrap_int_add_right [simp]: "wrap_int (a + wrap_int b) = wrap_int (a + b)"
  using wrap_int_add_left [of b a] by (simp add: add.commute)

lemma total_nodes_sums:
  assumes "fits_int (st_DesiredNodes st)" "fits_int (st_AvailableNodes st)"
  shows "st_DesiredNodes (total_nodes ns st) = wrap_int (st_DesiredNodes st + sum_list (map fst ns))"
    "st_AvailableNodes (total_nodes ns st) = wrap_int (st_AvailableNodes st + sum_list (map snd ns))"
  using assms unfolding total_nodes_def
  by (induction ns arbitrary: st) (auto simp: add_nodes_def int_add_def add.assoc)

lemma tables_status_fields:
  "st_Services (tables_status ts) = tables_services ts"
  "st_Ingresses (tables_status ts) = tables_ingresses ts"
  "st_DesiredNodes (tables_status ts) = wrap_int (sum_list (map fst (tables_counts ts)))"
  "st_AvailableNodes (tables_status ts) = wrap_int (sum_list (map snd (tables_counts ts)))"
  by (induction ts)
     (auto simp: tables_status_def tables_services_def tables_ingresses_def tables_counts_def
       merge_status_def table_status_def zero_status_def int_add_def total_nodes_sums)

text \<open>
  An ingress that has got an address loses its port: the parser reads the address instead, and
  a text that is no number counts as 0.
\<close>

lemma ingress_port_lost:
  "strconv_Atoi (strings_Split address '','' ! 0) = None \<Longrightarrow>
     ing_IngressPort (ingress_of_row [name, hosts, address, ports, age]) = 0"
  by (simp add: ingress_of_row_def int_or_def)

section \<open>Properties\<close>

text \<open>
  C3: The status of a release gives back what Tiller printed: for any sequence of tables of
  services, deployments, stateful sets, ingresses and of any other kind, printed with gaps of
  any width from two spaces on, the services and ingresses of the status are those of the rows,
  in order, and the counts are the sums over the rows, with the wrap-around of 64 bits.
\<close>

theorem resources_read_back:
  assumes "\<forall>t \<in> set ts. table_ok t"
    and "ext_ReleaseStatus (w_ext w) (w_hist w) release = Inr (Some \<lparr>sr_Name = name, sr_Namespace = ns,
      sr_Info = Some \<lparr>si_Status = Some (code, printed_tables ts), si_LastDeployed = Some t\<rparr>\<rparr>)"
  shows "\<exists>st. fst (client_GetStatus release w) = Ok st
    \<and> st_Services st = tables_services ts \<and> st_Ingresses st = tables_ingresses ts
    \<and> st_DesiredNodes st = wrap_int (sum_list (map fst (tables_counts ts)))
    \<and> st_AvailableNodes st = wrap_int (sum_list (map snd (tables_counts ts)))"
proof -
  have "st_Services (apply_code c st) = st_Services st" "st_Ingresses (apply_code c st) = st_Ingresses st"
    "st_DesiredNodes (apply_code c st) = st_DesiredNodes st"
    "st_AvailableNodes (apply_code c st) = st_AvailableNodes st"
    "st_Services (apply_timeout now l d st) = st_Services st"
    "st_Ingresses (apply_timeout now l d st) = st_Ingresses st"
    "st_DesiredNodes (apply_timeout now l d st) = st_DesiredNodes st"
    "st_AvailableNodes (apply_timeout now l d st) = st_AvailableNodes st" for c now l d st
    by (simp_all add: apply_code_def apply_timeout_def)
  then show ?thesis
    using assms(2) parse_printed_tables [OF assms(1)]
    by (simp add: client_GetStatus_def ReleaseStatus_call_def call_sum_def andthen_def wrap_err_def
        status_of_response_def convertByteToStatus_def tables_status_fields)
qed

definition example_tables :: "(string \<times> (nat \<Rightarrow> nat list) \<times> table) list" where
  "example_tables =
     [(''v1/Service'', \<lambda>_. [1, 3], ServiceTable example_rows),
      (''v1beta1/Deployment'', \<lambda>i. [i], DeploymentTable example_deployments),
      (''v1beta1/Ingress'', \<lambda>_. [], IngressTable [[''web'', ''a.io,b.io'', ''80'', ''5m''],
         [''api'', ''c.io'', ''10.0.0.7'', ''443'', ''5m'']])]"

definition example_response :: StatusResponse where
  "example_response = \<lparr>sr_Name = ''r'', sr_Namespace = ''ns'',
     sr_Info = Some \<lparr>si_Status = Some (DEPLOYED, printed_tables example_tables), si_LastDeployed = Some 0\<rparr>\<rparr>"

definition example_world :: "(string, string) world" where
  "example_world = ref_world\<lparr>w_ext := ref_ext\<lparr>ext_ReleaseStatus := \<lambda>h n. Inr (Some example_response)\<rparr>\<rparr>"

lemma example_tables_ok: "\<forall>t \<in> set example_tables. table_ok t"
  by (simp add: example_tables_def table_ok_def example_rows_def example_deployments_def
      deployment_row_def deployment_counts_def service_header_def deployment_header_def ingress_header_def
      label_defs printable_def is_word_def is_space_def data_row_def strings_HasPrefix_def
      strconv_Itoa_def nat_digits.simps digit_char_def char_of_def bit_iff_odd
      fits_int_def int_min_def int_max_def)

theorem resources_read_back_witness:
  "\<exists>st. fst (client_GetStatus ''r'' example_world) = Ok st
    \<and> st_Services st = map service_of_row example_rows
    \<and> map ing_Name (st_Ingresses st) = [''web'', ''api'']
    \<and> st_DesiredNodes st = 4 \<and> st_AvailableNodes st = 2"
proof -
  have "ext_ReleaseStatus (w_ext example_world) (w_hist example_world) ''r'' = Inr (Some \<lparr>sr_Name = ''r'',
      sr_Namespace = ''ns'', sr_Info = Some \<lparr>si_Status = Some (DEPLOYED, printed_tables example_tables),
      si_LastDeployed = Some 0\<rparr>\<rparr>)"
    by (simp add: example_world_def example_response_def)
  from resources_read_back [OF example_tables_ok this] obtain st where
    "fst (client_GetStatus ''r'' example_world) = Ok st"
    "st_Services st = tables_services example_tables" "st_Ingresses st = tables_ingresses example_tables"
    "st_DesiredNodes st = wrap_int (sum_list (map fst (tables_counts example_tables)))"
    "st_AvailableNodes st = wrap_int (sum_list (map snd (tables_counts example_tables)))"
    by blast
  moreover have "fits_int 4" "fits_int 2" by (simp_all add: fits_int_def int_min_def int_max_def)
  ultimately show ?thesis
    by (simp add: example_tables_def example_deployments_def tables_services_def tables_ingresses_def
        tables_counts_def deployment_counts_def ingress_of_row_def)
qed

end
