(* ===== verification/Spec2Isabelle.thy ===== *)
theory Spec2Isabelle
  imports Interleaving Formatted_Tables
begin

text \<open>
  Header.
\<close>

section \<open>The contract with the platform\<close>

definition example_details :: RequestDetails where
  "example_details = \<lparr>rd_ServiceID = ''s1'', rd_PlanID = ''p1'', rd_RawContext = [], rd_RawParameters = []\<rparr>"

definition example_id :: string where
  "example_id = ''f9f2b0c1-2a3d-4e11-8000-000000000001''"

definition example_client :: Client where
  "example_client = \<lparr>client_env = getHelmEnvironment ref_config, client_config = ref_config\<rparr>"

definition example_broker :: HelmBroker where
  "example_broker = New ref_config example_catalog (Some example_client)"

lemma example_name: "getName example_id = Ok ''helmif9f2b0c12a3d4e''"
  by (simp add: example_id_def getName_Ok_iff strings_HasPrefix_def stripped_def strings_ToLower_def
      ascii_eval)

text \<open>
  C1: Provisioning refines adding an instance. Whatever Tiller answers within its contract, only
  the presence of the release of the instance can change, and: success means it is present; the
  answer that the instance exists is given only when it may be present and leaves it as it was;
  any other error leaves it as it was, unless the installation had been asked for. The release
  is never less certain to be there than before.
\<close>

theorem provisioning_contract:
  assumes "tiller_ok h0 (w_ext w)" and "getName iid = Ok n"
    and "Provision b cl iid details async w = (r, w')"
  shows "\<exists>p'. holds h0 (w_hist w') = (holds h0 (w_hist w))(n := p')
    \<and> spec_Provision (holds h0 (w_hist w) n) p' r \<and> holds h0 (w_hist w) n \<le> p'"
  using Provision_spec [OF assms] spec_mono(1) by blast

lemma ref_world_simps [simp]: "w_ext ref_world = ref_ext" "w_hist ref_world = []" "w_env ref_world = Map.empty"
  by (simp_all add: ref_world_def)

definition provisioned_world :: "(string, string) world" where
  "provisioned_world = snd (Provision example_broker example_client example_id example_details True ref_world)"

lemma example_provision:
  "Provision example_broker example_client example_id example_details True ref_world
     = (Ok \<lparr>spec_IsAsync = False\<rparr>, provisioned_world)"
proof -
  have "fst (Provision example_broker example_client example_id example_details True ref_world)
      = Ok \<lparr>spec_IsAsync = False\<rparr>" by code_simp
  then show ?thesis unfolding provisioned_world_def by (metis prod.collapse)
qed

lemma provisioned_ext: "w_ext provisioned_world = ref_ext"
  using serve_frame(1) [of example_broker example_client "ProvisionRequest example_id example_details True" ref_world]
  by (simp add: serve_def provisioned_world_def)

lemma provisioned_env: "w_env provisioned_world = Map.empty"
  using serve_frame(2) [of example_broker example_client "ProvisionRequest example_id example_details True" ref_world]
  by (simp add: serve_def provisioned_world_def)

theorem provisioning_contract_witness:
  "holds (\<lambda>_. Absent) (w_hist provisioned_world) = (\<lambda>_. Absent)(''helmif9f2b0c12a3d4e'' := Present)"
proof -
  have "tiller_ok (\<lambda>_. Absent) (w_ext ref_world)" by (simp add: ref_tiller_ok)
  from provisioning_contract [OF this example_name example_provision] show ?thesis
    by (auto simp: spec_Provision_def holds_def)
qed

text \<open>
  C2: Deprovisioning refines removing an instance. Only the presence of its release can change,
  and: success means it is absent; the answer that the instance does not exist is given only
  when it may be absent and leaves it as it was; any other error leaves it as it was, or unsure
  when the deletion had been asked for. The release is never more certain to be there than before.
\<close>

theorem deprovisioning_contract:
  assumes "tiller_ok h0 (w_ext w)" and "getName iid = Ok n" and "Deprovision b iid w = (r, w')"
  shows "\<exists>p'. holds h0 (w_hist w') = (holds h0 (w_hist w))(n := p')
    \<and> spec_Deprovision (holds h0 (w_hist w) n) p' r \<and> p' \<le> holds h0 (w_hist w) n"
  using Deprovision_spec [OF assms] spec_mono(2) by blast

theorem deprovisioning_contract_witness:
  "\<exists>w'. Deprovision example_broker example_id provisioned_world = (Ok \<lparr>spec_IsAsync = False\<rparr>, w')
     \<and> holds (\<lambda>_. Absent) (w_hist w') ''helmif9f2b0c12a3d4e'' = Absent"
proof -
  let ?run = "Deprovision example_broker example_id provisioned_world"
  have "fst ?run = Ok \<lparr>spec_IsAsync = False\<rparr>" by code_simp
  then have run: "?run = (Ok \<lparr>spec_IsAsync = False\<rparr>, snd ?run)" by (metis prod.collapse)
  have "tiller_ok (\<lambda>_. Absent) (w_ext provisioned_world)" by (simp add: provisioned_ext ref_tiller_ok)
  from deprovisioning_contract [OF this example_name run]
  have "holds (\<lambda>_. Absent) (w_hist (snd ?run)) ''helmif9f2b0c12a3d4e'' = Absent"
    by (auto simp: spec_Deprovision_def)
  with run show ?thesis by blast
qed

text \<open>
  C5: The answers of the broker agree over time. Once it has answered that an instance is
  provisioned, it does not answer a later deprovisioning with the instance not existing, unless
  it was asked to deprovision the instance in between; and once it has answered that an instance
  is deprovisioned, it does not answer a later provisioning with the instance existing, unless it
  was asked to provision it in between. All other requests may come in between, in any order.
\<close>

theorem answers_consistent:
  assumes "tiller_ok h0 (w_ext w)" and "getName iid = Ok n"
  shows "(fst (Provision b cl iid d async w) = Ok spec
       \<and> (\<forall>i. DeprovisionRequest i \<in> set qs \<longrightarrow> getName i \<noteq> Ok n) \<longrightarrow>
         fst (Deprovision b iid (serve_all b cl qs (snd (Provision b cl iid d async w))))
           \<noteq> Err ErrInstanceDoesNotExist)
     \<and> (fst (Deprovision b iid w) = Ok spec
       \<and> (\<forall>i d' a. ProvisionRequest i d' a \<in> set qs \<longrightarrow> getName i \<noteq> Ok n) \<longrightarrow>
         fst (Provision b cl iid d async (serve_all b cl qs (snd (Deprovision b iid w))))
           \<noteq> Err ErrInstanceAlreadyExists)"
proof (intro conjI impI)
  let ?w = "snd (Provision b cl iid d async w)"
  assume "fst (Provision b cl iid d async w) = Ok spec
    \<and> (\<forall>i. DeprovisionRequest i \<in> set qs \<longrightarrow> getName i \<noteq> Ok n)"
  then have "Present \<le> holds h0 (w_hist (serve_all b cl qs ?w)) n"
    using provisioned_present [OF assms] serve_all_keeps_present [of qs n h0 ?w b cl] by metis
  with present_found [OF _ assms(2), of h0 "serve_all b cl qs ?w" b] assms(1)
  show "fst (Deprovision b iid (serve_all b cl qs ?w)) \<noteq> Err ErrInstanceDoesNotExist"
    by (auto simp: less_eq_presence_def)
next
  let ?w = "snd (Deprovision b iid w)"
  assume "fst (Deprovision b iid w) = Ok spec
    \<and> (\<forall>i d' a. ProvisionRequest i d' a \<in> set qs \<longrightarrow> getName i \<noteq> Ok n)"
  then have "holds h0 (w_hist (serve_all b cl qs ?w)) n \<le> Absent"
    using deprovisioned_absent [OF assms] serve_all_keeps_absent [of qs n h0 b cl ?w] by metis
  with absent_free [OF _ assms(2), of h0 "serve_all b cl qs ?w" b cl d async] assms(1)
  show "fst (Provision b cl iid d async (serve_all b cl qs ?w)) \<noteq> Err ErrInstanceAlreadyExists"
    by (auto simp: less_eq_presence_def)
qed

theorem answers_consistent_witness:
  "fst (Deprovision example_broker example_id
     (serve_all example_broker example_client [LastOperationRequest example_id] provisioned_world))
     \<noteq> Err ErrInstanceDoesNotExist"
proof -
  have "tiller_ok (\<lambda>_. Absent) (w_ext ref_world)" by (simp add: ref_tiller_ok)
  from answers_consistent [OF this example_name, of example_broker example_client example_details True
      "\<lparr>spec_IsAsync = False\<rparr>" "[LastOperationRequest example_id]"]
  show ?thesis by (simp add: example_provision)
qed


text \<open>A Tiller that refuses the first deletions.\<close>

definition stubborn_world :: "(string, string) world" where
  "stubborn_world = ref_world\<lparr>w_ext := ref_ext\<lparr>ext_DeleteRelease :=
     (\<lambda>h n opts. if length h < 3 then Some ''transport is closing'' else None)\<rparr>\<rparr>"




section \<open>Requests served at the same time\<close>


text \<open>
  Two requests to provision one instance: both see that it does not exist before either
  installs it, so that both ask for the installation, and the second is refused.
\<close>

definition race_request :: request where
  "race_request = ProvisionRequest example_id example_details True"

definition refusing_world :: "(string, string) world" where
  "refusing_world = ref_world\<lparr>w_ext := ref_ext\<lparr>ext_InstallRelease :=
     \<lambda>h ch ns opts. Inl ''a release of this name exists''\<rparr>\<rparr>"

definition race_history :: "string history" where
  "race_history = (let first = events example_broker example_client race_request ref_world;
       second = events example_broker example_client race_request refusing_world
     in (butlast first @ butlast second) @ [last first, last second])"

lemma race_interleaved:
  "interleaved example_broker example_client
     [(race_request, ref_world), (race_request, refusing_world)] race_history"
proof -
  let ?first = "events example_broker example_client race_request ref_world"
  let ?second = "events example_broker example_client race_request refusing_world"
  have "?first \<noteq> []" "?second \<noteq> []" by code_simp+
  then have "race_history \<in> shuffles (butlast ?first @ [last ?first]) (butlast ?second @ [last ?second])"
    unfolding race_history_def Let_def
    by (intro shuffles_append) (simp_all add: Cons_in_shuffles_leftI append_in_shuffles)
  with \<open>?first \<noteq> []\<close> \<open>?second \<noteq> []\<close> have "race_history \<in> shuffles ?first ?second" by simp
  moreover have "interleaved example_broker example_client [(race_request, refusing_world)] ?second"
    by (rule interleaved.more [OF interleaved.idle]) simp
  ultimately show ?thesis by (rule interleaved.more [rotated])
qed


section \<open>Single operations\<close>

text \<open>
  C8: A successful provisioning asked Tiller for exactly one change: the installation of one
  chart, under the name of the instance, waiting for its resources exactly when the platform does
  not accept an asynchronous answer; and Tiller accepted it. The answer never says that the
  operation is still going on, also where it was not waited for.
\<close>

theorem provision_installs_once:
  assumes "Provision b cl iid details async w = (Ok spec, w')"
  shows "(\<exists>n chart namespace values. getName iid = Ok n \<and>
      adds [install_event chart n namespace (\<not> async) values True] w w') \<and> \<not> spec_IsAsync spec"
proof
  from Provision_ends assms obtain ms where "adds ms w w'" "install_ends iid (\<not> async) ms (Ok spec)"
    by (rule endsE)
  then show "\<exists>n chart namespace values. getName iid = Ok n \<and>
      adds [install_event chart n namespace (\<not> async) values True] w w'"
    by (auto simp: install_ends_def install_outcome_def; blast)
  from assms show "\<not> spec_IsAsync spec"
    by (auto simp: Provision_def provision_new_def andthen_Ok_iff split: if_splits)
qed

theorem provision_installs_once_witness:
  "\<exists>n chart namespace values. getName example_id = Ok n \<and>
      adds [install_event chart n namespace False values True] ref_world provisioned_world"
  using provision_installs_once [OF example_provision] by simp

text \<open>
  C9: An update asks Tiller for at most one change, the upgrade of the release of the instance,
  waiting exactly when the platform does not accept an asynchronous answer; success is answered
  only after the upgrade was tried.
\<close>

theorem update_upgrades_once:
  assumes "broker_Update b cl iid details async w = (r, w')"
  shows "adds [] w w' \<and> (\<forall>spec. r \<noteq> Ok spec) \<or>
    (\<exists>n chart values ok. getName iid = Ok n \<and> adds [update_event chart n (\<not> async) values ok] w w')"
proof -
  from broker_Update_ends assms obtain ms where "adds ms w w'" "update_ends iid (\<not> async) ms r"
    by (rule endsE)
  then show ?thesis by (auto simp: update_ends_def update_outcome_def)
qed

theorem update_upgrades_once_witness:
  "\<exists>n chart values ok. getName example_id = Ok n \<and>
     adds [update_event chart n True values ok] provisioned_world
       (snd (broker_Update example_broker example_client example_id example_details False provisioned_world))"
proof -
  let ?run = "broker_Update example_broker example_client example_id example_details False provisioned_world"
  have "fst ?run = Ok \<lparr>spec_IsAsync = False\<rparr>" by code_simp
  then have "?run = (Ok \<lparr>spec_IsAsync = False\<rparr>, snd ?run)" by (metis prod.collapse)
  from update_upgrades_once [OF this] show ?thesis by auto
qed

text \<open>
  C10: An upgrade that fails is answered as a success: when Tiller refuses every upgrade and
  lists the release, then an update either stops before it asks for the upgrade, or it asks for
  it, is refused, and is answered like an update that succeeded.
\<close>

theorem update_error_swallowed:
  assumes "refuses_upgrades rls (w_ext w)"
    and "broker_Update b cl iid details async w = (r, w')"
  shows "adds [] w w' \<and> (\<forall>spec. r \<noteq> Ok spec) \<or>
    (\<exists>n chart values. getName iid = Ok n \<and>
       adds [update_event chart n (\<not> async) values False] w w' \<and> r = Ok \<lparr>spec_IsAsync = False\<rparr>)"
proof -
  from ends_ifE [OF broker_Update_refused assms(2,1)] obtain ms where "adds ms w w'"
    "ms = [] \<and> (\<forall>x. r \<noteq> Ok x) \<or> (\<exists>name ch v. getName iid = Ok name \<and>
        ms = [update_event ch name (\<not> async) v False] \<and> r = Ok \<lparr>spec_IsAsync = False\<rparr>)"
    by blast
  then show ?thesis by blast
qed

definition failing_ext :: "(string, string) ext" where
  "failing_ext = ref_ext\<lparr>ext_UpdateRelease := (\<lambda>h n ch opts. (None, Some ''upgrade failed'')),
     ext_ListReleases := (\<lambda>h opts. Inr (1, [''helmif9f2b0c12a3d4e'']))\<rparr>"

definition failing_world :: "(string, string) world" where
  "failing_world = ref_world\<lparr>w_ext := failing_ext,
     w_hist := [install_event ''chart'' ''helmif9f2b0c12a3d4e'' [] True [] True]\<rparr>"

theorem update_error_swallowed_witness:
  "\<exists>chart values. adds [update_event chart ''helmif9f2b0c12a3d4e'' True values False] failing_world
     (snd (broker_Update example_broker example_client example_id example_details False failing_world))"
proof -
  let ?run = "broker_Update example_broker example_client example_id example_details False failing_world"
  have "fst ?run = Ok \<lparr>spec_IsAsync = False\<rparr>" by code_simp
  then have run: "?run = (Ok \<lparr>spec_IsAsync = False\<rparr>, snd ?run)" by (metis prod.collapse)
  have "refuses_upgrades ''helmif9f2b0c12a3d4e'' (w_ext failing_world)"
    by (simp add: failing_world_def failing_ext_def refuses_upgrades_def)
  from update_error_swallowed [OF this run] show ?thesis by (auto simp: example_name)
qed

text \<open>
  C11: A template of values that fails is not noticed: when it does, a provisioning that is
  answered as a success has installed the chart with the values of no map at all, so that the
  values of the plan and the parameters of the user are lost.
\<close>

theorem values_lost:
  assumes "fails_templates (w_ext w)"
    and "Provision b cl iid details async w = (Ok spec, w')"
  shows "\<exists>n chart namespace values. getName iid = Ok n \<and> ext_yaml_Marshal (w_ext w) (GMap []) = Inr values
    \<and> adds [install_event chart n namespace (\<not> async) values True] w w'"
proof -
  have "fails_templates (w_ext w) \<and> ext_yaml_Marshal (w_ext w) (GMap []) = ext_yaml_Marshal (w_ext w) (GMap [])"
    using assms(1) by simp
  with ends_ifE [OF Provision_bare [where none = "ext_yaml_Marshal (w_ext w) (GMap [])"] assms(2)]
  obtain ms where "adds ms w w'"
    "bare_ends (ext_yaml_Marshal (w_ext w) (GMap [])) iid (\<not> async) ms (Ok spec)" by blast
  then show ?thesis by (auto simp: bare_ends_def bare_install_outcome_def; blast)
qed

definition broken_world :: "(string, string) world" where
  "broken_world = ref_world\<lparr>w_ext := ref_ext\<lparr>ext_execute_values := \<lambda>h t s p. Inl ''no such function''\<rparr>\<rparr>"

theorem values_lost_witness:
  "\<exists>chart namespace. adds [install_event chart ''helmif9f2b0c12a3d4e'' namespace True ''values'' True] broken_world
     (snd (Provision example_broker example_client example_id
       (example_details\<lparr>rd_RawParameters := ''{}''\<rparr>) False broken_world))"
proof -
  let ?run = "Provision example_broker example_client example_id
    (example_details\<lparr>rd_RawParameters := ''{}''\<rparr>) False broken_world"
  have "fst ?run = Ok \<lparr>spec_IsAsync = False\<rparr>" by code_simp
  then have run: "?run = (Ok \<lparr>spec_IsAsync = False\<rparr>, snd ?run)" by (metis prod.collapse)
  have "fails_templates (w_ext broken_world)" by (simp add: broken_world_def fails_templates_def)
  from values_lost [OF this run] show ?thesis
    by (simp add: example_name) (simp add: broken_world_def ref_ext_def)
qed

text \<open>
  C12: Binding, unbinding and asking for the last operation change nothing: whatever they answer,
  no call they made installs, upgrades or deletes a release.
\<close>

theorem bind_reads_only:
  "adds [] w (snd (Bind b iid bid details w)) \<and> adds [] w (snd (Unbind b iid bid w)) \<and>
   adds [] w (snd (LastOperation b iid w))"
  using quiet_run [OF broker_reads(1) prod.collapse [symmetric]]
    quiet_run [OF broker_reads(2) prod.collapse [symmetric]]
    quiet_run [OF broker_reads(3) prod.collapse [symmetric]]
  by blast

text \<open>
  C13: The state of the last operation, from the status of the release: failed when the status
  says so; else succeeded when no node is missing or the release is deployed; else in progress
  while it is being deleted; else no state. A release that is deployed is reported as succeeded
  also when nodes are missing, and is never in progress.
\<close>

theorem last_operation_state:
  assumes "getName iid = Ok n" and "client_GetStatus n w = (Ok st, w')"
  shows "LastOperation b iid w =
    (Ok (if st_IsFailed st then LoFailed
         else if st_AvailableNodes st \<ge> st_DesiredNodes st \<or> st_IsDeployed st then Succeeded
         else if st_IsDeleting st then InProgress else NoState), w')"
  unfolding run_LastOperation [OF assms] operation_state_cases ..

theorem last_operation_state_witness:
  "fst (LastOperation example_broker example_id provisioned_world) = Ok Succeeded"
proof -
  let ?run = "client_GetStatus ''helmif9f2b0c12a3d4e'' provisioned_world"
  let ?st = "zero_status\<lparr>st_Name := ''helmif9f2b0c12a3d4e'', st_Namespace := ''default'', st_IsDeployed := True\<rparr>"
  have "ref_holds (w_hist provisioned_world) ''helmif9f2b0c12a3d4e'' = Present" by code_simp
  then have "fst ?run = Ok ?st"
    by (simp add: client_GetStatus_def ReleaseStatus_call_def call_sum_def andthen_def
        status_of_response_def status_code_String_def provisioned_ext provisioned_env ref_ext_def
        convertByteToStatus_def parse_empty timeout_duration_def ParseDuration_30m apply_timeout_def
        apply_code_def zero_status_def)
  then have "?run = (Ok ?st, snd ?run)" by (metis prod.collapse)
  from last_operation_state [OF example_name this] show ?thesis by (simp add: zero_status_def)
qed

text \<open>
  C14: An instance of which Tiller says that it is not found is reported as gone, after three
  requests for its status and no other call.
\<close>

theorem last_operation_gone:
  assumes "getName iid = Ok n"
    and "\<And>h. ext_ReleaseStatus (w_ext w) h n = Inl e" and "strings_Contains e ''not found''"
  shows "LastOperation b iid w = (Err ErrInstanceDoesNotExist,
    record_call (ReleaseStatus n) False (record_call (ReleaseStatus n) False
      (record_call (ReleaseStatus n) False w)))"
  using assms
  by (simp add: LastOperation_def GetStatus_def run_GetStatus_Err run_Exists run_ExistRelease
      andthen_def attempt_def)

theorem last_operation_gone_witness:
  "fst (LastOperation example_broker example_id (ref_world\<lparr>w_ext :=
     ref_ext\<lparr>ext_ReleaseStatus := (\<lambda>h n. Inl ''release not found'')\<rparr>\<rparr>)) = Err ErrInstanceDoesNotExist"
proof -
  have "strings_Contains ''release not found'' ''not found''"
    by (simp add: strings_Contains_def strings_Index_def strings_HasPrefix_def)
  from last_operation_gone [OF example_name _ this, where b = example_broker and
      w = "ref_world\<lparr>w_ext := ref_ext\<lparr>ext_ReleaseStatus := (\<lambda>h n. Inl ''release not found'')\<rparr>\<rparr>"]
  show ?thesis by simp
qed

text \<open>
  C40: Serving a request about an instance makes only calls about the release of that instance:
  every status, content, listing, installation, upgrade, deletion and log line of values names
  it; and where the id gives no name, there is none of these calls.
\<close>

theorem requests_stay_with_their_instance:
  "only (broker_call (request_instance q)) w (serve b cl q w) \<and>
   (broker_call iid (InstallReleaseFromChart chart namespace opts) \<longleftrightarrow> getName iid = Ok (opts_name opts)) \<and>
   (broker_call iid (DeleteRelease n dopts) \<longleftrightarrow> getName iid = Ok n) \<and>
   (broker_call iid (UpdateReleaseFromChart n chart uopts) \<longleftrightarrow> getName iid = Ok n)"
proof (intro conjI serve_calls)
  show "broker_call iid (InstallReleaseFromChart chart namespace opts) \<longleftrightarrow> getName iid = Ok (opts_name opts)"
    "broker_call iid (DeleteRelease n dopts) \<longleftrightarrow> getName iid = Ok n"
    "broker_call iid (UpdateReleaseFromChart n chart uopts) \<longleftrightarrow> getName iid = Ok n"
    by (cases "getName iid"; auto simp: broker_call_def about_def not_Cons_self)+
qed

lemma provision_new_switch:
  "provision_new (b\<lparr>br_allowUserUpdateParameters := x\<rparr>) cl iid d acc = provision_new b cl iid d acc"
  by (simp add: provision_new_def)

text \<open>
  The switch for update parameters in the configuration has no effect: the broker serves
  every request in the same way whatever its value; it is the switch for provisioning that
  decides whether the parameters of an update are used.
\<close>

theorem update_switch_unused:
  "serve (b\<lparr>br_allowUserUpdateParameters := x\<rparr>) cl q w = serve b cl q w \<and>
   (\<not> br_allowUserProvisionParameters b \<longrightarrow>
      broker_Update b cl iid details async w =
      andthen (log_call (LogDetails iid (rd_RawParameters details))) (\<lambda>_.
      andthen (if length (rd_RawContext details) > 0
               then json_Unmarshal (json_string_map ''broker.RequestContext'') (rd_RawContext details)
               else ret []) (\<lambda>requestContext.
      andthen (Update iid (br_catalog b) (rd_ServiceID details) (rd_PlanID details) cl async []
                 requestContext) (\<lambda>_. ret \<lparr>spec_IsAsync = False\<rparr>))) w)"
proof
  show "serve (b\<lparr>br_allowUserUpdateParameters := x\<rparr>) cl q w = serve b cl q w"
    by (cases q) (simp_all add: serve_def Provision_def provision_new_switch broker_Update_def
        Deprovision_def Bind_def Unbind_def LastOperation_def cong: if_cong)
  show "\<not> br_allowUserProvisionParameters b \<longrightarrow>
      broker_Update b cl iid details async w =
      andthen (log_call (LogDetails iid (rd_RawParameters details))) (\<lambda>_.
      andthen (if length (rd_RawContext details) > 0
               then json_Unmarshal (json_string_map ''broker.RequestContext'') (rd_RawContext details)
               else ret []) (\<lambda>requestContext.
      andthen (Update iid (br_catalog b) (rd_ServiceID details) (rd_PlanID details) cl async []
                 requestContext) (\<lambda>_. ret \<lparr>spec_IsAsync = False\<rparr>))) w"
    by (simp add: broker_Update_def ret_andthen)
qed

theorem update_switch_unused_witness:
  "serve (example_broker\<lparr>br_allowUserUpdateParameters := False\<rparr>) example_client
      (LastOperationRequest example_id) provisioned_world
    = serve example_broker example_client (LastOperationRequest example_id) provisioned_world \<and>
   broker_Update (example_broker\<lparr>br_allowUserProvisionParameters := False\<rparr>) example_client example_id
      (example_details\<lparr>rd_RawParameters := ''malformed''\<rparr>) False ref_world
    = andthen (log_call (LogDetails example_id ''malformed'')) (\<lambda>_.
        andthen (ret []) (\<lambda>requestContext.
        andthen (Update example_id example_catalog ''s1'' ''p1'' example_client False [] requestContext)
          (\<lambda>_. ret \<lparr>spec_IsAsync = False\<rparr>))) ref_world"
  using update_switch_unused [where b = example_broker and x = False and cl = example_client
      and q = "LastOperationRequest example_id" and w = provisioned_world, THEN conjunct1]
    update_switch_unused [where b = "example_broker\<lparr>br_allowUserProvisionParameters := False\<rparr>"
      and cl = example_client and w = ref_world and iid = example_id and async = False
      and details = "example_details\<lparr>rd_RawParameters := ''malformed''\<rparr>", THEN conjunct2]
  by (simp add: example_details_def example_broker_def New_def)

section \<open>The program\<close>


definition example_config :: Config where
  "example_config = \<lparr>cfg_LogLevel = ''info'', cfg_Username = ''admin'', cfg_Password = ''secret'',
     cfg_Platform = [], cfg_HelmiConfig = ref_config\<lparr>hc_CatalogDir := ''d'',
       hc_TillerConfig := (hc_TillerConfig ref_config)\<lparr>ts_Host := ''tiller:44134''\<rparr>\<rparr>\<rparr>"

definition example_entries :: "walk_entry list" where
  "example_entries = [WalkDir ''d'', WalkFile ''d/notes.txt'' (Inl ''x''), WalkFile ''d/s.yaml'' (Inr example_file)]"

definition example_main :: "(string, string, HelmBroker \<times> (string \<times> Client) option) prog" where
  "example_main = main_program (\<lambda>_. Inr ()) (\<lambda>_. Inr []) (\<lambda>_. Inr (Some example_config))
     (\<lambda>_. Inr example_catalog_service) (\<lambda>n t. Inr (Template n t)) (\<lambda>_. example_entries)
     (ret ()) (\<lambda>k n. ret 1) ''config.yaml'' ''8080''"

definition started_world :: "(string, string) world" where
  "started_world = snd (set_environment example_config ref_world)"

lemma example_load: "LoadConfig (\<lambda>_. Inr ()) (\<lambda>_. Inr []) (\<lambda>_. Inr (Some example_config)) ''config.yaml''
    = Ok example_config"
  by (simp add: LoadConfig_def Config_Validate_def example_config_def ref_config_def)

lemma example_NewClient:
  "fst (NewClient (ret ()) (\<lambda>k n. ret 1) (cfg_HelmiConfig example_config) started_world)
     = Ok (Some \<lparr>client_env = getHelmEnvironment (cfg_HelmiConfig example_config),
                client_config = cfg_HelmiConfig example_config\<rparr>)"
  by code_simp

lemma example_main_run: "\<exists>b srv w'. example_main ref_world = (Ok (b, srv), w')"
proof -
  have env: "set_environment example_config ref_world = (Ok (), started_world)"
    by (simp add: started_world_def run_set_environment)
  have logger: "buildLogger (cfg_LogLevel example_config) = Ok INFO"
    by (simp add: buildLogger_def example_config_def logLevels_def strings_ToUpper_def ascii_eval)
  have dir: "hc_CatalogDir (cfg_HelmiConfig example_config) = ''d''"
    by (simp add: example_config_def)
  obtain client w' where new: "NewClient (ret ()) (\<lambda>k n. ret 1) (cfg_HelmiConfig example_config) started_world
      = (Ok client, w')"
    using example_NewClient by (metis prod.collapse)
  show ?thesis
    by (simp add: example_main_def main_program_def Let_def example_load logger dir example_read
        example_entries_def env new)
qed


end
